(* ===== verification/Prelude.thy ===== *)
theory Prelude
  imports Complex_Main "HOL-Library.Multiset"
begin

text \<open>
  Shared vocabulary of the development. The repository is TypeScript/React; the
  components call a handful of JavaScript built-ins (\<open>Array.prototype.splice\<close>,
  \<open>pop\<close>, \<open>findIndex\<close>, \<open>includes\<close>, the remainder operator \<open>%\<close>,
  \<open>Boolean.prototype.toString\<close>). They are the language's semantics, not code of the
  repository, and are defined here once, with the lemmas the component theories share.
  \<open>includes\<close> is list membership (\<open>x \<in> set xs\<close>) and \<open>find\<close> is \<open>List.find\<close>.
\<close>

named_theorems js_simps "equations of the JavaScript built-ins, for unfolding"
named_theorems inv_intros "invariant preservation facts of the components"

type_synonym field_id = string

section \<open>JavaScript built-ins\<close>

text \<open>
  \<open>xs.splice(i, 0, x)\<close> with \<open>0 \<le> i\<close> inserts \<open>x\<close> before position \<open>i\<close>; a start
  beyond the end is clamped to the length, which \<open>take\<close>/\<open>drop\<close> do by themselves.
\<close>

definition js_splice_insert :: "nat \<Rightarrow> 'a \<Rightarrow> 'a list \<Rightarrow> 'a list" where
  "js_splice_insert i x xs = take i xs @ x # drop i xs"

text \<open>\<open>xs.pop()\<close> removes the last element (the result value is not used by the code).\<close>

definition js_pop :: "'a list \<Rightarrow> 'a list" where
  "js_pop xs = butlast xs"

text \<open>\<open>xs.findIndex(p)\<close>: the first index satisfying \<open>p\<close>, or \<open>-1\<close>.\<close>

fun js_findIndex :: "('a \<Rightarrow> bool) \<Rightarrow> 'a list \<Rightarrow> int" where
  "js_findIndex p [] = -1"
| "js_findIndex p (x # xs) =
     (if p x then 0 else (let k = js_findIndex p xs in if k = -1 then -1 else k + 1))"

text \<open>
  The remainder operator \<open>a % b\<close> on integral numbers truncates: the result has the sign of
  the dividend (\<open>-1 % 5 = -1\<close>), unlike HOL's \<open>mod\<close>. It is used with a non-zero
  divisor only (a zero divisor gives \<open>NaN\<close>).
\<close>

definition js_rem :: "int \<Rightarrow> int \<Rightarrow> int" where
  "js_rem a b = sgn a * (\<bar>a\<bar> mod \<bar>b\<bar>)"

fun js_bool_str :: "bool \<Rightarrow> string" where
  "js_bool_str True = ''true''"
| "js_bool_str False = ''false''"

declare js_splice_insert_def [js_simps] js_pop_def [js_simps]

section \<open>Lemmas on the built-ins\<close>

lemma js_splice_insert_0 [simp]: "js_splice_insert 0 x xs = x # xs"
  by (simp add: js_splice_insert_def)

lemma length_js_splice_insert [simp]: "length (js_splice_insert i x xs) = Suc (length xs)"
  by (simp add: js_splice_insert_def)

lemma set_js_splice_insert [simp]: "set (js_splice_insert i x xs) = insert x (set xs)"
proof -
  have "set (take i xs) \<union> set (drop i xs) = set xs"
    by (metis set_append append_take_drop_id)
  then show ?thesis by (auto simp: js_splice_insert_def)
qed

lemma mset_js_splice_insert [simp]: "mset (js_splice_insert i x xs) = add_mset x (mset xs)"
proof -
  have "mset (take i xs) + mset (drop i xs) = mset xs"
    by (metis mset_append append_take_drop_id)
  then show ?thesis by (simp add: js_splice_insert_def)
qed

lemma distinct_js_splice_insert [simp]:
  "distinct (js_splice_insert i x xs) \<longleftrightarrow> x \<notin> set xs \<and> distinct xs"
proof -
  have "mset (js_splice_insert i x xs) = mset (x # xs)" by simp
  from mset_eq_imp_distinct_iff [OF this] show ?thesis by simp
qed

lemma nth_js_splice_insert:
  "i \<le> length xs \<Longrightarrow> js_splice_insert i x xs ! i = x"
proof -
  assume "i \<le> length xs"
  then have "length (take i xs) = i" by simp
  then show ?thesis by (simp add: js_splice_insert_def nth_append)
qed

lemma js_splice_insert_at_end:
  "length xs \<le> i \<Longrightarrow> js_splice_insert i x xs = xs @ [x]"
  by (simp add: js_splice_insert_def)

text \<open>Insert-then-pop-if-too-long keeps the first \<open>m\<close> elements.\<close>

lemma js_pop_bounded:
  assumes "length ys \<le> Suc m"
  shows "(if m < length ys then js_pop ys else ys) = take m ys"
proof (cases "m < length ys")
  case True
  with assms have "length ys - 1 = m" by simp
  with True show ?thesis by (simp add: js_pop_def butlast_conv_take)
qed simp

text \<open>Inserting before an existing position and cutting back to the old length is
  inserting into the list without its last element.\<close>

lemma take_js_splice_insert_butlast:
  assumes "k < length xs"
  shows "take (length xs) (js_splice_insert k x xs) = js_splice_insert k x (butlast xs)"
proof -
  have "take k (butlast xs) = take k xs" and
    "drop k (butlast xs) = take (length xs - Suc k) (drop k xs)"
    using assms by (simp_all add: butlast_conv_take min_absorb1 drop_take)
  moreover have "length xs - k = Suc (length xs - Suc k)" using assms by simp
  ultimately show ?thesis using assms by (simp add: js_splice_insert_def take_append min_def)
qed

lemma js_findIndex_bounds: "-1 \<le> js_findIndex p xs \<and> js_findIndex p xs < int (length xs)"
  by (induction xs) (auto simp: Let_def)

lemma js_findIndex_none_iff: "js_findIndex p xs = -1 \<longleftrightarrow> (\<forall>x\<in>set xs. \<not> p x)"
proof (induction xs)
  case Nil
  then show ?case by simp
next
  case (Cons y ys)
  have "0 \<le> js_findIndex p ys + 1" using js_findIndex_bounds [of p ys] by simp
  with Cons show ?case by (auto simp: Let_def)
qed

lemma js_findIndex_found:
  "0 \<le> js_findIndex p xs \<Longrightarrow> p (xs ! nat (js_findIndex p xs))"
proof (induction xs)
  case Nil
  then show ?case by simp
next
  case (Cons y ys)
  show ?case
  proof (cases "p y")
    case False
    with Cons.prems have ge: "0 \<le> js_findIndex p ys"
      using js_findIndex_bounds [of p ys] by (auto simp: Let_def split: if_splits)
    then have "nat (js_findIndex p ys + 1) = Suc (nat (js_findIndex p ys))" by simp
    with False ge Cons.IH show ?thesis by (simp add: Let_def)
  qed simp
qed

lemma js_findIndex_first:
  "0 \<le> js_findIndex p xs \<Longrightarrow> j < nat (js_findIndex p xs) \<Longrightarrow> \<not> p (xs ! j)"
proof (induction xs arbitrary: j)
  case Nil
  then show ?case by simp
next
  case (Cons y ys)
  show ?case
  proof (cases "p y")
    case False
    with Cons.prems(1) have ge: "0 \<le> js_findIndex p ys"
      using js_findIndex_bounds [of p ys] by (auto simp: Let_def split: if_splits)
    show ?thesis
    proof (cases j)
      case (Suc j')
      with False ge Cons.prems(2) have "j' < nat (js_findIndex p ys)"
        by (simp add: Let_def)
      with ge Cons.IH Suc show ?thesis by simp
    qed (use False in simp)
  qed (use Cons.prems in simp)
qed

lemma js_findIndex_cong:
  "(\<And>x. x \<in> set xs \<Longrightarrow> p x = q x) \<Longrightarrow> js_findIndex p xs = js_findIndex q xs"
  by (induction xs) (auto simp: Let_def)

text \<open>On a list without repetitions, \<open>findIndex\<close> of an element is its position.\<close>

lemma js_findIndex_nth_distinct:
  "distinct xs \<Longrightarrow> i < length xs \<Longrightarrow> js_findIndex (\<lambda>y. y = xs ! i) xs = int i"
proof (induction xs arbitrary: i)
  case Nil
  then show ?case by simp
next
  case (Cons y ys)
  show ?case
  proof (cases i)
    case 0
    then show ?thesis by simp
  next
    case (Suc i')
    with Cons.prems have "ys ! i' \<noteq> y" "i' < length ys" "distinct ys"
      by (auto simp: nth_mem)
    with Cons.IH Suc show ?thesis by (simp add: Let_def)
  qed
qed

lemma js_rem_nonneg: "0 \<le> a \<Longrightarrow> 0 < b \<Longrightarrow> js_rem a b = a mod b"
  by (cases "a = 0") (auto simp: js_rem_def)

lemma js_rem_abs_bound: "b \<noteq> 0 \<Longrightarrow> \<bar>js_rem a b\<bar> < \<bar>b\<bar>"
  by (auto simp: js_rem_def abs_mult sgn_if)

lemma js_rem_sign: "0 \<le> a \<Longrightarrow> 0 \<le> js_rem a b"
  by (cases "b = 0") (auto simp: js_rem_def sgn_if)

text \<open>Removing the element at \<open>i\<close> (the \<open>take\<close>/\<open>drop\<close> splice of a
  queue) takes its weight off a sum.\<close>

lemma sum_list_map_remove_nth:
  "i < length xs \<Longrightarrow>
   sum_list (map f (take i xs @ drop (Suc i) xs)) + f (xs ! i) = sum_list (map (f :: 'a \<Rightarrow> 'b :: comm_monoid_add) xs)"
proof (induction xs arbitrary: i)
  case Nil
  then show ?case by simp
next
  case (Cons x xs)
  then show ?case by (cases i) (simp_all add: add.commute add.left_commute)
qed

text \<open>An element of \<open>List.map_filter\<close> comes from an element of the list.\<close>

lemma in_set_map_filter:
  "y \<in> set (List.map_filter g xs) \<Longrightarrow> \<exists>x\<in>set xs. g x = Some y"
  by (induction xs) (auto simp: List.map_filter_simps split: option.splits)

end
