(* ===== verification/Catalogue.thy ===== *)
theory Catalogue
  imports Prelude
begin

text \<open>
  The data model of \<open>src/src/types.ts\<close> and the field catalogue of
  \<open>src/src/components/EditMode/constants.ts\<close>: the book record, the draggable field
  descriptor, the fifteen descriptors \<open>initialDraggables\<close> in their fixed order, the
  default configuration \<open>defaultFields\<close>, and the lookup of a descriptor by identifier
  (\<open>draggables.find(d => d.id === id)\<close>). Field identifiers are strings, as in the code,
  so that an unknown identifier (an empty or foreign drag payload) is representable.
\<close>

section \<open>Types\<close>

text \<open>A screen position \<open>{ x: number; y: number }\<close>.\<close>

record point =
  px :: real
  py :: real

text \<open>\<open>interface DraggableInfo\<close>; \<open>type\<close> is renamed \<open>info_type\<close>.\<close>

record draggable_info =
  info_id :: string
  label :: string
  info_type :: string
  initialPosition :: point

text \<open>\<open>interface AudioBook\<close>; \<open>length\<close> is renamed \<open>bookLength\<close>.\<close>

record audio_book =
  coverArt :: string
  bookTitle :: string
  bookSubtitle :: string
  ratingStar :: real
  numberOfReviews :: string
  bookCashPrice :: real
  discount :: string
  author :: string
  narrator :: string
  bookLength :: string
  releaseDate :: string
  language :: string
  publisher :: string
  category :: string
  aiSummary :: string
  aiReview :: string
  topicTags :: string

section \<open>The field catalogue\<close>

definition defaultFields :: "field_id list" where
  "defaultFields = [''bookTitle'', ''bookSubtitle'', ''author'', ''narrator'', ''ratingStar'']"

definition mk_info :: "string \<Rightarrow> string \<Rightarrow> string \<Rightarrow> real \<Rightarrow> real \<Rightarrow> draggable_info" where
  "mk_info i l t x y = \<lparr>info_id = i, label = l, info_type = t, initialPosition = \<lparr>px = x, py = y\<rparr>\<rparr>"

definition initialDraggables :: "draggable_info list" where
  "initialDraggables = [
     mk_info ''bookTitle'' ''Title'' ''text'' (-200) (-150),
     mk_info ''bookSubtitle'' ''Subtitle'' ''text'' 200 (-150),
     mk_info ''ratingStar'' ''Rating Stars'' ''number'' (-200) 0,
     mk_info ''numberOfReviews'' ''Reviews'' ''text'' 200 0,
     mk_info ''bookCashPrice'' ''Price'' ''number'' (-150) 150,
     mk_info ''discount'' ''Discount'' ''text'' 150 150,
     mk_info ''length'' ''Length'' ''text'' 0 (-200),
     mk_info ''author'' ''Author'' ''text'' (-180) (-120),
     mk_info ''narrator'' ''Narrator'' ''text'' 180 (-120),
     mk_info ''releaseDate'' ''Release Date'' ''text'' (-160) 80,
     mk_info ''publisher'' ''Publisher'' ''text'' 160 80,
     mk_info ''category'' ''Category'' ''text'' 0 200,
     mk_info ''aiSummary'' ''AI Summary'' ''text'' (-120) (-180),
     mk_info ''aiReview'' ''AI Review'' ''text'' 120 (-180),
     mk_info ''topicTags'' ''Topics'' ''text'' 0 180]"

text \<open>The identifiers of the catalogue, in its order.\<close>

definition field_ids :: "field_id list" where
  "field_ids = map info_id initialDraggables"

text \<open>\<open>draggables.find(d => d.id === id)\<close>: \<open>None\<close> is JavaScript's \<open>undefined\<close>.\<close>

definition find_draggable :: "draggable_info list \<Rightarrow> field_id \<Rightarrow> draggable_info option" where
  "find_draggable ds i = find (\<lambda>d. info_id d = i) ds"

section \<open>Facts about the catalogue\<close>

lemma field_ids_unfold:
  "field_ids = [''bookTitle'', ''bookSubtitle'', ''ratingStar'', ''numberOfReviews'',
     ''bookCashPrice'', ''discount'', ''length'', ''author'', ''narrator'', ''releaseDate'',
     ''publisher'', ''category'', ''aiSummary'', ''aiReview'', ''topicTags'']"
  by (simp add: field_ids_def initialDraggables_def mk_info_def)

lemma distinct_field_ids: "distinct field_ids"
  by (simp add: field_ids_unfold)

lemma length_field_ids: "length field_ids = 15"
  by (simp add: field_ids_unfold)

lemma defaultFields_known: "set defaultFields \<subseteq> set field_ids"
  by (simp add: field_ids_unfold defaultFields_def)

lemma distinct_defaultFields: "distinct defaultFields"
  by (simp add: defaultFields_def)

lemma length_defaultFields: "length defaultFields = 5"
  by (simp add: defaultFields_def)

text \<open>A lookup finds a descriptor exactly for the identifiers of the catalogue, and the
  descriptor it finds carries that identifier.\<close>

lemma find_draggable_Some: "find_draggable ds i = Some d \<Longrightarrow> info_id d = i \<and> d \<in> set ds"
  by (auto simp: find_draggable_def find_Some_iff nth_mem)

lemma find_draggable_None_iff: "find_draggable ds i = None \<longleftrightarrow> i \<notin> set (map info_id ds)"
  by (auto simp: find_draggable_def find_None_iff)

lemma find_draggable_known:
  "i \<in> set field_ids \<Longrightarrow> \<exists>d. find_draggable initialDraggables i = Some d \<and> info_id d = i"
  by (cases "find_draggable initialDraggables i")
     (auto simp: find_draggable_None_iff field_ids_def dest: find_draggable_Some)

end
