(* ===== verification/Assignment.thy ===== *)
theory Assignment
  imports Catalogue
begin

text \<open>
  The edit overlay's field-assignment state machine, \<open>src/src/components/EditMode/index.tsx\<close>
  (its \<open>useState\<close> hooks and its event handlers), with the slot structure rendered by
  \<open>PreviewContainer.tsx\<close> and the bubble and touch handlers wired in \<open>index.tsx\<close> and
  \<open>DraggableBubble.tsx\<close>. Every handler is one definition over the record of the
  component's state; the browser's drag payload (\<open>e.dataTransfer\<close>) travels beside the
  state, as the value set at drag start and read at drop. The DOM side effects of the
  handlers (clearing selections, blurring, synthetic \<open>mouseleave\<close> events, border
  colours) change no state of the model and are left out.
\<close>

section \<open>State\<close>

text \<open>\<open>getBoundingClientRect()\<close> of the preview container.\<close>

record rect =
  rleft :: real
  rright :: real
  rtop :: real
  rbottom :: real

text \<open>The two keys the code stores in \<open>e.dataTransfer\<close>; \<open>getData\<close> of a key never set is
  the empty string.\<close>

record data_transfer =
  dt_itemId :: string
  dt_fromContainer :: string

definition empty_transfer :: data_transfer where
  "empty_transfer = \<lparr>dt_itemId = [], dt_fromContainer = []\<rparr>"

text \<open>The state hooks of \<open>EditMode\<close> that the handlers write (\<open>draggables\<close> is never
  updated and stays \<^const>\<open>initialDraggables\<close>; \<open>positions\<close> is derived, see the
  layout theory).\<close>

record edit_state =
  activeContainer :: "field_id list"
  draggedItem :: "field_id option"
  draggedOverSlot :: "nat option"
  isDraggingFromContainer :: bool
  showPreview :: bool
  isSaving :: bool
  showSuccess :: bool
  touchDragPosition :: "point option"
  isDraggingTouch :: bool

text \<open>\<open>currentConfig ? currentConfig.map(field => field.id) : defaultFields\<close>; an empty
  array is truthy in JavaScript, so only an absent configuration falls back.\<close>

definition init_edit :: "draggable_info list option \<Rightarrow> edit_state" where
  "init_edit currentConfig =
     \<lparr>activeContainer =
        (case currentConfig of Some c \<Rightarrow> map info_id c | None \<Rightarrow> defaultFields),
      draggedItem = None, draggedOverSlot = None, isDraggingFromContainer = False,
      showPreview = False, isSaving = False, showSuccess = False,
      touchDragPosition = None, isDraggingTouch = False\<rparr>"

section \<open>Handlers\<close>

definition handleDragStart :: "field_id \<Rightarrow> bool \<Rightarrow> edit_state \<Rightarrow> data_transfer \<times> edit_state" where
  "handleDragStart itemId fromContainer st =
     (\<lparr>dt_itemId = itemId, dt_fromContainer = js_bool_str fromContainer\<rparr>,
      st\<lparr>draggedItem := Some itemId, isDraggingFromContainer := fromContainer,
         showPreview := True\<rparr>)"

definition handleDragEnd :: "edit_state \<Rightarrow> edit_state" where
  "handleDragEnd st =
     st\<lparr>draggedItem := None, draggedOverSlot := None, isDraggingFromContainer := False,
        showPreview := False\<rparr>"

definition handleDragOver :: "nat \<Rightarrow> edit_state \<Rightarrow> edit_state" where
  "handleDragOver slotIndex st = st\<lparr>draggedOverSlot := Some slotIndex\<rparr>"

definition handleDragLeave :: "edit_state \<Rightarrow> edit_state" where
  "handleDragLeave st = st\<lparr>draggedOverSlot := None\<rparr>"

text \<open>A drop on list slot \<open>slotIndex\<close>: the two early returns, then the bounded insertion
  (\<open>splice\<close>, and \<open>pop\<close> when the list passed five), then \<open>handleDragEnd\<close>.\<close>

definition handleDrop :: "data_transfer \<Rightarrow> nat \<Rightarrow> edit_state \<Rightarrow> edit_state" where
  "handleDrop dt slotIndex st =
     (let itemId = dt_itemId dt;
          fromContainer = (dt_fromContainer dt = ''true'')
      in if itemId = [] then st
         else if fromContainer then st
         else handleDragEnd
           (if itemId \<notin> set (activeContainer st)
            then (let newOrder = js_splice_insert slotIndex itemId (activeContainer st)
                  in st\<lparr>activeContainer :=
                         (if 5 < length newOrder then js_pop newOrder else newOrder)\<rparr>)
            else st))"

definition in_rect :: "point \<Rightarrow> rect \<Rightarrow> bool" where
  "in_rect p r \<longleftrightarrow> rleft r \<le> px p \<and> px p \<le> rright r \<and> rtop r \<le> py p \<and> py p \<le> rbottom r"

text \<open>A drop on the container outside the slots; \<open>containerRect\<close> is \<open>None\<close> when
  \<open>containerRef.current\<close> is null.\<close>

definition handleBubbleDrop ::
  "data_transfer \<Rightarrow> point \<Rightarrow> rect option \<Rightarrow> edit_state \<Rightarrow> edit_state" where
  "handleBubbleDrop dt client containerRect st =
     (let itemId = dt_itemId dt;
          fromContainer = (dt_fromContainer dt = ''true'')
      in if itemId = [] \<or> fromContainer then st
         else (case containerRect of
                 None \<Rightarrow> st
               | Some r \<Rightarrow>
                   handleDragEnd
                     (if in_rect client r \<and> itemId \<notin> set (activeContainer st)
                         \<and> length (activeContainer st) < 5
                      then st\<lparr>activeContainer := activeContainer st @ [itemId]\<rparr>
                      else st)))"

definition handleRemoveFromContainer :: "field_id \<Rightarrow> edit_state \<Rightarrow> edit_state" where
  "handleRemoveFromContainer i st =
     st\<lparr>activeContainer := filter (\<lambda>item. item \<noteq> i) (activeContainer st)\<rparr>"

text \<open>\<open>Reorder.Group onReorder\<close> calls \<open>onReorder = setActiveContainer\<close> with the order
  the library computed.\<close>

definition handleReorder :: "field_id list \<Rightarrow> edit_state \<Rightarrow> edit_state" where
  "handleReorder newOrder st = st\<lparr>activeContainer := newOrder\<rparr>"

text \<open>
  The reorder primitive of framer-motion (not in this repository): \<open>checkReorder\<close> moves
  the dragged value to a neighbouring index with \<open>moveItem(order, from, to)\<close>, which
  removes the element at \<open>from\<close> and splices it in at \<open>to\<close>; an index out of range
  leaves the array as it is.
\<close>

definition moveItem :: "'a list \<Rightarrow> nat \<Rightarrow> nat \<Rightarrow> 'a list" where
  "moveItem xs i j =
     (if i < length xs then js_splice_insert j (xs ! i) (take i xs @ drop (Suc i) xs) else xs)"

text \<open>The touch handlers of a mobile bubble for field \<open>itemId\<close>; \<open>overContainer\<close> is
  the DOM hit test \<open>containerElement && elementBelow && contains(...)\<close>.\<close>

definition touchStartBubble :: "field_id \<Rightarrow> point \<Rightarrow> edit_state \<Rightarrow> edit_state" where
  "touchStartBubble itemId p st =
     st\<lparr>draggedItem := Some itemId, isDraggingTouch := True, touchDragPosition := Some p\<rparr>"

definition touchMoveBubble :: "point \<Rightarrow> edit_state \<Rightarrow> edit_state" where
  "touchMoveBubble p st =
     (if \<not> isDraggingTouch st \<or> draggedItem st = None then st
      else st\<lparr>touchDragPosition := Some p\<rparr>)"

definition touchEndBubble :: "field_id \<Rightarrow> bool \<Rightarrow> edit_state \<Rightarrow> edit_state" where
  "touchEndBubble itemId overContainer st =
     (if \<not> isDraggingTouch st \<or> draggedItem st = None then st
      else (let st' = (if overContainer \<and> itemId \<notin> set (activeContainer st)
                           \<and> length (activeContainer st) < 5
                        then st\<lparr>activeContainer := activeContainer st @ [itemId]\<rparr> else st)
            in st'\<lparr>draggedItem := None, isDraggingTouch := False, touchDragPosition := None\<rparr>))"

section \<open>Events and runs\<close>

text \<open>
  One constructor per handler the rendered overlay can invoke. A drop reads its payload from
  the drag in flight; a drop with no drag of this page in flight (a foreign drag) reads
  the empty payload.
\<close>

datatype edit_event =
    EvDragStart field_id bool
  | EvDragEnd
  | EvDragOver nat
  | EvDragLeave
  | EvSlotDrop nat
  | EvBubbleDrop point "rect option"
  | EvRemove field_id
  | EvReorder nat nat
  | EvTouchStart field_id point
  | EvTouchMove point
  | EvTouchEnd field_id bool

type_synonym edit_session = "data_transfer option \<times> edit_state"

definition drop_payload :: "data_transfer option \<Rightarrow> data_transfer" where
  "drop_payload dt = (case dt of None \<Rightarrow> empty_transfer | Some d \<Rightarrow> d)"

fun edit_step :: "edit_event \<Rightarrow> edit_session \<Rightarrow> edit_session" where
  "edit_step (EvDragStart i fc) (dt, st) =
     (let (d, st') = handleDragStart i fc st in (Some d, st'))"
| "edit_step EvDragEnd (dt, st) = (None, handleDragEnd st)"
| "edit_step (EvDragOver k) (dt, st) = (dt, handleDragOver k st)"
| "edit_step EvDragLeave (dt, st) = (dt, handleDragLeave st)"
| "edit_step (EvSlotDrop k) (dt, st) = (dt, handleDrop (drop_payload dt) k st)"
| "edit_step (EvBubbleDrop p r) (dt, st) = (dt, handleBubbleDrop (drop_payload dt) p r st)"
| "edit_step (EvRemove i) (dt, st) = (dt, handleRemoveFromContainer i st)"
| "edit_step (EvReorder i j) (dt, st) = (dt, handleReorder (moveItem (activeContainer st) i j) st)"
| "edit_step (EvTouchStart i p) (dt, st) = (dt, touchStartBubble i p st)"
| "edit_step (EvTouchMove p) (dt, st) = (dt, touchMoveBubble p st)"
| "edit_step (EvTouchEnd i over) (dt, st) = (dt, touchEndBubble i over st)"

text \<open>
  Which events the rendered overlay can deliver. Bubbles (desktop \<open>DraggableBubble\<close> and
  mobile chips) exist for the fields not in \<open>activeContainer\<close>, and both call
  \<open>handleDragStart(e, item.id)\<close> with \<open>fromContainer\<close> left at its default \<open>false\<close>;
  \<open>PreviewContainer\<close> renders one drop slot per row and the trailing slot
  \<open>activeContainer.length\<close> only while fewer than five fields are assigned; a remove
  button sits on each row; the library reorders rows by index.
\<close>

definition slot_rendered :: "field_id list \<Rightarrow> nat \<Rightarrow> bool" where
  "slot_rendered ac k \<longleftrightarrow> k < length ac \<or> (k = length ac \<and> length ac < 5)"

fun edit_enabled :: "edit_event \<Rightarrow> edit_session \<Rightarrow> bool" where
  "edit_enabled (EvDragStart i fc) (dt, st) \<longleftrightarrow>
     i \<in> set field_ids \<and> i \<notin> set (activeContainer st) \<and> \<not> fc"
| "edit_enabled (EvSlotDrop k) (dt, st) \<longleftrightarrow> slot_rendered (activeContainer st) k"
| "edit_enabled (EvRemove i) (dt, st) \<longleftrightarrow> i \<in> set (activeContainer st)"
| "edit_enabled (EvReorder i j) (dt, st) \<longleftrightarrow>
     i < length (activeContainer st) \<and> j < length (activeContainer st)"
| "edit_enabled (EvTouchStart i p) (dt, st) \<longleftrightarrow>
     i \<in> set field_ids \<and> i \<notin> set (activeContainer st)"
| "edit_enabled (EvTouchEnd i over) (dt, st) \<longleftrightarrow> i \<in> set field_ids"
| "edit_enabled _ _ \<longleftrightarrow> True"

text \<open>A well-formed configuration: the invariant of spec section 3.\<close>

definition ac_ok :: "field_id list \<Rightarrow> bool" where
  "ac_ok ac \<longleftrightarrow> distinct ac \<and> length ac \<le> 5 \<and> set ac \<subseteq> set field_ids"

text \<open>The sessions an overlay opened on a well-formed configuration can reach.\<close>

inductive edit_reach :: "edit_session \<Rightarrow> bool" where
  open_edit: "ac_ok (activeContainer (init_edit c)) \<Longrightarrow> edit_reach (None, init_edit c)"
| event: "edit_reach s \<Longrightarrow> edit_enabled e s \<Longrightarrow> edit_reach (edit_step e s)"

fun edit_run :: "edit_event list \<Rightarrow> edit_session \<Rightarrow> edit_session" where
  "edit_run [] s = s"
| "edit_run (e # es) s = edit_run es (edit_step e s)"

fun edit_trace_ok :: "edit_event list \<Rightarrow> edit_session \<Rightarrow> bool" where
  "edit_trace_ok [] s = True"
| "edit_trace_ok (e # es) s = (edit_enabled e s \<and> edit_trace_ok es (edit_step e s))"

section \<open>The abstract specification\<close>

text \<open>
  Spec section 4.1 on the configuration alone: a drop inserts a fresh known field at a slot
  and evicts the tail beyond five, a drop on the container appends while fewer than five
  are assigned, a remove click filters a field out, a reorder permutes, and every other
  event leaves the configuration as it is.
\<close>

inductive cfg_step :: "field_id list \<Rightarrow> field_id list \<Rightarrow> bool" where
  insert_at: "x \<in> set field_ids \<Longrightarrow> x \<notin> set c \<Longrightarrow> cfg_step c (take 5 (js_splice_insert k x c))"
| append: "x \<in> set field_ids \<Longrightarrow> x \<notin> set c \<Longrightarrow> length c < 5 \<Longrightarrow> cfg_step c (c @ [x])"
| remove: "cfg_step c (filter (\<lambda>y. y \<noteq> x) c)"
| permute: "mset c' = mset c \<Longrightarrow> cfg_step c c'"
| keep: "cfg_step c c"

text \<open>The drag phase of spec section 4.1, read off the state.\<close>

datatype drag_phase = Idle | FromCircle field_id | FromList field_id

definition phase :: "edit_state \<Rightarrow> drag_phase" where
  "phase st =
     (case draggedItem st of
        None \<Rightarrow> Idle
      | Some i \<Rightarrow> if isDraggingFromContainer st then FromList i else FromCircle i)"

definition dt_ok :: "data_transfer option \<Rightarrow> bool" where
  "dt_ok dt \<longleftrightarrow>
     (case dt of None \<Rightarrow> True
      | Some d \<Rightarrow> dt_itemId d \<in> set field_ids \<and> dt_fromContainer d = ''false'')"

definition edit_inv :: "edit_session \<Rightarrow> bool" where
  "edit_inv s \<longleftrightarrow>
     ac_ok (activeContainer (snd s)) \<and> dt_ok (fst s) \<and> \<not> isDraggingFromContainer (snd s)"

section \<open>Behaviour of the handlers\<close>

lemma handleDrop_rejected:
  "dt_itemId d = [] \<or> dt_fromContainer d = ''true'' \<Longrightarrow> handleDrop d k st = st"
  by (auto simp: handleDrop_def Let_def)

text \<open>The configuration after a slot drop: the bounded insertion is \<open>take 5\<close> of the
  splice, because the list had at most five entries before.\<close>

lemma handleDrop_activeContainer:
  assumes "length (activeContainer st) \<le> 5"
  shows "activeContainer (handleDrop d k st) =
    (if dt_itemId d = [] \<or> dt_fromContainer d = ''true'' \<or> dt_itemId d \<in> set (activeContainer st)
     then activeContainer st
     else take 5 (js_splice_insert k (dt_itemId d) (activeContainer st)))"
proof -
  have "length (js_splice_insert k (dt_itemId d) (activeContainer st)) \<le> Suc 5"
    using assms by simp
  from js_pop_bounded [OF this] show ?thesis
    by (auto simp: handleDrop_def handleDragEnd_def Let_def)
qed

lemma handleDrop_accepted_idle:
  "dt_itemId d \<noteq> [] \<Longrightarrow> dt_fromContainer d \<noteq> ''true'' \<Longrightarrow>
   draggedItem (handleDrop d k st) = None \<and> draggedOverSlot (handleDrop d k st) = None \<and>
   \<not> isDraggingFromContainer (handleDrop d k st) \<and> \<not> showPreview (handleDrop d k st)"
  by (simp add: handleDrop_def handleDragEnd_def Let_def)

lemma handleBubbleDrop_activeContainer:
  "activeContainer (handleBubbleDrop d p r st) =
    (if dt_itemId d \<noteq> [] \<and> dt_fromContainer d \<noteq> ''true'' \<and> (\<exists>rr. r = Some rr \<and> in_rect p rr)
        \<and> dt_itemId d \<notin> set (activeContainer st) \<and> length (activeContainer st) < 5
     then activeContainer st @ [dt_itemId d] else activeContainer st)"
  by (auto simp: handleBubbleDrop_def handleDragEnd_def Let_def split: option.splits)

lemma touchEndBubble_activeContainer:
  "activeContainer (touchEndBubble i over st) =
    (if isDraggingTouch st \<and> draggedItem st \<noteq> None \<and> over \<and> i \<notin> set (activeContainer st)
        \<and> length (activeContainer st) < 5
     then activeContainer st @ [i] else activeContainer st)"
  by (auto simp: touchEndBubble_def Let_def)

lemma mset_moveItem [simp]: "mset (moveItem xs i j) = mset xs"
proof (cases "i < length xs")
  case True
  then have "mset xs = mset (take i xs @ xs ! i # drop (Suc i) xs)"
    by (simp flip: id_take_nth_drop)
  with True show ?thesis by (simp add: moveItem_def)
qed (simp add: moveItem_def)

text \<open>No handler but \<open>handleDragStart\<close> sets the from-list flag.\<close>

lemma edit_step_fromContainer:
  "isDraggingFromContainer (snd (edit_step e (dt, st))) \<Longrightarrow>
   (\<exists>i. e = EvDragStart i True) \<or> isDraggingFromContainer st"
  by (cases e)
     (auto simp: handleDragStart_def handleDragEnd_def handleDragOver_def handleDragLeave_def
        handleDrop_def handleBubbleDrop_def handleRemoveFromContainer_def handleReorder_def
        touchStartBubble_def touchMoveBubble_def touchEndBubble_def Let_def
        split: if_splits option.splits)

lemma phase_activeContainer_update [simp]: "phase (st\<lparr>activeContainer := c\<rparr>) = phase st"
  by (simp add: phase_def split: option.split)

section \<open>The abstract specification and the invariant\<close>

lemma cfg_step_ac_ok: "cfg_step c c' \<Longrightarrow> ac_ok c \<Longrightarrow> ac_ok c'"
proof (induction rule: cfg_step.induct)
  case (insert_at x c k)
  then show ?case
    using set_take_subset [of 5 "js_splice_insert k x c"]
    by (auto simp: ac_ok_def)
next
  case (permute c' c)
  then have "set c' = set c" "length c' = length c" "distinct c' = distinct c"
    by (metis mset_eq_setD, metis mset_eq_length, metis mset_eq_imp_distinct_iff)
  with permute.prems show ?case by (simp add: ac_ok_def)
next
  case (remove c x)
  then show ?case
    by (auto simp: ac_ok_def intro: order_trans [OF length_filter_le])
qed (auto simp: ac_ok_def)

text \<open>Each enabled event changes the configuration by one step of the specification.\<close>

text \<open>No handler of the overlay touches the save flags.\<close>

lemma edit_step_isSaving: "isSaving (snd (edit_step e (dt, st))) = isSaving st"
  by (cases e) (simp_all add: handleDragStart_def handleDragEnd_def handleDragOver_def
      handleDragLeave_def handleDrop_def handleBubbleDrop_def handleRemoveFromContainer_def
      handleReorder_def touchStartBubble_def touchMoveBubble_def touchEndBubble_def Let_def
      split: prod.split option.split)

lemma edit_step_cfg:
  assumes inv: "edit_inv s" and en: "edit_enabled e s"
  shows "cfg_step (activeContainer (snd s)) (activeContainer (snd (edit_step e s)))"
proof -
  obtain dt st where s: "s = (dt, st)" by (cases s)
  let ?ac = "activeContainer st"
  from inv s have len: "length ?ac \<le> 5" and dtok: "dt_ok dt"
    by (auto simp: edit_inv_def ac_ok_def)
  have payload: "dt_itemId (drop_payload dt) = [] \<or> dt_itemId (drop_payload dt) \<in> set field_ids"
    using dtok by (auto simp: drop_payload_def dt_ok_def empty_transfer_def split: option.splits)
  show ?thesis
  proof (cases e)
    case (EvSlotDrop k)
    with s payload show ?thesis
      by (auto simp: handleDrop_activeContainer [OF len] intro: cfg_step.intros)
  next
    case (EvBubbleDrop p r)
    with s payload show ?thesis
      by (auto simp: handleBubbleDrop_activeContainer intro: cfg_step.intros)
  next
    case (EvRemove i)
    with s show ?thesis by (simp add: handleRemoveFromContainer_def cfg_step.remove)
  next
    case (EvReorder i j)
    with s show ?thesis by (simp add: handleReorder_def cfg_step.permute)
  next
    case (EvTouchEnd i over)
    with s en show ?thesis
      by (auto simp: touchEndBubble_activeContainer intro: cfg_step.intros)
  qed (use s in \<open>auto simp: handleDragStart_def handleDragEnd_def handleDragOver_def
         handleDragLeave_def touchStartBubble_def touchMoveBubble_def intro: cfg_step.keep\<close>)
qed

lemma edit_step_inv:
  assumes inv: "edit_inv s" and en: "edit_enabled e s"
  shows "edit_inv (edit_step e s)"
proof -
  obtain dt st where s: "s = (dt, st)" by (cases s)
  have ac: "ac_ok (activeContainer (snd (edit_step e s)))"
    using cfg_step_ac_ok [OF edit_step_cfg [OF inv en]] inv by (simp add: edit_inv_def)
  have fc: "\<not> isDraggingFromContainer (snd (edit_step e s))"
    using edit_step_fromContainer [of e dt st] inv en s by (auto simp: edit_inv_def)
  have dt: "dt_ok (fst (edit_step e s))"
    using inv en s by (cases e) (auto simp: edit_inv_def dt_ok_def handleDragStart_def)
  from ac fc dt show ?thesis by (simp add: edit_inv_def)
qed

lemma edit_reach_inv: "edit_reach s \<Longrightarrow> edit_inv s"
proof (induction rule: edit_reach.induct)
  case (open_edit c)
  then show ?case by (simp add: edit_inv_def dt_ok_def init_edit_def)
next
  case (event s e)
  from event.IH event.hyps(2) show ?case by (rule edit_step_inv)
qed

lemma edit_reach_default: "edit_reach (None, init_edit None)"
  by (rule edit_reach.open_edit)
     (simp add: init_edit_def ac_ok_def distinct_defaultFields length_defaultFields
        defaultFields_known)

section \<open>Properties of the assignment state machine\<close>

text \<open>
  C1. Invariant of spec section 3: in every session the overlay can reach, the active
  configuration has no duplicate, at most five entries, and only identifiers of the field
  catalogue.
\<close>

theorem edit_reach_config_ok:
  assumes "edit_reach s"
  shows "distinct (activeContainer (snd s)) \<and> length (activeContainer (snd s)) \<le> 5
    \<and> set (activeContainer (snd s)) \<subseteq> set field_ids"
  using edit_reach_inv [OF assms] by (simp add: edit_inv_def ac_ok_def)

theorem edit_reach_config_ok_witness:
  "length (activeContainer (snd (edit_step (EvSlotDrop 0)
      (edit_step (EvDragStart ''discount'' False) (None, init_edit None))))) \<le> 5"
proof -
  have r1: "edit_reach (edit_step (EvDragStart ''discount'' False) (None, init_edit None))"
    by (rule edit_reach.event [OF edit_reach_default])
       (simp add: init_edit_def field_ids_unfold defaultFields_def)
  have "edit_reach (edit_step (EvSlotDrop 0)
      (edit_step (EvDragStart ''discount'' False) (None, init_edit None)))"
    by (rule edit_reach.event [OF r1])
       (simp add: handleDragStart_def init_edit_def slot_rendered_def)
  from edit_reach_config_ok [OF this] show ?thesis by simp
qed

text \<open>
  C2. Refinement: every event the overlay can deliver in a reachable session changes the
  configuration by one step of the abstract specification \<^const>\<open>cfg_step\<close> (insert at a
  slot with tail eviction, append below five, remove, permute, or no change).
\<close>

theorem edit_step_refines:
  assumes "edit_reach s" and "edit_enabled e s"
  shows "cfg_step (activeContainer (snd s)) (activeContainer (snd (edit_step e s)))"
  using edit_step_cfg [OF edit_reach_inv [OF assms(1)] assms(2)] .

theorem edit_step_refines_witness:
  "cfg_step defaultFields [''bookTitle'', ''bookSubtitle'', ''discount'', ''author'', ''narrator'']"
proof -
  let ?d = "\<lparr>dt_itemId = ''discount'', dt_fromContainer = ''false''\<rparr>"
  let ?st = "(init_edit None)\<lparr>draggedItem := Some ''discount'', showPreview := True\<rparr>"
  have r: "edit_reach (Some ?d, ?st)"
    using edit_reach.event [OF edit_reach_default, of "EvDragStart ''discount'' False"]
    by (simp add: handleDragStart_def init_edit_def field_ids_unfold defaultFields_def)
  have en: "edit_enabled (EvSlotDrop 2) (Some ?d, ?st)"
    by (simp add: init_edit_def slot_rendered_def defaultFields_def)
  from edit_step_refines [OF r en] show ?thesis
    by (simp add: init_edit_def handleDrop_def handleDragEnd_def drop_payload_def
        defaultFields_def js_splice_insert_def js_pop_def Let_def)
qed

text \<open>
  C3. Bounded insertion (spec section 8): dropping a fresh field on slot \<open>k\<close> of a full
  configuration puts it at position \<open>k\<close> and evicts the last entry, never another one;
  on slot 0 the result is the new field followed by the first four old entries.
\<close>

theorem handleDrop_evicts_tail:
  assumes "length (activeContainer st) = 5" and "x \<notin> set (activeContainer st)"
    and "x \<noteq> []" and "k < 5"
  shows "activeContainer (handleDrop \<lparr>dt_itemId = x, dt_fromContainer = ''false''\<rparr> k st) =
    js_splice_insert k x (butlast (activeContainer st))"
proof -
  have "activeContainer (handleDrop \<lparr>dt_itemId = x, dt_fromContainer = ''false''\<rparr> k st) =
      take 5 (js_splice_insert k x (activeContainer st))"
    using assms by (simp add: handleDrop_activeContainer)
  with assms take_js_splice_insert_butlast [of k "activeContainer st" x] show ?thesis
    by simp
qed

theorem handleDrop_evicts_tail_witness:
  "activeContainer (handleDrop \<lparr>dt_itemId = ''discount'', dt_fromContainer = ''false''\<rparr> 0
      (init_edit None)) = [''discount'', ''bookTitle'', ''bookSubtitle'', ''author'', ''narrator'']"
  using handleDrop_evicts_tail [of "init_edit None" "''discount''" 0]
  by (simp add: init_edit_def defaultFields_def)

text \<open>
  C4. The dragging-from-list phase of spec section 4.1 is unreachable: both drag sources
  call \<open>handleDragStart\<close> without \<open>fromContainer\<close>, so the flag is never set and list
  rows are reordered only through the library's \<open>onReorder\<close>.
\<close>

theorem edit_reach_never_from_list:
  assumes "edit_reach s"
  shows "phase (snd s) \<noteq> FromList i"
  using edit_reach_inv [OF assms] by (auto simp: edit_inv_def phase_def split: option.splits)

theorem edit_reach_never_from_list_witness:
  "phase (snd (edit_step (EvDragStart ''discount'' False) (None, init_edit None)))
     \<noteq> FromList ''discount''"
proof -
  have "edit_reach (edit_step (EvDragStart ''discount'' False) (None, init_edit None))"
    by (rule edit_reach.event [OF edit_reach_default])
       (simp add: init_edit_def field_ids_unfold defaultFields_def)
  then show ?thesis by (rule edit_reach_never_from_list)
qed

text \<open>
  C6. Every terminal drag event returns to idle (spec section 4.1): a drag end, or a drop of
  this page's payload on a slot or on the mounted container, leaves no dragged item and no
  hovered slot.
\<close>

theorem terminal_events_idle:
  assumes "e = EvDragEnd \<or> ((\<exists>k. e = EvSlotDrop k) \<or> (\<exists>p r. e = EvBubbleDrop p (Some r)))
             \<and> dt = Some d \<and> dt_itemId d \<noteq> [] \<and> dt_fromContainer d \<noteq> ''true''"
  shows "phase (snd (edit_step e (dt, st))) = Idle
    \<and> draggedOverSlot (snd (edit_step e (dt, st))) = None"
  using assms
  by (auto simp: phase_def handleDragEnd_def handleDrop_def handleBubbleDrop_def drop_payload_def
      Let_def)

theorem terminal_events_idle_witness:
  "phase (snd (edit_step (EvSlotDrop 1) (Some \<lparr>dt_itemId = ''discount'', dt_fromContainer = ''false''\<rparr>,
      (init_edit None)\<lparr>draggedItem := Some ''discount'', draggedOverSlot := Some 1\<rparr>))) = Idle"
  using terminal_events_idle [of "EvSlotDrop 1"
      "Some \<lparr>dt_itemId = ''discount'', dt_fromContainer = ''false''\<rparr>"
      "\<lparr>dt_itemId = ''discount'', dt_fromContainer = ''false''\<rparr>"
      "(init_edit None)\<lparr>draggedItem := Some ''discount'', draggedOverSlot := Some 1\<rparr>"]
  by simp

text \<open>
  C7. The container and touch drops refuse a field when five are assigned, unlike the slot
  drop of C3, which evicts the tail: at five entries they leave the configuration as it is.
\<close>

theorem full_config_refuses_append:
  assumes "length (activeContainer st) = 5"
  shows "activeContainer (snd (edit_step (EvBubbleDrop p r) (dt, st))) = activeContainer st
    \<and> activeContainer (snd (edit_step (EvTouchEnd i over) (dt, st))) = activeContainer st"
  using assms by (simp add: handleBubbleDrop_activeContainer touchEndBubble_activeContainer)

theorem full_config_refuses_append_witness:
  "activeContainer (snd (edit_step (EvTouchEnd ''discount'' True)
      (None, (init_edit None)\<lparr>draggedItem := Some ''discount'', isDraggingTouch := True\<rparr>)))
    = defaultFields"
  using full_config_refuses_append [of "(init_edit None)\<lparr>draggedItem := Some ''discount'',
      isDraggingTouch := True\<rparr>"]
  by (simp add: init_edit_def length_defaultFields)

end
