(* ===== verification/Swipe.thy ===== *)
theory Swipe
  imports Catalogue
begin

text \<open>
  The swipe detector \<open>useSwipeGesture\<close> of \<open>src/src/hooks/useSwipeGesture.ts\<close>: its
  state hook (start point, latest point, a swiping flag), the three touch listeners, and
  the decision on release. A handler call \<open>handlers.onSwipeX?.()\<close> is modelled as the
  returned direction; the carousel decides what a direction does.
\<close>

section \<open>State and listeners\<close>

datatype swipe_dir = SwipeLeft | SwipeRight | SwipeUp | SwipeDown

record swipe_state =
  touchStart :: "point option"
  touchEnd :: "point option"
  swiping :: bool

definition swipe_init :: swipe_state where
  "swipe_init = \<lparr>touchStart = None, touchEnd = None, swiping = False\<rparr>"

text \<open>The default of the hook's third parameter.\<close>

definition minSwipeDistance_default :: real where
  "minSwipeDistance_default = 50"

definition handleTouchStart :: "point \<Rightarrow> swipe_state \<Rightarrow> swipe_state" where
  "handleTouchStart p st = \<lparr>touchStart = Some p, touchEnd = None, swiping = True\<rparr>"

definition handleTouchMove :: "point \<Rightarrow> swipe_state \<Rightarrow> swipe_state" where
  "handleTouchMove p prev = (if \<not> swiping prev then prev else prev\<lparr>touchEnd := Some p\<rparr>)"

text \<open>The comparison of \<open>handleTouchEnd\<close>: the dominant axis must be strictly larger than
  the other and strictly beyond the threshold.\<close>

definition swipe_decide :: "real \<Rightarrow> point \<Rightarrow> point \<Rightarrow> swipe_dir option" where
  "swipe_decide minSwipeDistance s e =
     (let deltaX = px e - px s; deltaY = py e - py s;
          absX = \<bar>deltaX\<bar>; absY = \<bar>deltaY\<bar>
      in if absX > absY \<and> absX > minSwipeDistance
         then Some (if deltaX > 0 then SwipeRight else SwipeLeft)
         else if absY > absX \<and> absY > minSwipeDistance
         then Some (if deltaY > 0 then SwipeDown else SwipeUp)
         else None)"

definition handleTouchEnd :: "real \<Rightarrow> swipe_state \<Rightarrow> swipe_dir option \<times> swipe_state" where
  "handleTouchEnd minSwipeDistance prev =
     (case (touchStart prev, touchEnd prev) of
        (Some s, Some e) \<Rightarrow> (swipe_decide minSwipeDistance s e, swipe_init)
      | _ \<Rightarrow> (None, swipe_init))"

text \<open>The hook's result \<open>swipeDirection\<close>: the displacement while both points are known.\<close>

definition swipeDirection :: "swipe_state \<Rightarrow> point option" where
  "swipeDirection st =
     (case (touchEnd st, touchStart st) of
        (Some e, Some s) \<Rightarrow> Some \<lparr>px = px e - px s, py = py e - py s\<rparr>
      | _ \<Rightarrow> None)"

section \<open>Touch sequences\<close>

datatype touch_event = TStart point | TMove point | TEnd

fun swipe_step :: "real \<Rightarrow> touch_event \<Rightarrow> swipe_state \<Rightarrow> swipe_dir option \<times> swipe_state" where
  "swipe_step d (TStart p) st = (None, handleTouchStart p st)"
| "swipe_step d (TMove p) st = (None, handleTouchMove p st)"
| "swipe_step d TEnd st = handleTouchEnd d st"

text \<open>The directions a run of touch events fires, in order.\<close>

fun swipe_run :: "real \<Rightarrow> touch_event list \<Rightarrow> swipe_state \<Rightarrow> swipe_dir list \<times> swipe_state" where
  "swipe_run d [] st = ([], st)"
| "swipe_run d (e # es) st =
     (let (r, st') = swipe_step d e st; (rs, st'') = swipe_run d es st'
      in (case r of None \<Rightarrow> rs | Some x \<Rightarrow> x # rs, st''))"

section \<open>Lemmas\<close>

lemma handleTouchEnd_resets: "snd (handleTouchEnd d st) = swipe_init"
  by (simp add: handleTouchEnd_def split: option.split)

lemma swipe_after_moves:
  "handleTouchEnd d (handleTouchMove e (handleTouchStart s st)) = (swipe_decide d s e, swipe_init)"
  by (simp add: handleTouchEnd_def handleTouchMove_def handleTouchStart_def)

lemma swipe_moves:
  assumes "swiping st"
  shows "swipe_run d (map TMove ps) st =
    ([], if ps = [] then st else st\<lparr>touchEnd := Some (last ps)\<rparr>)"
  using assms
proof (induction ps arbitrary: st)
  case Nil
  then show ?case by simp
next
  case (Cons q qs)
  have "swiping (st\<lparr>touchEnd := Some q\<rparr>)" using Cons.prems by simp
  from Cons.IH [OF this] Cons.prems show ?case
    by (simp add: handleTouchMove_def)
qed

section \<open>Properties of the detector\<close>

text \<open>
  C8. A swipe of exactly the threshold distance (50 pixels, the default) along a pure
  horizontal line fires no event: the code compares with \<open>>\<close>, so the threshold itself
  is not enough (spec section 8 says such a swipe fires left or right).
\<close>

theorem swipe_exact_threshold_no_event:
  assumes "\<bar>px e - px s\<bar> = minSwipeDistance_default" and "py e = py s"
  shows "fst (handleTouchEnd minSwipeDistance_default
            (handleTouchMove e (handleTouchStart s st))) = None"
  using assms by (simp add: swipe_after_moves swipe_decide_def Let_def)

theorem swipe_exact_threshold_no_event_witness:
  "fst (handleTouchEnd minSwipeDistance_default
     (handleTouchMove \<lparr>px = 150, py = 40\<rparr> (handleTouchStart \<lparr>px = 100, py = 40\<rparr> swipe_init)))
   = None"
  using swipe_exact_threshold_no_event [of "\<lparr>px = 150, py = 40\<rparr>" "\<lparr>px = 100, py = 40\<rparr>"]
  by (simp add: minSwipeDistance_default_def)

text \<open>
  C10. The decision, direction by direction: a gesture fires left (right, up, down) exactly
  when the displacement along that direction is strictly larger than the magnitude on the
  other axis and strictly larger than the threshold.
\<close>

theorem swipe_decide_cases:
  "(swipe_decide d s e = Some SwipeRight \<longleftrightarrow>
      px e - px s > \<bar>py e - py s\<bar> \<and> px e - px s > d)
   \<and> (swipe_decide d s e = Some SwipeLeft \<longleftrightarrow>
      px s - px e > \<bar>py e - py s\<bar> \<and> px s - px e > d)
   \<and> (swipe_decide d s e = Some SwipeDown \<longleftrightarrow>
      py e - py s > \<bar>px e - px s\<bar> \<and> py e - py s > d)
   \<and> (swipe_decide d s e = Some SwipeUp \<longleftrightarrow>
      py s - py e > \<bar>px e - px s\<bar> \<and> py s - py e > d)"
  by (auto simp: swipe_decide_def Let_def abs_if split: if_splits)

text \<open>
  C11. One gesture, at most one event (spec section 4.4): a touch start, any number of
  moves and the release fire nothing for a tap without movement and otherwise exactly the
  decision between the start point and the last move, and the detector is back in its
  initial state.
\<close>

theorem swipe_gesture_single_event:
  "swipe_run d (TStart s # map TMove ps @ [TEnd]) st =
     (if ps = [] then [] else (case swipe_decide d s (last ps) of None \<Rightarrow> [] | Some x \<Rightarrow> [x]),
      swipe_init)"
proof -
  let ?st = "handleTouchStart s st"
  have sw: "swiping ?st" by (simp add: handleTouchStart_def)
  have run_app: "\<And>es fs t. swipe_run d (es @ fs) t =
      (let (rs, t') = swipe_run d es t; (qs, t'') = swipe_run d fs t' in (rs @ qs, t''))"
  proof -
    fix es fs t
    show "swipe_run d (es @ fs) t =
      (let (rs, t') = swipe_run d es t; (qs, t'') = swipe_run d fs t' in (rs @ qs, t''))"
      by (induction es arbitrary: t) (auto simp: Let_def split: prod.split option.split)
  qed
  show ?thesis
    using swipe_moves [OF sw, of d ps]
    by (simp add: run_app handleTouchEnd_def handleTouchStart_def Let_def
        split: option.split)
qed

end
