(* ===== verification/Carousel.thy ===== *)
theory Carousel
  imports Swipe
begin

text \<open>
  The carousel controller \<open>src/src/components/Carousel.tsx\<close>: its state hooks, the
  navigation handlers (buttons, arrow keys, swipes), the window of rendered neighbours
  with their visual falloff, and the rendering of the centre card's fields with the
  pairing rule. The book list (\<open>data/books\<close>) is not part of the repository; only its
  length \<open>n\<close> enters the model.
\<close>

section \<open>State\<close>

record carousel_state =
  currentIndex :: int
  isEditMode :: bool
  direction :: int
  loadedImages :: "string set"
  activeInfoFields :: "draggable_info list"

definition carousel_init :: carousel_state where
  "carousel_init =
     \<lparr>currentIndex = 0, isEditMode = False, direction = 0, loadedImages = {},
      activeInfoFields = [mk_info ''bookTitle'' ''Title'' ''text'' 0 0,
        mk_info ''bookSubtitle'' ''Subtitle'' ''text'' 0 0,
        mk_info ''author'' ''Author'' ''text'' 0 0,
        mk_info ''narrator'' ''Narrator'' ''text'' 0 0,
        mk_info ''ratingStar'' ''Rating Stars'' ''number'' 0 0]\<rparr>"

section \<open>Navigation\<close>

definition nextSlide :: "nat \<Rightarrow> carousel_state \<Rightarrow> carousel_state" where
  "nextSlide n st = st\<lparr>direction := 1, currentIndex := js_rem (currentIndex st + 1) (int n)\<rparr>"

definition prevSlide :: "nat \<Rightarrow> carousel_state \<Rightarrow> carousel_state" where
  "prevSlide n st =
     st\<lparr>direction := -1, currentIndex := js_rem (currentIndex st - 1 + int n) (int n)\<rparr>"

text \<open>The window listener registered once: two independent \<open>if\<close>s on the key.\<close>

definition handleKeyPress :: "nat \<Rightarrow> string \<Rightarrow> carousel_state \<Rightarrow> carousel_state" where
  "handleKeyPress n key st =
     (let st1 = (if key = ''ArrowLeft'' then prevSlide n st else st)
      in if key = ''ArrowRight'' then nextSlide n st1 else st1)"

text \<open>\<open>useSwipeGesture(carouselRef, {onSwipeLeft: nextSlide, onSwipeRight: prevSlide})\<close>;
  up and down have no handler.\<close>

definition handleSwipe :: "nat \<Rightarrow> swipe_dir option \<Rightarrow> carousel_state \<Rightarrow> carousel_state" where
  "handleSwipe n d st =
     (case d of Some SwipeLeft \<Rightarrow> nextSlide n st | Some SwipeRight \<Rightarrow> prevSlide n st | _ \<Rightarrow> st)"

definition handleImageLoad :: "string \<Rightarrow> carousel_state \<Rightarrow> carousel_state" where
  "handleImageLoad title st = st\<lparr>loadedImages := insert title (loadedImages st)\<rparr>"

definition handleSaveConfig :: "draggable_info list \<Rightarrow> carousel_state \<Rightarrow> carousel_state" where
  "handleSaveConfig config st = st\<lparr>activeInfoFields := config\<rparr>"

definition openEditMode :: "carousel_state \<Rightarrow> carousel_state" where
  "openEditMode st = st\<lparr>isEditMode := True\<rparr>"

definition closeEditMode :: "carousel_state \<Rightarrow> carousel_state" where
  "closeEditMode st = st\<lparr>isEditMode := False\<rparr>"

datatype nav_event = NavNext | NavPrev | NavKey string | NavSwipe "swipe_dir option"

fun nav_step :: "nat \<Rightarrow> nav_event \<Rightarrow> carousel_state \<Rightarrow> carousel_state" where
  "nav_step n NavNext st = nextSlide n st"
| "nav_step n NavPrev st = prevSlide n st"
| "nav_step n (NavKey k) st = handleKeyPress n k st"
| "nav_step n (NavSwipe d) st = handleSwipe n d st"

definition nav_run :: "nat \<Rightarrow> nav_event list \<Rightarrow> carousel_state \<Rightarrow> carousel_state" where
  "nav_run n es st = fold (nav_step n) es st"

section \<open>The window of neighbours\<close>

definition window_offsets :: "bool \<Rightarrow> int list" where
  "window_offsets isMobile = (if isMobile then [-1, 0, 1] else [-2, -1, 0, 1, 2])"

text \<open>\<open>visibleBooks\<close>: for each offset, the index \<open>(currentIndex + offset + n) % n\<close>
  of the book rendered there (the code spreads \<open>books[index]\<close> into the element).\<close>

definition visibleBooks :: "bool \<Rightarrow> nat \<Rightarrow> carousel_state \<Rightarrow> (int \<times> int) list" where
  "visibleBooks isMobile n st =
     map (\<lambda>offset. (js_rem (currentIndex st + offset + int n) (int n), offset))
       (window_offsets isMobile)"

text \<open>The \<open>animate\<close> target of a book at \<open>offset\<close>.\<close>

definition card_scale :: "int \<Rightarrow> real" where
  "card_scale offset = (if offset = 0 then 1 else 0.85 - \<bar>of_int offset\<bar> * 0.08)"

definition card_opacity :: "int \<Rightarrow> real" where
  "card_opacity offset = (if offset = 0 then 1 else 0.7 - \<bar>of_int offset\<bar> * 0.15)"

definition card_x :: "bool \<Rightarrow> int \<Rightarrow> real" where
  "card_x isMobile offset = of_int offset * (if isMobile then 180 else 280)"

definition card_blur :: "int \<Rightarrow> real" where
  "card_blur offset = (if offset = 0 then 0 else \<bar>of_int offset\<bar> * 1.5)"

section \<open>The centre card\<close>

text \<open>A rendered row: a field alone, or a primary field with its paired secondary field
  when that one is configured too.\<close>

datatype card_row = FieldRow field_id | PairRow field_id "field_id option"

text \<open>The body of \<open>activeInfoFields.map(field => ...)\<close>; \<open>None\<close> is a \<open>null\<close>
  child, which React drops. \<open>hasDiscount\<close> is computed but never read.\<close>

definition render_field :: "draggable_info list \<Rightarrow> draggable_info \<Rightarrow> card_row option" where
  "render_field infoFields field =
     (if info_id field = ''discount'' then
        (let priceField = find_draggable infoFields ''bookCashPrice'';
             isDiscountProcessed =
               js_findIndex (\<lambda>f. info_id f = ''discount'') infoFields
                 < js_findIndex (\<lambda>f. info_id f = info_id field) infoFields
         in if \<not> isDiscountProcessed
            then Some (PairRow (info_id field) (map_option info_id priceField)) else None)
      else if info_id field = ''bookCashPrice'' then None
      else if info_id field = ''ratingStar'' then
        Some (PairRow (info_id field)
          (map_option info_id (find_draggable infoFields ''numberOfReviews'')))
      else if info_id field = ''numberOfReviews'' then None
      else Some (FieldRow (info_id field)))"

definition renderCenterFields :: "draggable_info list \<Rightarrow> card_row list" where
  "renderCenterFields infoFields = List.map_filter (render_field infoFields) infoFields"

text \<open>
  The pairing policy as the lookup table spec section 9 asks for: each primary field names
  its secondary field, a secondary field never has a row of its own, and a primary field's
  row carries its secondary exactly when that one is configured.
\<close>

definition paired_secondary :: "field_id \<Rightarrow> field_id option" where
  "paired_secondary i =
     (if i = ''discount'' then Some ''bookCashPrice''
      else if i = ''ratingStar'' then Some ''numberOfReviews'' else None)"

definition is_secondary :: "field_id \<Rightarrow> bool" where
  "is_secondary i \<longleftrightarrow> i = ''bookCashPrice'' \<or> i = ''numberOfReviews''"

definition spec_card_rows :: "field_id list \<Rightarrow> card_row list" where
  "spec_card_rows ids =
     concat (map (\<lambda>i. if is_secondary i then []
                      else (case paired_secondary i of
                              None \<Rightarrow> [FieldRow i]
                            | Some s \<Rightarrow> [PairRow i (if s \<in> set ids then Some s else None)]))
                 ids)"

section \<open>Lemmas\<close>

lemma isEditMode_simps [simp]:
  "\<not> isEditMode carousel_init" "isEditMode (openEditMode st)" "\<not> isEditMode (closeEditMode st)"
  by (simp_all add: carousel_init_def openEditMode_def closeEditMode_def)

lemma nextSlide_index:
  "0 \<le> currentIndex st \<Longrightarrow> 0 < n \<Longrightarrow>
   currentIndex (nextSlide n st) = (currentIndex st + 1) mod int n"
  by (simp add: nextSlide_def js_rem_nonneg)

lemma prevSlide_index:
  assumes "0 \<le> currentIndex st" and "0 < n"
  shows "currentIndex (prevSlide n st) = (currentIndex st - 1) mod int n"
proof -
  have "0 \<le> currentIndex st - 1 + int n" using assms by simp
  with assms have "currentIndex (prevSlide n st) = (currentIndex st - 1 + int n) mod int n"
    by (simp add: prevSlide_def js_rem_nonneg)
  then show ?thesis by simp
qed

definition index_ok :: "nat \<Rightarrow> carousel_state \<Rightarrow> bool" where
  "index_ok n st \<longleftrightarrow> 0 \<le> currentIndex st \<and> currentIndex st < int n"

lemma nav_step_index_ok: "0 < n \<Longrightarrow> index_ok n st \<Longrightarrow> index_ok n (nav_step n e st)"
proof -
  assume n: "0 < n" and ok: "index_ok n st"
  have nx: "\<And>st. index_ok n st \<Longrightarrow> index_ok n (nextSlide n st)"
    using n by (simp add: index_ok_def nextSlide_index)
  have pv: "\<And>st. index_ok n st \<Longrightarrow> index_ok n (prevSlide n st)"
    using n by (simp add: index_ok_def prevSlide_index)
  show ?thesis
  proof (cases e)
    case (NavKey k)
    with ok nx pv show ?thesis by (simp add: handleKeyPress_def Let_def)
  next
    case (NavSwipe d)
    with ok nx pv show ?thesis
      by (simp add: handleSwipe_def split: option.split swipe_dir.split)
  qed (use ok nx pv in simp_all)
qed

lemma nav_run_index_ok: "0 < n \<Longrightarrow> index_ok n st \<Longrightarrow> index_ok n (nav_run n es st)"
  unfolding nav_run_def
  by (induction es arbitrary: st) (simp_all add: nav_step_index_ok)

text \<open>Every window index is the centre index shifted by the offset, modulo the book count;
  with a single book, the truncating remainder of \<open>-1\<close> is still \<open>0\<close>.\<close>

lemma window_index:
  assumes n: "0 < n" and c: "0 \<le> c" "c < int n" and off: "off \<in> set (window_offsets m)"
  shows "js_rem (c + off + int n) (int n) = (c + off) mod int n"
proof (cases "n = 1")
  case True
  with c have "c = 0" by simp
  with True show ?thesis by (simp add: js_rem_def)
next
  case False
  with n have "2 \<le> int n" by simp
  moreover have "-2 \<le> off" using off by (auto simp: window_offsets_def split: if_splits)
  ultimately have "0 \<le> c + off + int n" using c by simp
  with n show ?thesis by (simp add: js_rem_nonneg)
qed

lemma mod_shift_neq:
  fixes a :: int
  assumes "i \<noteq> j" and "\<bar>i - j\<bar> < n"
  shows "(a + i) mod n \<noteq> (a + j) mod n"
proof
  assume "(a + i) mod n = (a + j) mod n"
  then have "n dvd (a + i) - (a + j)" by (simp add: mod_eq_dvd_iff)
  then have "n dvd i - j" by simp
  moreover have "i - j \<noteq> 0" using assms(1) by simp
  ultimately have "\<bar>n\<bar> \<le> \<bar>i - j\<bar>" by (simp add: dvd_imp_le_int)
  with assms(2) show False by simp
qed

lemma window_offsets_props:
  "distinct (window_offsets m) \<and> (\<forall>i\<in>set (window_offsets m). \<forall>j\<in>set (window_offsets m).
     \<bar>i - j\<bar> < int (length (window_offsets m)))"
  by (simp add: window_offsets_def)

lemma distinct_card_le:
  fixes xs :: "int list"
  assumes "distinct xs" and "set xs \<subseteq> {0..<k}"
  shows "length xs \<le> nat k"
proof -
  have "length xs = card (set xs)" using assms(1) by (simp add: distinct_card)
  also have "\<dots> \<le> card {0..<k}" using assms(2) by (rule card_mono [rotated]) simp
  finally show ?thesis by simp
qed

lemma is_secondary_paired: "is_secondary i \<Longrightarrow> paired_secondary i = None"
  by (auto simp: is_secondary_def paired_secondary_def)

lemma map_option_find_draggable:
  "map_option info_id (find_draggable ds x) = (if x \<in> set (map info_id ds) then Some x else None)"
  by (cases "find_draggable ds x") (auto simp: find_draggable_None_iff dest: find_draggable_Some)

lemma render_field_table:
  "render_field ds f =
     (if is_secondary (info_id f) then None
      else (case paired_secondary (info_id f) of
              None \<Rightarrow> Some (FieldRow (info_id f))
            | Some s \<Rightarrow> Some (PairRow (info_id f) (if s \<in> set (map info_id ds) then Some s else None))))"
  by (simp add: render_field_def is_secondary_def paired_secondary_def map_option_find_draggable
      Let_def)

lemma map_filter_concat:
  "List.map_filter g xs = concat (map (\<lambda>x. case g x of None \<Rightarrow> [] | Some r \<Rightarrow> [r]) xs)"
  by (induction xs) (auto simp: List.map_filter_simps split: option.split)

lemma visibleBooks_fst:
  assumes "0 < n" and "0 \<le> currentIndex st" and "currentIndex st < int n"
  shows "map fst (visibleBooks m n st) =
    map (\<lambda>off. (currentIndex st + off) mod int n) (window_offsets m)"
  using window_index [OF assms] by (simp add: visibleBooks_def)

lemma set_renderCenterFields:
  "set (renderCenterFields ds) = {r. \<exists>x\<in>set ds. render_field ds x = Some r}"
  by (auto simp: renderCenterFields_def map_filter_concat split: option.splits)

lemma render_field_FieldRow:
  "render_field ds x = Some (FieldRow i) \<longleftrightarrow>
     info_id x = i \<and> \<not> is_secondary i \<and> paired_secondary i = None"
  by (auto simp: render_field_table split: option.splits)

lemma render_field_PairRow:
  "render_field ds x = Some (PairRow i so) \<longleftrightarrow>
     info_id x = i \<and> \<not> is_secondary i
     \<and> (\<exists>s. paired_secondary i = Some s \<and> so = (if s \<in> set (map info_id ds) then Some s else None))"
  by (auto simp: render_field_table split: option.splits)

section \<open>Properties of the carousel\<close>

text \<open>
  C12. Navigation wraps (spec section 8): with \<open>n > 0\<close> books and the centre index in
  range, \<open>nextSlide\<close> from the last index returns to 0, \<open>prevSlide\<close> from 0 goes to the
  last index, otherwise they step by one, and each records its direction.
\<close>

theorem carousel_wrap:
  assumes "0 < n" and "0 \<le> currentIndex st" and "currentIndex st < int n"
  shows "currentIndex (nextSlide n st) =
      (if currentIndex st = int n - 1 then 0 else currentIndex st + 1)
    \<and> currentIndex (prevSlide n st) =
      (if currentIndex st = 0 then int n - 1 else currentIndex st - 1)
    \<and> direction (nextSlide n st) = 1 \<and> direction (prevSlide n st) = -1"
proof -
  have nx: "(currentIndex st + 1) mod int n =
      (if currentIndex st = int n - 1 then 0 else currentIndex st + 1)"
    using assms by auto
  have pv: "(currentIndex st - 1) mod int n =
      (if currentIndex st = 0 then int n - 1 else currentIndex st - 1)"
    using assms by (auto simp: zmod_minus1)
  from nx pv assms show ?thesis
    by (simp add: nextSlide_index prevSlide_index, simp add: nextSlide_def prevSlide_def)
qed

theorem carousel_wrap_witness:
  "currentIndex (nextSlide 4 (carousel_init\<lparr>currentIndex := 3\<rparr>)) = 0
   \<and> currentIndex (prevSlide 4 carousel_init) = 3"
  using carousel_wrap [of 4 "carousel_init\<lparr>currentIndex := 3\<rparr>"] carousel_wrap [of 4 carousel_init]
  by (simp add: carousel_init_def)

text \<open>
  C14. The rendered window: its indices are the centre index shifted by each offset modulo
  the book count, all of them valid, and the centre book sits at offset 0.
\<close>

theorem visibleBooks_indices:
  assumes "0 < n" and "0 \<le> currentIndex st" and "currentIndex st < int n"
  shows "map fst (visibleBooks m n st) =
      map (\<lambda>off. (currentIndex st + off) mod int n) (window_offsets m)
    \<and> (\<forall>i\<in>set (map fst (visibleBooks m n st)). 0 \<le> i \<and> i < int n)
    \<and> (currentIndex st, 0) \<in> set (visibleBooks m n st)"
proof -
  have c: "(currentIndex st, 0) \<in> set (visibleBooks m n st)"
    using window_index [OF assms, of 0 m] assms
    by (auto simp: visibleBooks_def window_offsets_def)
  show ?thesis using visibleBooks_fst [OF assms] assms c by auto
qed

theorem visibleBooks_indices_witness:
  "(0, 0) \<in> set (visibleBooks False 7 carousel_init)"
  using visibleBooks_indices [of 7 carousel_init False] by (simp add: carousel_init_def)

text \<open>
  C15. The window shows distinct books exactly when there are at least as many books as
  window positions (five on wide screens, three on narrow ones); with fewer books the same
  book is rendered twice, under the same React key.
\<close>

theorem visibleBooks_distinct_iff:
  assumes "0 < n" and "0 \<le> currentIndex st" and "currentIndex st < int n"
  shows "distinct (map fst (visibleBooks m n st)) \<longleftrightarrow> length (window_offsets m) \<le> n"
proof
  assume d: "distinct (map fst (visibleBooks m n st))"
  have "set (map fst (visibleBooks m n st)) \<subseteq> {0..<int n}"
    using visibleBooks_fst [OF assms] assms by auto
  from distinct_card_le [OF d this] show "length (window_offsets m) \<le> n"
    by (simp add: visibleBooks_def)
next
  assume len: "length (window_offsets m) \<le> n"
  have "inj_on (\<lambda>off. (currentIndex st + off) mod int n) (set (window_offsets m))"
    using window_offsets_props [of m] len
    by (intro inj_onI) (metis mod_shift_neq of_nat_mono order_less_le_trans)
  then show "distinct (map fst (visibleBooks m n st))"
    using visibleBooks_fst [OF assms] window_offsets_props [of m] by (simp add: distinct_map)
qed

theorem visibleBooks_distinct_iff_witness:
  "\<not> distinct (map fst (visibleBooks False 3 carousel_init))
   \<and> distinct (map fst (visibleBooks True 3 carousel_init))"
  using visibleBooks_distinct_iff [of 3 carousel_init False]
    visibleBooks_distinct_iff [of 3 carousel_init True]
  by (simp add: carousel_init_def window_offsets_def)

text \<open>
  C16. Equivalence with the pairing table (spec section 9): the centre card's rows, as the
  code computes them with its inline conditions, are exactly the rows the lookup table of
  paired secondary fields prescribes. In particular the \<open>isDiscountProcessed\<close> test of
  the code never holds.
\<close>

theorem renderCenterFields_eq_spec: "renderCenterFields ds = spec_card_rows (map info_id ds)"
proof -
  have "\<And>x. (case render_field ds x of None \<Rightarrow> [] | Some r \<Rightarrow> [r])
     = (if is_secondary (info_id x) then []
        else (case paired_secondary (info_id x) of
                None \<Rightarrow> [FieldRow (info_id x)]
              | Some s \<Rightarrow> [PairRow (info_id x) (if s \<in> set (map info_id ds) then Some s else None)]))"
    by (simp add: render_field_table split: option.split)
  then show ?thesis
    by (simp add: renderCenterFields_def spec_card_rows_def map_filter_concat comp_def)
qed

end
