(* ===== verification/AppModel.thy ===== *)
theory AppModel
  imports Assignment Carousel "HOL-Library.While_Combinator"
begin

text \<open>
  The composition of the carousel (\<open>Carousel.tsx\<close>) and the edit overlay
  (\<open>EditMode/index.tsx\<close>) with the save flow of \<open>handleSaveConfiguration\<close>. The overlay
  is mounted while \<open>isEditMode\<close> holds, with \<open>currentConfig = activeInfoFields\<close>; each
  mount is a new React instance, numbered here so that a callback of an unmounted instance
  can be told apart from the live one. The save handler's two suspensions (the awaited
  400 ms promise and the 600 ms timeout) are pending continuations in a list of timers;
  which pending timer fires next is left open, since the due times of two saves can
  interleave. A continuation closes over the \<open>activeContainer\<close> of the render in which
  Save was clicked, as the JavaScript closure does.
\<close>

section \<open>State and events\<close>

datatype pending =
    SaveResume nat "field_id list"
  | SaveCommit nat "draggable_info option list"

record app_state =
  car :: carousel_state
  overlay :: "(nat \<times> edit_session) option"
  instances :: nat
  timers :: "pending list"
  crashed :: bool

definition app_init :: app_state where
  "app_init = \<lparr>car = carousel_init, overlay = None, instances = 0, timers = [], crashed = False\<rparr>"

text \<open>\<open>activeContainer.map(id => draggables.find(d => d.id === id)!)\<close>: the non-null
  assertion does not check, so an unknown identifier leaves \<open>undefined\<close> (\<open>None\<close>) in
  the list.\<close>

definition save_lookup :: "field_id list \<Rightarrow> draggable_info option list" where
  "save_lookup ac = map (find_draggable initialDraggables) ac"

datatype app_event =
    AEdit edit_event
  | AEditClick
  | ACloseClick
  | ASaveClick
  | ATimer nat
  | ANav nav_event
  | AImageLoad string

text \<open>A state update of one overlay instance; a setter of an unmounted instance does
  nothing.\<close>

definition update_instance :: "nat \<Rightarrow> (edit_state \<Rightarrow> edit_state) \<Rightarrow> app_state \<Rightarrow> app_state" where
  "update_instance k f a =
     (case overlay a of
        Some (k', (dt, st)) \<Rightarrow> if k' = k then a\<lparr>overlay := Some (k', (dt, f st))\<rparr> else a
      | None \<Rightarrow> a)"

text \<open>Save clicked on the mounted instance: \<open>setIsSaving(true)\<close>, then the continuation
  after the 400 ms promise, holding the clicked render's \<open>activeContainer\<close>.\<close>

definition saveClick :: "app_state \<Rightarrow> app_state" where
  "saveClick a =
     (case overlay a of
        Some (k, (dt, st)) \<Rightarrow>
          a\<lparr>overlay := Some (k, (dt, st\<lparr>isSaving := True\<rparr>)),
            timers := timers a @ [SaveResume k (activeContainer st)]\<rparr>
      | None \<Rightarrow> a)"

text \<open>The continuation of one pending timer: after the promise, compute the configuration,
  \<open>setShowSuccess(true)\<close> and schedule the 600 ms timeout; in the timeout,
  \<open>onSave(config)\<close> (\<open>handleSaveConfig\<close> of the carousel; an \<open>undefined\<close> entry makes
  the next render of the centre card throw) and \<open>onClose()\<close>, which unmounts whatever
  overlay is mounted.\<close>

fun fire :: "pending \<Rightarrow> app_state \<Rightarrow> app_state" where
  "fire (SaveResume k snapshot) a =
     (let a' = update_instance k (\<lambda>st. st\<lparr>showSuccess := True\<rparr>) a
      in a'\<lparr>timers := timers a' @ [SaveCommit k (save_lookup snapshot)]\<rparr>)"
| "fire (SaveCommit k config) a =
     (let a' = (case those config of
                  Some cfg \<Rightarrow> a\<lparr>car := handleSaveConfig cfg (car a)\<rparr>
                | None \<Rightarrow> a\<lparr>crashed := True\<rparr>)
      in a'\<lparr>car := closeEditMode (car a'), overlay := None\<rparr>)"

fun app_step :: "nat \<Rightarrow> app_event \<Rightarrow> app_state \<Rightarrow> app_state" where
  "app_step n (AEdit e) a =
     (case overlay a of Some (k, s) \<Rightarrow> a\<lparr>overlay := Some (k, edit_step e s)\<rparr> | None \<Rightarrow> a)"
| "app_step n AEditClick a =
     (if isEditMode (car a) then a
      else a\<lparr>car := openEditMode (car a),
             overlay := Some (instances a, (None, init_edit (Some (activeInfoFields (car a))))),
             instances := Suc (instances a)\<rparr>)"
| "app_step n ACloseClick a = a\<lparr>car := closeEditMode (car a), overlay := None\<rparr>"
| "app_step n ASaveClick a = saveClick a"
| "app_step n (ATimer i) a =
     (if i < length (timers a)
      then fire (timers a ! i) (a\<lparr>timers := take i (timers a) @ drop (Suc i) (timers a)\<rparr>)
      else a)"
| "app_step n (ANav e) a = a\<lparr>car := nav_step n e (car a)\<rparr>"
| "app_step n (AImageLoad t) a = a\<lparr>car := handleImageLoad t (car a)\<rparr>"

text \<open>
  Which events can happen: overlay events and its buttons only while it is mounted (Save
  is disabled while \<open>isSaving\<close>), a timer only while pending. The overlay covers the
  page for the pointer, but nothing traps the focus: the carousel's Edit and arrow
  buttons stay reachable by the keyboard behind it, and the window's key listener stays
  registered; only the swipe area, which listens to touches on the carousel itself, is
  out of reach while the overlay is mounted. A click on Edit in edit mode sets
  \<open>isEditMode\<close> to the value it has, so React keeps the mounted overlay.
\<close>

fun nav_by_swipe :: "nav_event \<Rightarrow> bool" where
  "nav_by_swipe (NavSwipe d) = True"
| "nav_by_swipe e = False"

fun app_enabled :: "app_event \<Rightarrow> app_state \<Rightarrow> bool" where
  "app_enabled (AEdit e) a =
     (case overlay a of Some (k, s) \<Rightarrow> edit_enabled e s | None \<Rightarrow> False)"
| "app_enabled AEditClick a = True"
| "app_enabled ACloseClick a = (overlay a \<noteq> None)"
| "app_enabled ASaveClick a =
     (case overlay a of Some (k, (dt, st)) \<Rightarrow> \<not> isSaving st | None \<Rightarrow> False)"
| "app_enabled (ATimer i) a = (i < length (timers a))"
| "app_enabled (ANav e) a = (overlay a = None \<or> \<not> nav_by_swipe e)"
| "app_enabled (AImageLoad t) a = True"

inductive app_reach :: "nat \<Rightarrow> app_state \<Rightarrow> bool" for n :: nat where
  start: "app_reach n app_init"
| step: "app_reach n a \<Longrightarrow> app_enabled e a \<Longrightarrow> app_reach n (app_step n e a)"

definition app_run :: "nat \<Rightarrow> app_event list \<Rightarrow> app_state \<Rightarrow> app_state" where
  "app_run n es a = fold (app_step n) es a"

text \<open>The book the mounted overlay edits: \<open>book={books[currentIndex]}\<close>, read in
  every render of the carousel, for a book list \<open>books\<close>.\<close>

definition edit_book :: "'b list \<Rightarrow> app_state \<Rightarrow> 'b option" where
  "edit_book books a =
     (case overlay a of Some s \<Rightarrow> Some (books ! nat (currentIndex (car a))) | None \<Rightarrow> None)"

fun app_trace_ok :: "nat \<Rightarrow> app_event list \<Rightarrow> app_state \<Rightarrow> bool" where
  "app_trace_ok n [] a = True"
| "app_trace_ok n (e # es) a = (app_enabled e a \<and> app_trace_ok n es (app_step n e a))"

section \<open>The invariant\<close>

fun pending_ok :: "pending \<Rightarrow> bool" where
  "pending_ok (SaveResume k snapshot) = ac_ok snapshot"
| "pending_ok (SaveCommit k config) =
     (\<exists>cfg. those config = Some cfg \<and> ac_ok (map info_id cfg))"

fun overlay_ok :: "(nat \<times> edit_session) option \<Rightarrow> bool" where
  "overlay_ok None = True"
| "overlay_ok (Some (k, s)) = edit_inv s"

definition app_inv :: "nat \<Rightarrow> app_state \<Rightarrow> bool" where
  "app_inv n a \<longleftrightarrow>
     \<not> crashed a
     \<and> ac_ok (map info_id (activeInfoFields (car a)))
     \<and> (isEditMode (car a) \<longleftrightarrow> overlay a \<noteq> None)
     \<and> overlay_ok (overlay a)
     \<and> (\<forall>p\<in>set (timers a). pending_ok p)
     \<and> 0 \<le> currentIndex (car a) \<and> currentIndex (car a) < int n"

text \<open>The instance a pending timer belongs to, and the invariant of the save flow: no
  instance has two saves in flight, timers belong to instances already created, and the
  mounted instance with a save in flight is saving (its Save button disabled).\<close>

fun pending_instance :: "pending \<Rightarrow> nat" where
  "pending_instance (SaveResume k snapshot) = k"
| "pending_instance (SaveCommit k config) = k"

definition save_inv :: "app_state \<Rightarrow> bool" where
  "save_inv a \<longleftrightarrow>
     distinct (map pending_instance (timers a))
     \<and> list_all (\<lambda>p. pending_instance p < instances a) (timers a)
     \<and> (case overlay a of
          Some (k, (dt, st)) \<Rightarrow>
            k < instances a \<and> (k \<in> set (map pending_instance (timers a)) \<longrightarrow> isSaving st)
        | None \<Rightarrow> True)"

text \<open>What one save of instance \<open>k\<close> clicked on the snapshot \<open>snap\<close> has left
  pending: its timers carry that snapshot, and the instance, while mounted, stays saving.\<close>

definition snap_inv :: "nat \<Rightarrow> field_id list \<Rightarrow> app_state \<Rightarrow> bool" where
  "snap_inv k snap a \<longleftrightarrow>
     save_inv a \<and> k < instances a
     \<and> list_all (\<lambda>p. pending_instance p = k \<longrightarrow>
           p = SaveResume k snap \<or> p = SaveCommit k (save_lookup snap)) (timers a)
     \<and> (case overlay a of Some (k', (dt, st)) \<Rightarrow> k' = k \<longrightarrow> isSaving st | None \<Rightarrow> True)"

section \<open>Lemmas\<close>

text \<open>The lookup of a save finds a descriptor for every known identifier, in order.\<close>

lemma save_lookup_known:
  "set ac \<subseteq> set field_ids \<Longrightarrow>
   \<exists>cfg. those (save_lookup ac) = Some cfg \<and> map info_id cfg = ac \<and> set cfg \<subseteq> set initialDraggables"
proof (induction ac)
  case Nil
  then show ?case by (simp add: save_lookup_def)
next
  case (Cons x xs)
  then obtain cfg where cfg: "those (save_lookup xs) = Some cfg" "map info_id cfg = xs"
    "set cfg \<subseteq> set initialDraggables" by auto
  from Cons.prems obtain d where d: "find_draggable initialDraggables x = Some d" "info_id d = x"
    using find_draggable_known by auto
  then have "d \<in> set initialDraggables" by (auto dest: find_draggable_Some)
  with cfg d show ?case by (simp add: save_lookup_def)
qed

lemma update_instance_simps:
  "car (update_instance k f a) = car a" "timers (update_instance k f a) = timers a"
  "crashed (update_instance k f a) = crashed a" "instances (update_instance k f a) = instances a"
  by (simp_all add: update_instance_def split: option.split prod.split)

lemma app_inv_overlay: "app_inv n a \<Longrightarrow> overlay a = Some (k, s) \<Longrightarrow> edit_inv s"
  by (simp add: app_inv_def)

lemma pending_ok_set_remove:
  "\<forall>p\<in>set ps. pending_ok p \<Longrightarrow> \<forall>p\<in>set (take i ps @ drop (Suc i) ps). pending_ok p"
  by (auto dest: in_set_takeD in_set_dropD)

lemma update_instance_overlay_ok:
  assumes "overlay_ok (overlay a)"
    and "\<And>st. activeContainer (f st) = activeContainer st"
    and "\<And>st. isDraggingFromContainer (f st) = isDraggingFromContainer st"
  shows "overlay_ok (overlay (update_instance k f a))"
  using assms by (auto simp: update_instance_def edit_inv_def split: option.split)

lemma update_instance_mounted:
  "overlay (update_instance k f a) = None \<longleftrightarrow> overlay a = None"
  by (simp add: update_instance_def split: option.split)

lemma fire_inv:
  assumes inv: "app_inv n a" and p: "pending_ok p"
  shows "app_inv n (fire p a)"
proof (cases p)
  case (SaveResume k snapshot)
  then have snap: "ac_ok snapshot" using p by simp
  obtain cfg where "those (save_lookup snapshot) = Some cfg" "map info_id cfg = snapshot"
    using save_lookup_known snap by (auto simp: ac_ok_def)
  with snap have pc: "pending_ok (SaveCommit k (save_lookup snapshot))" by auto
  let ?a = "update_instance k (\<lambda>st. st\<lparr>showSuccess := True\<rparr>) a"
  have ov: "overlay_ok (overlay ?a)"
    using inv by (intro update_instance_overlay_ok) (simp_all add: app_inv_def)
  have "app_inv n ?a"
    using inv ov by (simp add: app_inv_def update_instance_simps update_instance_mounted)
  with pc p SaveResume show ?thesis by (simp add: app_inv_def Let_def)
next
  case (SaveCommit k config)
  with p obtain cfg where "those config = Some cfg" "ac_ok (map info_id cfg)" by auto
  with inv SaveCommit show ?thesis
    by (simp add: app_inv_def handleSaveConfig_def closeEditMode_def)
qed

lemma app_step_inv:
  assumes inv: "app_inv n a" and en: "app_enabled e a" and n: "0 < n"
  shows "app_inv n (app_step n e a)"
proof (cases e)
  case (AEdit ev)
  with en obtain k s where ov: "overlay a = Some (k, s)" "edit_enabled ev s"
    by (auto split: option.splits)
  from app_inv_overlay [OF inv ov(1)] ov(2) have "edit_inv (edit_step ev s)"
    by (rule edit_step_inv)
  with inv ov AEdit show ?thesis by (simp add: app_inv_def)
next
  case AEditClick
  with inv show ?thesis
    by (auto simp: app_inv_def openEditMode_def edit_inv_def dt_ok_def init_edit_def)
next
  case ACloseClick
  with inv show ?thesis by (simp add: app_inv_def closeEditMode_def)
next
  case ASaveClick
  with en obtain k dt st where ov: "overlay a = Some (k, (dt, st))"
    by (auto split: option.splits)
  with inv have "edit_inv (dt, st)" by (simp add: app_inv_def)
  with inv ov ASaveClick show ?thesis
    by (simp add: app_inv_def saveClick_def edit_inv_def)
next
  case (ATimer i)
  with en have i: "i < length (timers a)" by simp
  with inv have p: "pending_ok (timers a ! i)" by (simp add: app_inv_def)
  have "app_inv n (a\<lparr>timers := take i (timers a) @ drop (Suc i) (timers a)\<rparr>)"
    using inv pending_ok_set_remove [of "timers a" i] by (simp add: app_inv_def)
  from fire_inv [OF this p] ATimer i show ?thesis by simp
next
  case (ANav ev)
  with inv nav_step_index_ok [OF n, of "car a" ev] show ?thesis
    by (cases ev) (simp_all add: app_inv_def index_ok_def nextSlide_def prevSlide_def
        handleKeyPress_def handleSwipe_def Let_def split: option.split swipe_dir.split)
next
  case (AImageLoad t)
  with inv show ?thesis by (simp add: app_inv_def handleImageLoad_def)
qed

lemma app_inv_init: "0 < n \<Longrightarrow> app_inv n app_init"
  by (simp add: app_inv_def app_init_def carousel_init_def mk_info_def ac_ok_def field_ids_unfold)

lemma app_reach_inv: "app_reach n a \<Longrightarrow> 0 < n \<Longrightarrow> app_inv n a"
proof (induction rule: app_reach.induct)
  case start
  then show ?case by (rule app_inv_init)
next
  case (step a e)
  then show ?case by (blast intro: app_step_inv)
qed

lemma app_trace_reach:
  "app_reach n a \<Longrightarrow> app_trace_ok n es a \<Longrightarrow> app_reach n (app_run n es a)"
  unfolding app_run_def
  by (induction es arbitrary: a) (auto intro: app_reach.step)

text \<open>The save flow's invariant holds in every reachable state.\<close>

lemma save_inv_remove:
  assumes "save_inv a" and "i < length (timers a)"
  shows "distinct (map pending_instance (take i (timers a) @ drop (Suc i) (timers a)))
    \<and> pending_instance (timers a ! i) \<notin> set (map pending_instance (take i (timers a) @ drop (Suc i) (timers a)))
    \<and> set (take i (timers a) @ drop (Suc i) (timers a)) \<subseteq> set (timers a)"
proof -
  have split: "timers a = take i (timers a) @ timers a ! i # drop (Suc i) (timers a)"
    using assms(2) by (rule id_take_nth_drop)
  have "distinct (map pending_instance (take i (timers a) @ timers a ! i # drop (Suc i) (timers a)))"
    using assms(1) split by (simp add: save_inv_def del: map_append append_take_drop_id)
  then show ?thesis
    by (auto dest: in_set_takeD in_set_dropD)
qed

lemma save_inv_step:
  assumes inv: "save_inv a" and en: "app_enabled e a"
  shows "save_inv (app_step n e a)"
proof (cases e)
  case (AEdit ev)
  with en obtain k dt st where ov: "overlay a = Some (k, (dt, st))"
    by (auto split: option.splits)
  obtain dt' st' where es: "edit_step ev (dt, st) = (dt', st')" by (cases "edit_step ev (dt, st)")
  have "isSaving st' = isSaving st" using edit_step_isSaving [of ev dt st] es by simp
  with inv ov AEdit es show ?thesis by (simp add: save_inv_def)
next
  case AEditClick
  with inv show ?thesis
    by (auto simp: save_inv_def init_edit_def list_all_iff)
next
  case ACloseClick
  with inv show ?thesis by (simp add: save_inv_def)
next
  case ASaveClick
  with en obtain k dt st where ov: "overlay a = Some (k, (dt, st))" "\<not> isSaving st"
    by (auto split: option.splits)
  with inv ASaveClick show ?thesis
    by (auto simp: save_inv_def saveClick_def)
next
  case (ATimer i)
  with en have i: "i < length (timers a)" by simp
  let ?rest = "take i (timers a) @ drop (Suc i) (timers a)"
  have r: "distinct (map pending_instance ?rest)" "pending_instance (timers a ! i) \<notin> set (map pending_instance ?rest)"
    "set ?rest \<subseteq> set (timers a)"
    using save_inv_remove [OF inv i] by auto
  have mem: "timers a ! i \<in> set (timers a)" using i by simp
  show ?thesis
  proof (cases "timers a ! i")
    case (SaveResume k snap)
    then have "k \<in> set (map pending_instance (timers a))"
      using mem by (metis image_eqI list.set_map pending_instance.simps(1))
    with SaveResume inv r mem ATimer i show ?thesis
      by (auto simp: save_inv_def update_instance_def list_all_iff split: option.splits if_splits)
  next
    case (SaveCommit k c)
    with inv r ATimer i show ?thesis
      by (auto simp: save_inv_def list_all_iff Let_def split: option.splits)
  qed
next
  case (ANav ev)
  with inv show ?thesis by (auto simp: save_inv_def split: option.splits)
next
  case (AImageLoad t)
  with inv show ?thesis by (auto simp: save_inv_def split: option.splits)
qed

lemma app_reach_save_inv: "app_reach n a \<Longrightarrow> save_inv a"
proof (induction rule: app_reach.induct)
  case start
  then show ?case by (simp add: save_inv_def app_init_def)
next
  case (step a e)
  from step.IH step.hyps(2) show ?case by (rule save_inv_step)
qed

lemma save_lookup_ids: "those (save_lookup ac) = Some cfg \<Longrightarrow> map info_id cfg = ac"
proof (induction ac arbitrary: cfg)
  case Nil
  then show ?case by (simp add: save_lookup_def)
next
  case (Cons x xs)
  then show ?case
    by (auto simp: save_lookup_def split: option.splits dest: find_draggable_Some)
qed

lemma snap_inv_saveClick:
  assumes "save_inv a" and "overlay a = Some (k, (dt, st))" and "\<not> isSaving st"
  shows "snap_inv k (activeContainer st) (saveClick a)"
proof -
  have "k \<notin> set (map pending_instance (timers a))" using assms by (auto simp: save_inv_def)
  then have "list_all (\<lambda>p. pending_instance p \<noteq> k) (timers a)"
    by (auto simp: list_all_iff)
  with save_inv_step [OF assms(1), of ASaveClick] assms show ?thesis
    by (auto simp: snap_inv_def saveClick_def save_inv_def list_all_iff)
qed

lemma snap_inv_step:
  assumes inv: "snap_inv k snap a" and en: "app_enabled e a"
  shows "snap_inv k snap (app_step n e a)"
proof -
  have sv: "save_inv (app_step n e a)" using inv en save_inv_step by (auto simp: snap_inv_def)
  show ?thesis
  proof (cases e)
    case (AEdit ev)
    with en obtain k' dt st where ov: "overlay a = Some (k', (dt, st))"
      by (auto split: option.splits)
    obtain dt' st' where es: "edit_step ev (dt, st) = (dt', st')" by (cases "edit_step ev (dt, st)")
    have "isSaving st' = isSaving st" using edit_step_isSaving [of ev dt st] es by simp
    with inv sv ov AEdit es show ?thesis by (simp add: snap_inv_def)
  next
    case ASaveClick
    with en obtain k' dt st where ov: "overlay a = Some (k', (dt, st))" "\<not> isSaving st"
      by (auto split: option.splits)
    with inv have "k' \<noteq> k" by (auto simp: snap_inv_def)
    with inv sv ov ASaveClick show ?thesis by (auto simp: snap_inv_def saveClick_def)
  next
    case (ATimer i)
    with en have i: "i < length (timers a)" by simp
    let ?rest = "take i (timers a) @ drop (Suc i) (timers a)"
    have mem: "timers a ! i \<in> set (timers a)" using i by simp
    have rest: "list_all (\<lambda>p. pending_instance p = k \<longrightarrow>
           p = SaveResume k snap \<or> p = SaveCommit k (save_lookup snap)) ?rest"
      using inv by (auto simp: snap_inv_def list_all_iff dest: in_set_takeD in_set_dropD)
    show ?thesis
    proof (cases "timers a ! i")
      case (SaveResume k' s')
      with inv mem have "k' = k \<Longrightarrow> s' = snap" by (auto simp: snap_inv_def list_all_iff)
      with SaveResume inv sv rest ATimer i show ?thesis
        by (auto simp: snap_inv_def update_instance_def split: option.splits)
    next
      case (SaveCommit k' c)
      with inv sv rest ATimer i show ?thesis by (auto simp: snap_inv_def Let_def split: option.splits)
    qed
  qed (use inv sv in \<open>auto simp: snap_inv_def split: option.splits\<close>)
qed

lemma snap_inv_run:
  "snap_inv k snap a \<Longrightarrow> app_trace_ok n es a \<Longrightarrow> snap_inv k snap (app_run n es a)"
  unfolding app_run_def
  by (induction es arbitrary: a) (auto intro: snap_inv_step)

lemma nav_step_fields: "activeInfoFields (nav_step n e st) = activeInfoFields st"
  by (cases e) (simp_all add: nextSlide_def prevSlide_def handleKeyPress_def handleSwipe_def
      Let_def split: option.split swipe_dir.split)

lemma fire_fields:
  "activeInfoFields (car (fire p a)) \<noteq> activeInfoFields (car a) \<Longrightarrow> \<exists>k cfg. p = SaveCommit k cfg"
  by (cases p) (simp_all add: Let_def update_instance_simps)

text \<open>Pending work: a resume still has its commit to schedule.\<close>

fun pending_weight :: "pending \<Rightarrow> nat" where
  "pending_weight (SaveResume k snapshot) = 2"
| "pending_weight (SaveCommit k config) = 1"

definition timers_weight :: "app_state \<Rightarrow> nat" where
  "timers_weight a = sum_list (map pending_weight (timers a))"

text \<open>The browser's event loop running the pending save timers until none is left, the
  first pending one each time (a loop on \<open>while_option\<close>: \<open>None\<close> would be a loop
  that never ends).\<close>

definition drain_timers :: "nat \<Rightarrow> app_state \<Rightarrow> app_state option" where
  "drain_timers n a = while_option (\<lambda>a. timers a \<noteq> []) (app_step n (ATimer 0)) a"

lemma timers_weight_zero: "timers_weight a = 0 \<longleftrightarrow> timers a = []"
proof -
  have "\<forall>p. 0 < pending_weight p" by (intro allI, case_tac p) simp_all
  then show ?thesis by (cases "timers a") (auto simp: timers_weight_def)
qed

lemma fire_timers:
  "timers (fire (SaveResume k s) a) = timers a @ [SaveCommit k (save_lookup s)]"
  "timers (fire (SaveCommit k c) a) = timers a"
  by (simp_all add: Let_def update_instance_simps split: option.split)

lemma fire_overlay:
  "overlay (fire (SaveCommit k c) a) = None"
  "overlay (fire (SaveResume k s) a) = None \<longleftrightarrow> overlay a = None"
  by (simp_all add: Let_def update_instance_mounted split: option.split)

lemma app_step_timer0:
  "timers a = p # ps \<Longrightarrow> app_step n (ATimer 0) a = fire p (a\<lparr>timers := ps\<rparr>)"
  by simp

text \<open>Each timer that fires, whichever it is, takes one unit off the pending work.\<close>

lemma timers_weight_timer:
  assumes "i < length (timers a)"
  shows "Suc (timers_weight (app_step n (ATimer i) a)) = timers_weight a"
proof -
  let ?rest = "take i (timers a) @ drop (Suc i) (timers a)"
  have sum: "sum_list (map pending_weight ?rest) + pending_weight (timers a ! i) = timers_weight a"
    using sum_list_map_remove_nth [OF assms] by (simp add: timers_weight_def)
  show ?thesis
    using assms sum
    by (cases "timers a ! i") (simp_all add: timers_weight_def fire_timers del: fire.simps)
qed

lemma app_run_Cons: "app_run n (e # es) a = app_run n es (app_step n e a)"
  by (simp add: app_run_def)

text \<open>Firing the first pending timer once per unit of pending work empties the timers,
  keeps the invariant, and, if anything was pending, a commit has closed the overlay.\<close>

lemma app_drain:
  assumes "app_inv n a" and "0 < n" and "timers_weight a = m"
  shows "app_trace_ok n (replicate m (ATimer 0)) a
    \<and> timers (app_run n (replicate m (ATimer 0)) a) = []
    \<and> app_inv n (app_run n (replicate m (ATimer 0)) a)
    \<and> (timers a \<noteq> [] \<longrightarrow> overlay (app_run n (replicate m (ATimer 0)) a) = None)"
  using assms
proof (induction m arbitrary: a)
  case 0
  then show ?case by (simp add: app_run_def timers_weight_zero)
next
  case (Suc m)
  then obtain p ps where tp: "timers a = p # ps"
    by (cases "timers a") (simp_all add: timers_weight_def)
  let ?a' = "app_step n (ATimer 0) a"
  have en: "app_enabled (ATimer 0) a" using tp by simp
  have inv': "app_inv n ?a'" using app_step_inv [OF Suc.prems(1) en Suc.prems(2)] .
  have step: "?a' = fire p (a\<lparr>timers := ps\<rparr>)" using tp by (rule app_step_timer0)
  have w': "timers_weight ?a' = m"
    using timers_weight_timer [of 0 a n] Suc.prems(3) tp by (simp del: app_step.simps)
  from Suc.IH [OF inv' Suc.prems(2) w'] have IH:
    "app_trace_ok n (replicate m (ATimer 0)) ?a'
     \<and> timers (app_run n (replicate m (ATimer 0)) ?a') = []
     \<and> app_inv n (app_run n (replicate m (ATimer 0)) ?a')
     \<and> (timers ?a' \<noteq> [] \<longrightarrow> overlay (app_run n (replicate m (ATimer 0)) ?a') = None)" .
  have ov: "overlay (app_run n (replicate m (ATimer 0)) ?a') = None"
  proof (cases "timers ?a' = []")
    case True
    then have "timers_weight ?a' = 0" by (simp only: timers_weight_zero)
    with w' have "m = 0" by simp
    moreover from True step have "\<exists>k c. p = SaveCommit k c"
      by (cases p) (simp_all add: fire_timers del: fire.simps)
    ultimately show ?thesis using step by (auto simp: app_run_def fire_overlay simp del: fire.simps)
  next
    case False
    with IH show ?thesis by blast
  qed
  show ?case
    using en IH ov by (simp add: app_run_Cons del: app_step.simps)
qed

section \<open>Properties of the composed program\<close>

text \<open>
  C19. Safety of the whole program: in every reachable state the page never renders an
  undefined field (no crash), the carousel's field list is a well-formed configuration, the
  overlay is mounted exactly while the carousel is in edit mode, and the centre index is
  valid.
\<close>

theorem app_reach_safe:
  assumes "app_reach n a" and "0 < n"
  shows "\<not> crashed a
    \<and> distinct (map info_id (activeInfoFields (car a)))
    \<and> length (activeInfoFields (car a)) \<le> 5
    \<and> set (map info_id (activeInfoFields (car a))) \<subseteq> set field_ids
    \<and> (isEditMode (car a) \<longleftrightarrow> overlay a \<noteq> None)
    \<and> 0 \<le> currentIndex (car a) \<and> currentIndex (car a) < int n"
  using app_reach_inv [OF assms] by (simp add: app_inv_def ac_ok_def)

theorem app_reach_safe_witness:
  "\<not> crashed (app_run 3 [AEditClick, ASaveClick, ATimer 0, ATimer 0] app_init)"
proof -
  have "app_reach 3 (app_run 3 [AEditClick, ASaveClick, ATimer 0, ATimer 0] app_init)"
    by (rule app_trace_reach [OF app_reach.start])
       (simp add: app_init_def saveClick_def update_instance_def init_edit_def)
  from app_reach_safe [OF this] show ?thesis by simp
qed

text \<open>
  C20. Round trip of a save: every configuration of known identifiers is looked up to a
  list of catalogue descriptors (no \<open>undefined\<close> entry) whose identifiers are the
  configuration, and reopening the editor on the saved list gives back the configuration.
\<close>

theorem save_roundtrip:
  assumes "set ac \<subseteq> set field_ids"
  shows "\<exists>cfg. those (save_lookup ac) = Some cfg \<and> set cfg \<subseteq> set initialDraggables
    \<and> map info_id cfg = ac \<and> activeContainer (init_edit (Some cfg)) = ac"
  using save_lookup_known [OF assms] by (auto simp: init_edit_def)

theorem save_roundtrip_witness:
  "\<exists>cfg. those (save_lookup [''discount'', ''author'']) = Some cfg
     \<and> activeContainer (init_edit (Some cfg)) = [''discount'', ''author'']"
  using save_roundtrip [of "[''discount'', ''author'']"] by (auto simp: field_ids_unfold)

text \<open>
  C21. A pending save is applied even when its overlay has been closed: when the 600 ms
  timeout fires, it sets the carousel's fields to the saved descriptors and closes edit
  mode, whatever overlay is mounted then, if any. Closing the editor after Save therefore
  does not discard the save (spec section 5 says closing discards unsaved changes and
  there is no partial-save state).
\<close>

theorem save_commit_applies_after_close:
  assumes "app_reach n a" and "0 < n" and "i < length (timers a)"
    and "timers a ! i = SaveCommit k config"
  shows "\<exists>cfg. those config = Some cfg
    \<and> activeInfoFields (car (app_step n (ATimer i) a)) = cfg
    \<and> overlay (app_step n (ATimer i) a) = None \<and> \<not> isEditMode (car (app_step n (ATimer i) a))"
proof -
  have "pending_ok (timers a ! i)" using app_reach_inv [OF assms(1,2)] assms(3)
    by (simp add: app_inv_def)
  with assms(4) obtain cfg where "those config = Some cfg" by auto
  with assms(3,4) show ?thesis by (simp add: handleSaveConfig_def closeEditMode_def)
qed

theorem save_commit_applies_after_close_witness:
  "overlay (app_step 3 (ATimer 0)
     (app_run 3 [AEditClick, AEdit (EvRemove ''author''), ASaveClick, ACloseClick, ATimer 0]
        app_init)) = None
   \<and> map info_id (activeInfoFields (car (app_step 3 (ATimer 0)
     (app_run 3 [AEditClick, AEdit (EvRemove ''author''), ASaveClick, ACloseClick, ATimer 0]
        app_init)))) = [''bookTitle'', ''bookSubtitle'', ''narrator'', ''ratingStar'']"
proof -
  let ?a = "app_run 3 [AEditClick, AEdit (EvRemove ''author''), ASaveClick, ACloseClick, ATimer 0]
        app_init"
  have r: "app_reach 3 ?a"
    by (rule app_trace_reach [OF app_reach.start])
       (simp add: app_init_def carousel_init_def mk_info_def saveClick_def update_instance_def
        init_edit_def handleRemoveFromContainer_def)
  have t: "timers ?a = [SaveCommit 0 (save_lookup [''bookTitle'', ''bookSubtitle'', ''narrator'',
      ''ratingStar''])]"
    by (simp add: app_run_def app_init_def carousel_init_def mk_info_def saveClick_def
        update_instance_def init_edit_def handleRemoveFromContainer_def)
  from t have len: "0 < length (timers ?a)" by simp
  from t have t0: "timers ?a ! 0 = SaveCommit 0 (save_lookup [''bookTitle'', ''bookSubtitle'',
      ''narrator'', ''ratingStar''])" by simp
  from save_commit_applies_after_close [OF r zero_less_numeral len t0]
  obtain cfg where "those (save_lookup [''bookTitle'', ''bookSubtitle'', ''narrator'', ''ratingStar''])
      = Some cfg" "activeInfoFields (car (app_step 3 (ATimer 0) ?a)) = cfg"
      "overlay (app_step 3 (ATimer 0) ?a) = None"
    by auto
  then show ?thesis
    by (auto simp del: app_step.simps
        simp add: save_lookup_def find_draggable_def initialDraggables_def mk_info_def)
qed

text \<open>
  C22. The saved configuration is the one on screen when Save was clicked: the handler's
  continuation closes over that render's \<open>activeContainer\<close>. Whatever enabled events
  follow the click (edits in the 400 ms saving window, closing, reopening, other saves),
  every pending timer of the clicked instance carries that snapshot, and when its 600 ms
  timeout fires the carousel's fields become exactly the snapshot's fields, in order.
\<close>

theorem save_uses_click_snapshot:
  assumes "app_reach n a" and "0 < n" and "overlay a = Some (k, (dt, st))"
    and "\<not> isSaving st"
    and "app_trace_ok n es (app_step n ASaveClick a)"
    and "i < length (timers (app_run n es (app_step n ASaveClick a)))"
    and "pending_instance (timers (app_run n es (app_step n ASaveClick a)) ! i) = k"
  shows "timers (app_run n es (app_step n ASaveClick a)) ! i = SaveResume k (activeContainer st)
    \<or> (timers (app_run n es (app_step n ASaveClick a)) ! i
          = SaveCommit k (save_lookup (activeContainer st))
        \<and> map info_id (activeInfoFields (car (app_step n (ATimer i)
              (app_run n es (app_step n ASaveClick a))))) = activeContainer st)"
proof -
  let ?b = "app_run n es (app_step n ASaveClick a)"
  have en: "app_enabled ASaveClick a" using assms(3,4) by simp
  have "snap_inv k (activeContainer st) ?b"
    using snap_inv_run [OF snap_inv_saveClick [OF app_reach_save_inv [OF assms(1)] assms(3,4)]]
      assms(5) by simp
  with assms(6,7) have p: "timers ?b ! i = SaveResume k (activeContainer st)
      \<or> timers ?b ! i = SaveCommit k (save_lookup (activeContainer st))"
    by (auto simp: snap_inv_def list_all_iff)
  have "app_reach n ?b"
    using app_trace_reach [OF app_reach.step [OF assms(1) en] assms(5)] .
  then have "pending_ok (timers ?b ! i)"
    using app_reach_inv assms(2,6) by (auto simp: app_inv_def)
  with p assms(6) show ?thesis
    by (auto simp: handleSaveConfig_def closeEditMode_def save_lookup_ids)
qed

theorem save_uses_click_snapshot_witness:
  "map info_id (activeInfoFields (car (app_step 3 (ATimer 0)
     (app_run 3 [AEdit (EvRemove ''author''), ATimer 0]
        (app_step 3 ASaveClick (app_run 3 [AEditClick] app_init))))))
   = [''bookTitle'', ''bookSubtitle'', ''author'', ''narrator'', ''ratingStar'']"
proof -
  let ?a = "app_run 3 [AEditClick] app_init"
  let ?st = "init_edit (Some (activeInfoFields carousel_init))"
  let ?b = "app_run 3 [AEdit (EvRemove ''author''), ATimer 0] (app_step 3 ASaveClick ?a)"
  have r: "app_reach 3 ?a"
    by (rule app_trace_reach [OF app_reach.start]) (simp add: app_init_def)
  have ov: "overlay ?a = Some (0, (None, ?st))"
    by (simp add: app_run_def app_init_def)
  have ns: "\<not> isSaving ?st" by (simp add: init_edit_def)
  have ac: "activeContainer ?st = [''bookTitle'', ''bookSubtitle'', ''author'', ''narrator'', ''ratingStar'']"
    by (simp add: init_edit_def carousel_init_def mk_info_def)
  have tr: "app_trace_ok 3 [AEdit (EvRemove ''author''), ATimer 0] (app_step 3 ASaveClick ?a)"
    by (simp add: app_run_def app_init_def carousel_init_def mk_info_def saveClick_def
        update_instance_def init_edit_def handleRemoveFromContainer_def)
  have tb: "timers ?b = [SaveCommit 0 (save_lookup (activeContainer ?st))]"
    by (simp add: app_run_def app_init_def carousel_init_def mk_info_def saveClick_def
        update_instance_def init_edit_def handleRemoveFromContainer_def)
  then have len: "0 < length (timers ?b)" and pi: "pending_instance (timers ?b ! 0) = 0" by simp_all
  from save_uses_click_snapshot [OF r zero_less_numeral ov ns tr len pi] tb ac show ?thesis
    by simp
qed

text \<open>
  C23. Frame of the displayed configuration: no event but the firing of a pending save
  timeout changes the carousel's field list; in particular editing, closing and navigating
  never do.
\<close>

theorem fields_change_only_by_save_commit:
  assumes "activeInfoFields (car (app_step n e a)) \<noteq> activeInfoFields (car a)"
  shows "\<exists>i k cfg. e = ATimer i \<and> i < length (timers a) \<and> timers a ! i = SaveCommit k cfg"
proof (cases e)
  case (ATimer i)
  with assms have i: "i < length (timers a)" by (auto split: if_splits)
  with assms ATimer
  have "activeInfoFields (car (fire (timers a ! i)
      (a\<lparr>timers := take i (timers a) @ drop (Suc i) (timers a)\<rparr>))) \<noteq> activeInfoFields (car a)"
    by simp
  then obtain k cfg where "timers a ! i = SaveCommit k cfg"
    using fire_fields [of "timers a ! i"
        "a\<lparr>timers := take i (timers a) @ drop (Suc i) (timers a)\<rparr>"]
    by auto
  with ATimer i show ?thesis by blast
qed (use assms in \<open>auto simp: saveClick_def openEditMode_def closeEditMode_def
       nav_step_fields handleImageLoad_def split: option.splits prod.splits if_splits\<close>)

theorem fields_change_only_by_save_commit_witness:
  "\<exists>i k cfg. ATimer 0 = ATimer i \<and> i < length [SaveCommit 0 [Some (hd initialDraggables)]]
     \<and> [SaveCommit 0 [Some (hd initialDraggables)]] ! i = SaveCommit k cfg"
proof -
  let ?a = "app_init\<lparr>timers := [SaveCommit 0 [Some (hd initialDraggables)]]\<rparr>"
  have "activeInfoFields (car (app_step 3 (ATimer 0) ?a)) \<noteq> activeInfoFields (car ?a)"
    by (simp add: app_init_def carousel_init_def initialDraggables_def mk_info_def
        handleSaveConfig_def closeEditMode_def)
  from fields_change_only_by_save_commit [OF this] show ?thesis by simp
qed

text \<open>
  C17. Every save completes: from every reachable state, the pending save timers can fire
  (one per unit of pending work, the first pending one each time) until none is left,
  without a crash, and if any was pending the overlay is then closed and the carousel is
  out of edit mode.
\<close>

theorem app_saves_complete:
  assumes "app_reach n a" and "0 < n"
  shows "\<exists>es. app_trace_ok n es a \<and> timers (app_run n es a) = [] \<and> \<not> crashed (app_run n es a)
    \<and> (timers a \<noteq> [] \<longrightarrow> overlay (app_run n es a) = None \<and> \<not> isEditMode (car (app_run n es a)))"
proof -
  have inv: "app_inv n a" using app_reach_inv [OF assms] .
  from app_drain [OF inv assms(2) refl] show ?thesis
    by (intro exI [of _ "replicate (timers_weight a) (ATimer 0)"]) (auto simp: app_inv_def)
qed

theorem app_saves_complete_witness:
  "\<exists>es. app_trace_ok 3 es (app_run 3 [AEditClick, ASaveClick] app_init)
     \<and> timers (app_run 3 es (app_run 3 [AEditClick, ASaveClick] app_init)) = []
     \<and> \<not> crashed (app_run 3 es (app_run 3 [AEditClick, ASaveClick] app_init))
     \<and> overlay (app_run 3 es (app_run 3 [AEditClick, ASaveClick] app_init)) = None
     \<and> \<not> isEditMode (car (app_run 3 es (app_run 3 [AEditClick, ASaveClick] app_init)))"
proof -
  have "app_reach 3 (app_run 3 [AEditClick, ASaveClick] app_init)"
    by (rule app_trace_reach [OF app_reach.start])
       (simp add: app_init_def saveClick_def init_edit_def)
  moreover have "timers (app_run 3 [AEditClick, ASaveClick] app_init) \<noteq> []"
    by (simp add: app_run_def app_init_def saveClick_def init_edit_def)
  ultimately show ?thesis
    using app_saves_complete [of 3 "app_run 3 [AEditClick, ASaveClick] app_init"] by auto
qed

text \<open>Any sequence of enabled timer events, whichever timer each one fires, is no longer
  than the pending work.\<close>

lemma timer_run_bound:
  "app_trace_ok n (map ATimer is) a \<Longrightarrow> length is \<le> timers_weight a"
proof (induction "is" arbitrary: a)
  case Nil
  then show ?case by simp
next
  case (Cons i "is")
  then have "length is \<le> timers_weight (app_step n (ATimer i) a)" "i < length (timers a)"
    by (simp_all del: app_step.simps)
  then show ?case using timers_weight_timer [of i a n] by simp
qed

text \<open>
  C33. The save timers always run out: the event loop that fires the first pending timer
  until none is left terminates from every reachable state, in a state with no timer and
  no crash, and no sequence of timer events, in whatever order the timers fire, is longer
  than the pending work (two units per unresumed save, one per uncommitted one).
\<close>

theorem timer_loop_terminates:
  assumes "app_reach n a" and "0 < n"
  shows "(\<exists>b. drain_timers n a = Some b \<and> timers b = [] \<and> \<not> crashed b)
    \<and> (\<forall>is. app_trace_ok n (map ATimer is) a \<longrightarrow> length is \<le> timers_weight a)"
proof
  let ?b = "\<lambda>a. timers a \<noteq> []" and ?c = "app_step n (ATimer 0)"
  have inv: "app_inv n a" using app_reach_inv [OF assms] .
  have step_inv: "app_inv n (?c s)" if "app_inv n s \<and> ?b s" for s
    using that app_step_inv [of n s "ATimer 0"] assms(2) by (simp del: app_step.simps)
  have smaller: "(?c s, s) \<in> measure timers_weight" if "app_inv n s \<and> ?b s" for s
    using that timers_weight_timer [of 0 s n] by (simp del: app_step.simps)
  obtain t where t: "drain_timers n a = Some t"
    using wf_rel_while_option_Some [OF wf_measure, where P = "app_inv n" and b = ?b and c = ?c and s = a] smaller step_inv inv
    unfolding drain_timers_def by blast
  have "app_inv n t"
    using while_option_rule [of "app_inv n" ?b ?c a t] step_inv inv t
    unfolding drain_timers_def by blast
  moreover have "timers t = []"
    using while_option_stop [of ?b ?c a t] t unfolding drain_timers_def by blast
  ultimately show "\<exists>b. drain_timers n a = Some b \<and> timers b = [] \<and> \<not> crashed b"
    using t by (auto simp: app_inv_def)
next
  show "\<forall>is. app_trace_ok n (map ATimer is) a \<longrightarrow> length is \<le> timers_weight a"
    using timer_run_bound by blast
qed

theorem timer_loop_terminates_witness:
  "(\<exists>b. drain_timers 3 (app_run 3 [AEditClick, ASaveClick] app_init) = Some b
        \<and> timers b = [] \<and> \<not> crashed b)
   \<and> \<not> app_trace_ok 3 (map ATimer [0, 0, 0]) (app_run 3 [AEditClick, ASaveClick] app_init)"
proof -
  have r1: "app_reach 3 (app_run 3 [AEditClick, ASaveClick] app_init)"
    by (rule app_trace_reach [OF app_reach.start])
       (simp add: app_init_def saveClick_def init_edit_def)
  have w: "timers_weight (app_run 3 [AEditClick, ASaveClick] app_init) = 2"
    by (simp add: app_run_def app_init_def saveClick_def init_edit_def timers_weight_def)
  show ?thesis
    using timer_loop_terminates [OF r1] w by fastforce
qed

text \<open>
  C5. The editor follows the keyboard: while the overlay is open, the arrow keys still
  reach the carousel's window listener, so in every reachable state with the overlay
  mounted and more than one book, \<open>ArrowRight\<close> is delivered, moves the centre index,
  and the overlay, with its unsaved configuration, now edits the next book.
\<close>

theorem editor_book_follows_arrow_keys:
  assumes "app_reach (length books) a" and "overlay a = Some (k, s)" and "1 < length books"
  shows "app_enabled (ANav (NavKey ''ArrowRight'')) a
    \<and> overlay (app_step (length books) (ANav (NavKey ''ArrowRight'')) a) = Some (k, s)
    \<and> currentIndex (car (app_step (length books) (ANav (NavKey ''ArrowRight'')) a))
        \<noteq> currentIndex (car a)
    \<and> edit_book books (app_step (length books) (ANav (NavKey ''ArrowRight'')) a)
        = Some (books ! ((nat (currentIndex (car a)) + 1) mod length books))"
proof -
  let ?n = "length books" and ?i = "currentIndex (car a)"
  have n0: "0 < ?n" using assms(3) by linarith
  then have inv: "app_inv ?n a" by (rule app_reach_inv [OF assms(1)])
  then have i: "0 \<le> ?i" "?i < int ?n" by (simp_all add: app_inv_def)
  have step: "currentIndex (car (app_step ?n (ANav (NavKey ''ArrowRight'')) a)) = (?i + 1) mod int ?n"
    using nextSlide_index [OF i(1) n0] by (simp add: handleKeyPress_def)
  have ne: "(?i + 1) mod int ?n \<noteq> ?i"
  proof (cases "?i + 1 < int ?n")
    case True
    then show ?thesis using i by simp
  next
    case False
    then have "?i + 1 = int ?n" using i by simp
    then show ?thesis using assms(3) by simp
  qed
  have nat_mod: "nat ((?i + 1) mod int ?n) = (nat ?i + 1) mod ?n"
    using i by (simp add: nat_mod_distrib nat_add_distrib)
  show ?thesis
    using assms(2) step ne nat_mod by (simp add: edit_book_def)
qed

theorem editor_book_follows_arrow_keys_witness:
  "edit_book [''A'', ''B'', ''C'']
     (app_step (length [''A'', ''B'', ''C'']) (ANav (NavKey ''ArrowRight'')) (app_run 3 [AEditClick] app_init))
   = Some ''B''"
proof -
  have "app_reach 3 (app_run 3 [AEditClick] app_init)"
    by (rule app_trace_reach [OF app_reach.start]) (simp add: app_init_def)
  then have r: "app_reach (length [''A'', ''B'', ''C'']) (app_run 3 [AEditClick] app_init)"
    by (simp add: numeral_3_eq_3)
  have ov: "overlay (app_run 3 [AEditClick] app_init)
      = Some (0, None, init_edit (Some (activeInfoFields carousel_init)))"
    by (simp add: app_run_def app_init_def)
  have ix: "currentIndex (car (app_run 3 [AEditClick] app_init)) = 0"
    by (simp add: app_run_def app_init_def carousel_init_def openEditMode_def)
  have n: "1 < length [''A'', ''B'', ''C'']" by simp
  from editor_book_follows_arrow_keys [OF r ov n]
  have "edit_book [''A'', ''B'', ''C'']
      (app_step (length [''A'', ''B'', ''C'']) (ANav (NavKey ''ArrowRight'')) (app_run 3 [AEditClick] app_init))
    = Some ([''A'', ''B'', ''C''] ! ((nat (currentIndex (car (app_run 3 [AEditClick] app_init))) + 1)
        mod length [''A'', ''B'', ''C'']))"
    by (elim conjE)
  then show ?thesis by (simp only: ix) simp
qed

end
