(* ===== verification/Layout.thy ===== *)
theory Layout
  imports Catalogue
begin

text \<open>
  The bubble layout engine: the \<open>updatePositions\<close> effect of
  \<open>src/src/components/EditMode/index.tsx\<close>. The fields not in the configuration are
  spaced evenly on a circle, in the fixed order of the catalogue, starting at the top; the
  radius depends on the viewport. The map \<open>positions\<close> is built by \<open>reduce\<close> over all
  draggables, which is \<open>foldl\<close> from the empty map. When there are no unassigned fields
  the code divides by zero (\<open>angleStep\<close> is \<open>Infinity\<close>) but never uses the quotient;
  HOL's \<open>x / 0 = 0\<close> is equally unused.
\<close>

section \<open>Definitions\<close>

definition bubble_radius :: "bool \<Rightarrow> real" where
  "bubble_radius isMobile = (if isMobile then 120 else 420)"

definition visibleBubbles :: "draggable_info list \<Rightarrow> field_id list \<Rightarrow> draggable_info list" where
  "visibleBubbles draggables activeContainer =
     filter (\<lambda>d. info_id d \<notin> set activeContainer) draggables"

definition updatePositions ::
  "draggable_info list \<Rightarrow> field_id list \<Rightarrow> bool \<Rightarrow> (field_id \<rightharpoonup> point)" where
  "updatePositions draggables activeContainer isMobile =
     (let visible = visibleBubbles draggables activeContainer;
          radius = bubble_radius isMobile;
          angleStep = 2 * pi / real (length visible)
      in foldl (\<lambda>acc item.
            let visibleIndex = js_findIndex (\<lambda>b. info_id b = info_id item) visible
            in if visibleIndex \<noteq> -1
               then acc(info_id item \<mapsto>
                      \<lparr>px = cos (real_of_int visibleIndex * angleStep - pi / 2) * radius,
                       py = sin (real_of_int visibleIndex * angleStep - pi / 2) * radius\<rparr>)
               else acc)
          Map.empty draggables)"

text \<open>The effect keeps the previous positions while the preview container is not
  mounted (\<open>if (!containerRect) return\<close>).\<close>

definition positions_effect ::
  "bool \<Rightarrow> draggable_info list \<Rightarrow> field_id list \<Rightarrow> bool \<Rightarrow> (field_id \<rightharpoonup> point)
     \<Rightarrow> (field_id \<rightharpoonup> point)" where
  "positions_effect containerMounted draggables activeContainer isMobile positions =
     (if containerMounted then updatePositions draggables activeContainer isMobile else positions)"

text \<open>The angle and the point of the bubble in visible slot \<open>i\<close> of \<open>n\<close>.\<close>

definition bubble_angle :: "nat \<Rightarrow> nat \<Rightarrow> real" where
  "bubble_angle n i = real i * (2 * pi / real n) - pi / 2"

definition bubble_pos :: "real \<Rightarrow> nat \<Rightarrow> nat \<Rightarrow> point" where
  "bubble_pos radius n i =
     \<lparr>px = cos (bubble_angle n i) * radius, py = sin (bubble_angle n i) * radius\<rparr>"

text \<open>Rotation of a point about the centre by angle \<open>a\<close> (clockwise on screen, where
  \<open>y\<close> grows downwards).\<close>

definition rotate_point :: "real \<Rightarrow> point \<Rightarrow> point" where
  "rotate_point a p = \<lparr>px = cos a * px p - sin a * py p, py = sin a * px p + cos a * py p\<rparr>"

section \<open>Lemmas\<close>

text \<open>The visible bubbles are exactly the catalogue fields not assigned.\<close>

lemma visible_ids:
  "d \<in> set (visibleBubbles initialDraggables ac) \<Longrightarrow> info_id d \<in> set field_ids \<and> info_id d \<notin> set ac"
  by (auto simp: visibleBubbles_def field_ids_def)

lemma visible_ids_ex:
  "i \<in> set field_ids \<Longrightarrow> i \<notin> set ac \<Longrightarrow> \<exists>d\<in>set (visibleBubbles initialDraggables ac). info_id d = i"
  by (auto simp: visibleBubbles_def field_ids_def)

text \<open>A left fold of guarded map updates with distinct keys: an element's key is mapped to
  its value when the guard holds, and keys of no guarded element keep their old value.\<close>

lemma foldl_upd_hit:
  assumes "distinct (map k xs)" and "x \<in> set xs" and "P x"
  shows "foldl (\<lambda>acc item. if P item then acc(k item \<mapsto> v item) else acc) m xs (k x) = Some (v x)"
  using assms
proof (induction xs arbitrary: m rule: rev_induct)
  case Nil
  then show ?case by simp
next
  case (snoc y ys)
  show ?case
  proof (cases "x = y")
    case True
    with snoc.prems show ?thesis by simp
  next
    case False
    with snoc.prems have "x \<in> set ys" "k y \<noteq> k x" "distinct (map k ys)"
      by (auto simp: image_iff)
    with snoc.IH snoc.prems show ?thesis by simp
  qed
qed

lemma foldl_upd_miss:
  assumes "\<forall>x\<in>set xs. P x \<longrightarrow> k x \<noteq> y"
  shows "foldl (\<lambda>acc item. if P item then acc(k item \<mapsto> v item) else acc) m xs y = m y"
  using assms by (induction xs arbitrary: m) auto

lemma visibleBubbles_found:
  "item \<in> set ds \<Longrightarrow>
   js_findIndex (\<lambda>b. info_id b = info_id item) (visibleBubbles ds ac) \<noteq> -1
     \<longleftrightarrow> info_id item \<notin> set ac"
  by (auto simp: js_findIndex_none_iff visibleBubbles_def)

lemma visibleBubbles_index:
  assumes "distinct (map info_id ds)" and "i < length (visibleBubbles ds ac)"
  shows "js_findIndex (\<lambda>b. info_id b = info_id (visibleBubbles ds ac ! i)) (visibleBubbles ds ac)
    = int i"
proof -
  let ?vs = "visibleBubbles ds ac"
  have d: "distinct (map info_id ?vs)"
    using assms(1) by (simp add: visibleBubbles_def distinct_map_filter)
  have "\<And>b. b \<in> set ?vs \<Longrightarrow> info_id b = info_id (?vs ! i) \<longleftrightarrow> b = ?vs ! i"
    using d assms(2) by (metis distinct_map inj_on_eq_iff nth_mem)
  then have "js_findIndex (\<lambda>b. info_id b = info_id (?vs ! i)) ?vs = js_findIndex (\<lambda>b. b = ?vs ! i) ?vs"
    by (rule js_findIndex_cong)
  also have "\<dots> = int i"
    using d assms(2) by (simp add: js_findIndex_nth_distinct distinct_map)
  finally show ?thesis .
qed

lemma foldl_upd_dom:
  "dom (foldl (\<lambda>acc item. if P item then acc(k item \<mapsto> v item) else acc) m xs)
     = dom m \<union> k ` {x \<in> set xs. P x}"
  by (induction xs arbitrary: m) auto

lemma updatePositions_dom:
  "dom (updatePositions ds ac m) = info_id ` set (visibleBubbles ds ac)"
proof -
  have "{x \<in> set ds. js_findIndex (\<lambda>b. info_id b = info_id x) (visibleBubbles ds ac) \<noteq> -1}
      = set (visibleBubbles ds ac)"
    using visibleBubbles_found by (auto simp: visibleBubbles_def)
  then show ?thesis
    unfolding updatePositions_def Let_def by (simp only: foldl_upd_dom) simp
qed

lemma updatePositions_nth:
  assumes "distinct (map info_id ds)" and "i < length (visibleBubbles ds ac)"
  shows "updatePositions ds ac m (info_id (visibleBubbles ds ac ! i))
    = Some (bubble_pos (bubble_radius m) (length (visibleBubbles ds ac)) i)"
proof -
  let ?vs = "visibleBubbles ds ac"
  have mem: "?vs ! i \<in> set ds"
    using assms(2) nth_mem [OF assms(2)] by (auto simp: visibleBubbles_def)
  have idx: "js_findIndex (\<lambda>b. info_id b = info_id (?vs ! i)) ?vs = int i"
    using visibleBubbles_index [OF assms] .
  show ?thesis
    unfolding updatePositions_def Let_def
    by (subst foldl_upd_hit [OF assms(1) mem]) (simp_all add: idx bubble_pos_def bubble_angle_def)
qed

lemma updatePositions_cases:
  assumes "distinct (map info_id ds)" and "updatePositions ds ac m a = Some p"
  obtains i where "i < length (visibleBubbles ds ac)" "a = info_id (visibleBubbles ds ac ! i)"
    "p = bubble_pos (bubble_radius m) (length (visibleBubbles ds ac)) i"
proof -
  from assms(2) have "a \<in> info_id ` set (visibleBubbles ds ac)"
    using updatePositions_dom [of ds ac m] by blast
  then obtain i where i: "i < length (visibleBubbles ds ac)" "a = info_id (visibleBubbles ds ac ! i)"
    by (auto simp: in_set_conv_nth)
  with assms updatePositions_nth [OF assms(1) i(1), of m] show thesis
    by (intro that [OF i]) simp
qed

lemma bubble_radius_pos: "0 < bubble_radius m"
  by (simp add: bubble_radius_def)

lemma bubble_pos_norm: "px (bubble_pos r n i) ^ 2 + py (bubble_pos r n i) ^ 2 = r ^ 2"
proof -
  have "(cos x * r) ^ 2 + (sin x * r) ^ 2 = ((cos x) ^ 2 + (sin x) ^ 2) * r ^ 2" for x :: real
    by (simp only: power_mult_distrib distrib_right)
  then have "(cos x * r) ^ 2 + (sin x * r) ^ 2 = r ^ 2" for x :: real
    by simp
  then show ?thesis by (simp add: bubble_pos_def)
qed

lemma bubble_pos_inj:
  assumes "r \<noteq> 0" and "i < n" and "j < n" and "bubble_pos r n i = bubble_pos r n j"
  shows "i = j"
proof -
  from assms(1,4) have "sin (bubble_angle n i) = sin (bubble_angle n j)
      \<and> cos (bubble_angle n i) = cos (bubble_angle n j)"
    by (simp add: bubble_pos_def)
  then obtain k :: int where "bubble_angle n i = bubble_angle n j + 2 * pi * k"
    by (auto simp: sin_cos_eq_iff)
  then have "real i * (2 * pi / real n) = real j * (2 * pi / real n) + 2 * pi * k"
    by (simp add: bubble_angle_def)
  then have "pi * (2 * (real i - real j - real_of_int k * real n)) = 0"
    using assms(2) by (simp add: field_simps)
  then have "real i = real j + real_of_int k * real n"
    by simp
  then have "real_of_int (int i - int j) = real_of_int (k * int n)"
    by simp
  then have eq: "int i - int j = k * int n"
    by (simp only: of_int_eq_iff)
  have "\<bar>k * int n\<bar> < int n"
    using assms(2,3) by (simp flip: eq)
  then have "k = 0"
    using assms(2) by (cases "k = 0") (auto simp: abs_mult)
  with eq show ?thesis by simp
qed

lemma bubble_angle_Suc: "bubble_angle n (Suc i) = bubble_angle n i + 2 * pi / real n"
  by (simp add: bubble_angle_def distrib_right add_divide_distrib)

lemma bubble_pos_Suc: "bubble_pos r n (Suc i) = rotate_point (2 * pi / real n) (bubble_pos r n i)"
  by (simp add: bubble_pos_def rotate_point_def bubble_angle_Suc cos_add sin_add algebra_simps)

lemma bubble_pos_full_turn: "0 < n \<Longrightarrow> bubble_pos r n n = bubble_pos r n 0"
proof -
  assume "0 < n"
  then have "bubble_angle n n = bubble_angle n 0 + 2 * pi"
    by (simp add: bubble_angle_def)
  then show ?thesis by (simp add: bubble_pos_def)
qed

lemma distinct_initial_ids: "distinct (map info_id initialDraggables)"
  using distinct_field_ids by (simp add: field_ids_def)

lemma visibleBubbles_default:
  "map info_id (visibleBubbles initialDraggables defaultFields) =
     [''numberOfReviews'', ''bookCashPrice'', ''discount'', ''length'', ''releaseDate'',
      ''publisher'', ''category'', ''aiSummary'', ''aiReview'', ''topicTags'']"
  by (simp add: visibleBubbles_def initialDraggables_def defaultFields_def mk_info_def)

lemma visibleBubbles_default_length: "length (visibleBubbles initialDraggables defaultFields) = 10"
  using arg_cong [OF visibleBubbles_default, of length] by simp

lemma visibleBubbles_default_nth:
  "i < 10 \<Longrightarrow> info_id (visibleBubbles initialDraggables defaultFields ! i)
     = map info_id (visibleBubbles initialDraggables defaultFields) ! i"
  by (simp add: visibleBubbles_default_length)

lemmas layout_default_simps = distinct_initial_ids visibleBubbles_default_nth
  visibleBubbles_default visibleBubbles_default_length bubble_radius_def

section \<open>Properties of the layout\<close>

text \<open>
  C24. The layout places exactly the unassigned fields: the positions map has an entry for
  a field identifier if and only if some draggable carries it and it is not in the
  configuration. In particular a full assignment of the draggables leaves no bubble, and
  the division by zero of \<open>angleStep\<close> is never used.
\<close>

theorem layout_domain:
  "dom (updatePositions ds ac m) = {info_id d | d. d \<in> set ds \<and> info_id d \<notin> set ac}"
  by (auto simp: updatePositions_dom visibleBubbles_def)

text \<open>
  C25. Slot order is catalogue order: with distinct identifiers, the \<open>i\<close>-th unassigned
  field (in the order of the draggables) sits at angle \<open>i \<cdot> 2\<pi>/n - \<pi>/2\<close> on the circle of
  the viewport's radius, where \<open>n\<close> is the number of unassigned fields.
\<close>

theorem layout_slot:
  assumes "distinct (map info_id ds)" and "i < length (visibleBubbles ds ac)"
  shows "updatePositions ds ac m (info_id (visibleBubbles ds ac ! i)) =
    Some \<lparr>px = cos (real i * (2 * pi / real (length (visibleBubbles ds ac))) - pi / 2) * bubble_radius m,
          py = sin (real i * (2 * pi / real (length (visibleBubbles ds ac))) - pi / 2) * bubble_radius m\<rparr>"
  using updatePositions_nth [OF assms] by (simp add: bubble_pos_def bubble_angle_def)

theorem layout_slot_witness:
  "updatePositions initialDraggables defaultFields False ''bookCashPrice'' =
    Some \<lparr>px = cos (real (1::nat) * (2 * pi / real (10::nat)) - pi / 2) * 420,
          py = sin (real (1::nat) * (2 * pi / real (10::nat)) - pi / 2) * 420\<rparr>"
  using layout_slot [of initialDraggables 1 defaultFields False]
  by (simp only: layout_default_simps) simp

text \<open>
  C26. Bubbles do not overlap and lie on the circle: every placed bubble is at distance
  \<open>radius\<close> (120 on mobile, 420 otherwise) from the centre, and two different fields never
  share a position.
\<close>

theorem layout_on_circle_distinct:
  assumes "distinct (map info_id ds)"
    and "updatePositions ds ac m a = Some p" and "updatePositions ds ac m b = Some q"
    and "a \<noteq> b"
  shows "px p ^ 2 + py p ^ 2 = bubble_radius m ^ 2 \<and> p \<noteq> q"
proof -
  obtain i where i: "i < length (visibleBubbles ds ac)" "a = info_id (visibleBubbles ds ac ! i)"
    "p = bubble_pos (bubble_radius m) (length (visibleBubbles ds ac)) i"
    using updatePositions_cases [OF assms(1,2)] by blast
  obtain j where j: "j < length (visibleBubbles ds ac)" "b = info_id (visibleBubbles ds ac ! j)"
    "q = bubble_pos (bubble_radius m) (length (visibleBubbles ds ac)) j"
    using updatePositions_cases [OF assms(1,3)] by blast
  have "i \<noteq> j" using i(2) j(2) assms(4) by blast
  then have "p \<noteq> q"
    using bubble_pos_inj [of "bubble_radius m"] bubble_radius_pos [of m] i(1,3) j(1,3) by force
  then show ?thesis using i(3) bubble_pos_norm by simp
qed

theorem layout_on_circle_distinct_witness:
  "px (bubble_pos 420 10 0) ^ 2 + py (bubble_pos 420 10 0) ^ 2 = 420 ^ 2
   \<and> bubble_pos 420 10 0 \<noteq> bubble_pos 420 10 1"
proof -
  have "updatePositions initialDraggables defaultFields False ''numberOfReviews'' = Some (bubble_pos 420 10 0)"
    using updatePositions_nth [of initialDraggables 0 defaultFields False]
    by (simp only: layout_default_simps) simp
  moreover have "updatePositions initialDraggables defaultFields False ''bookCashPrice'' = Some (bubble_pos 420 10 1)"
    using updatePositions_nth [of initialDraggables 1 defaultFields False]
    by (simp only: layout_default_simps) simp
  ultimately show ?thesis
    using layout_on_circle_distinct [of initialDraggables defaultFields False "''numberOfReviews''"
        "bubble_pos 420 10 0" "''bookCashPrice''" "bubble_pos 420 10 1"]
    by (simp add: distinct_initial_ids bubble_radius_def)
qed

text \<open>
  C27. The bubbles are evenly spaced around the whole circle: with \<open>n\<close> unassigned fields
  and distinct identifiers, the position of each visible bubble's successor (the first
  bubble after the last) is its position rotated by \<open>2\<pi>/n\<close>.
\<close>

theorem layout_even_spacing:
  assumes "distinct (map info_id ds)" and "i < length (visibleBubbles ds ac)"
  shows "updatePositions ds ac m
           (info_id (visibleBubbles ds ac ! (Suc i mod length (visibleBubbles ds ac)))) =
         map_option (rotate_point (2 * pi / real (length (visibleBubbles ds ac))))
           (updatePositions ds ac m (info_id (visibleBubbles ds ac ! i)))"
proof -
  let ?n = "length (visibleBubbles ds ac)"
  let ?r = "bubble_radius m"
  have pos: "0 < ?n" using assms(2) by (rule le_less_trans [OF le0])
  then have succ: "Suc i mod ?n < ?n" by simp
  have "bubble_pos ?r ?n (Suc i mod ?n) = bubble_pos ?r ?n (Suc i)"
  proof (cases "Suc i < ?n")
    case False
    with assms(2) have "Suc i = ?n" by simp
    then show ?thesis using bubble_pos_full_turn [OF pos, of ?r] by simp
  qed simp
  then show ?thesis
    using updatePositions_nth [OF assms] updatePositions_nth [OF assms(1) succ]
    by (simp add: bubble_pos_Suc)
qed

theorem layout_even_spacing_witness:
  "updatePositions initialDraggables defaultFields False ''numberOfReviews'' =
     map_option (rotate_point (2 * pi / 10))
       (updatePositions initialDraggables defaultFields False ''topicTags'')"
  using layout_even_spacing [of initialDraggables 9 defaultFields False]
  by (simp only: layout_default_simps) simp

end
