(* ===== verification/Format.thy ===== *)
theory Format
  imports Carousel "HOL-Library.Sublist"
begin

text \<open>
  The two field formatters: \<open>formatValue\<close> of \<open>src/src/components/EditMode/constants.ts\<close>
  (a string, used by the overlay's rows and bubble previews) and the local \<open>formatValue\<close>
  of \<open>src/src/components/Carousel.tsx\<close> (a React fragment, used by the centre card),
  with the property access \<open>book[id as keyof AudioBook]\<close> that feeds them and the string
  built-ins they call (\<open>String\<close>, \<open>Math.floor\<close>, \<open>repeat\<close>, \<open>split\<close>, \<open>trim\<close>).

  Strings are byte strings: a literal outside ASCII is its UTF-8 encoding, as in the
  source files. The engine's conversions between numbers and strings
  (\<open>Number.prototype.toString\<close> and \<open>ToNumber\<close> on strings) are a parameter
  \<open>js_host\<close>: the formatters only pass their results through.
\<close>

section \<open>JavaScript values and string built-ins\<close>

text \<open>The values a property access on a book yields: a string, a number, or
  \<open>undefined\<close> for a key the record does not have.\<close>

datatype js_value = JStr string | JNum real | JUndefined

record js_host =
  numberToString :: "real \<Rightarrow> string"
  stringToNumber :: "string \<Rightarrow> real option"

datatype js_error = RangeError

text \<open>\<open>String(v)\<close>.\<close>

fun js_String :: "js_host \<Rightarrow> js_value \<Rightarrow> string" where
  "js_String h (JStr s) = s"
| "js_String h (JNum r) = numberToString h r"
| "js_String h JUndefined = ''undefined''"

text \<open>\<open>ToNumber\<close>, with \<open>None\<close> for \<open>NaN\<close>.\<close>

fun js_ToNumber :: "js_host \<Rightarrow> js_value \<Rightarrow> real option" where
  "js_ToNumber h (JStr s) = stringToNumber h s"
| "js_ToNumber h (JNum r) = Some r"
| "js_ToNumber h JUndefined = None"

text \<open>\<open>Math.floor\<close> (\<open>NaN\<close> stays \<open>NaN\<close>).\<close>

definition js_floor :: "real option \<Rightarrow> real option" where
  "js_floor x = map_option (\<lambda>r. of_int \<lfloor>r\<rfloor>) x"

text \<open>\<open>s.repeat(n)\<close>: the count is truncated towards zero (\<open>NaN\<close> counts as 0); a
  negative count raises \<open>RangeError\<close>.\<close>

definition js_repeat :: "string \<Rightarrow> real option \<Rightarrow> js_error + string" where
  "js_repeat s cnt =
     (let n = (case cnt of None \<Rightarrow> 0 | Some c \<Rightarrow> if c < 0 then \<lceil>c\<rceil> else \<lfloor>c\<rfloor>)
      in if n < 0 then Inl RangeError else Inr (concat (replicate (nat n) s)))"

text \<open>\<open>s.split(c)\<close> for a one-character separator: the pieces between separators, the
  empty string giving one empty piece.\<close>

fun js_split :: "char \<Rightarrow> string \<Rightarrow> string list" where
  "js_split c [] = [[]]"
| "js_split c (x # xs) =
     (let ws = js_split c xs in if x = c then [] # ws else (x # hd ws) # tl ws)"

text \<open>The UTF-8 encodings of the code points \<open>trim\<close> removes: ECMAScript's WhiteSpace
  (tab, vertical tab, form feed, the byte order mark and the space separators) and
  LineTerminator (line feed, carriage return, U+2028, U+2029).\<close>

definition js_ws_seqs :: "string list" where
  "js_ws_seqs =
     [[CHR 0x09], [CHR 0x0A], [CHR 0x0B], [CHR 0x0C], [CHR 0x0D], [CHR 0x20],
      [CHR 0xC2, CHR 0xA0], [CHR 0xE1, CHR 0x9A, CHR 0x80],
      [CHR 0xE2, CHR 0x80, CHR 0x80], [CHR 0xE2, CHR 0x80, CHR 0x81],
      [CHR 0xE2, CHR 0x80, CHR 0x82], [CHR 0xE2, CHR 0x80, CHR 0x83],
      [CHR 0xE2, CHR 0x80, CHR 0x84], [CHR 0xE2, CHR 0x80, CHR 0x85],
      [CHR 0xE2, CHR 0x80, CHR 0x86], [CHR 0xE2, CHR 0x80, CHR 0x87],
      [CHR 0xE2, CHR 0x80, CHR 0x88], [CHR 0xE2, CHR 0x80, CHR 0x89],
      [CHR 0xE2, CHR 0x80, CHR 0x8A], [CHR 0xE2, CHR 0x80, CHR 0xA8],
      [CHR 0xE2, CHR 0x80, CHR 0xA9], [CHR 0xE2, CHR 0x80, CHR 0xAF],
      [CHR 0xE2, CHR 0x81, CHR 0x9F], [CHR 0xE3, CHR 0x80, CHR 0x80],
      [CHR 0xEF, CHR 0xBB, CHR 0xBF]]"

text \<open>Removing leading occurrences of a set of non-empty sequences, one at a time; the
  loop ends because each round removes at least one byte.\<close>

function strip_prefixes :: "string list \<Rightarrow> string \<Rightarrow> string" where
  "strip_prefixes ws s =
     (case find (\<lambda>w. w \<noteq> [] \<and> prefix w s) ws of
        Some w \<Rightarrow> strip_prefixes ws (drop (length w) s)
      | None \<Rightarrow> s)"
  by pat_completeness auto

termination
proof (relation "measure (\<lambda>(ws, s). length s)")
  fix ws s w
  assume "find (\<lambda>w. w \<noteq> [] \<and> prefix w s) ws = Some w"
  then have "w \<noteq> []" "prefix w s" by (auto simp: find_Some_iff)
  then have "0 < length w" "length w \<le> length s"
    by (simp_all add: prefix_length_le)
  then have "length (drop (length w) s) < length s"
    by (simp only: length_drop)
  then show "((ws, drop (length w) s), ws, s) \<in> measure (\<lambda>(ws, s). length s)" by simp
qed simp

text \<open>\<open>s.trim()\<close>: leading and trailing whitespace removed.\<close>

definition js_trimStart :: "string \<Rightarrow> string" where
  "js_trimStart s = strip_prefixes js_ws_seqs s"

definition js_trimEnd :: "string \<Rightarrow> string" where
  "js_trimEnd s = rev (strip_prefixes (map rev js_ws_seqs) (rev s))"

definition js_trim :: "string \<Rightarrow> string" where
  "js_trim s = js_trimEnd (js_trimStart s)"

section \<open>Property access on a book\<close>

text \<open>\<open>book[id as keyof AudioBook]\<close>: the record's fields by their TypeScript keys
  (\<open>length\<close> is the field \<open>bookLength\<close>); any other key reads \<open>undefined\<close>.
  Keys of \<open>Object.prototype\<close> are not modelled: every key the code passes is a
  catalogue identifier.\<close>

definition book_entries :: "audio_book \<Rightarrow> (string \<times> js_value) list" where
  "book_entries b =
     [(''coverArt'', JStr (coverArt b)), (''bookTitle'', JStr (bookTitle b)),
      (''bookSubtitle'', JStr (bookSubtitle b)), (''ratingStar'', JNum (ratingStar b)),
      (''numberOfReviews'', JStr (numberOfReviews b)), (''bookCashPrice'', JNum (bookCashPrice b)),
      (''discount'', JStr (discount b)), (''author'', JStr (author b)),
      (''narrator'', JStr (narrator b)), (''length'', JStr (bookLength b)),
      (''releaseDate'', JStr (releaseDate b)), (''language'', JStr (language b)),
      (''publisher'', JStr (publisher b)), (''category'', JStr (category b)),
      (''aiSummary'', JStr (aiSummary b)), (''aiReview'', JStr (aiReview b)),
      (''topicTags'', JStr (topicTags b))]"

definition book_field :: "audio_book \<Rightarrow> field_id \<Rightarrow> js_value" where
  "book_field b k = (case map_of (book_entries b) k of Some v \<Rightarrow> v | None \<Rightarrow> JUndefined)"

section \<open>The overlay's formatter (\<open>constants.ts\<close>)\<close>

text \<open>The black star (U+2605) as written in \<open>constants.ts\<close>.\<close>

definition star :: string where
  "star = [CHR 0xE2, CHR 0x98, CHR 0x85]"

definition formatValue :: "js_host \<Rightarrow> field_id \<Rightarrow> js_value \<Rightarrow> js_error + string" where
  "formatValue h i v =
     (if i = ''ratingStar'' then js_repeat star (js_floor (js_ToNumber h v))
      else if i = ''bookCashPrice'' then Inr (''$'' @ js_String h v)
      else if i = ''numberOfReviews'' then Inr (js_String h v @ '' reviews'')
      else if i = ''topicTags'' then Inr (js_String h v)
      else Inr (js_String h v))"

text \<open>A row of the preview container (\<open>ReorderableItem\<close>): \<open>label: value\<close>; a bubble
  being dragged shows the formatted value when the preview is on (\<open>DraggableBubble\<close>).
  A formatter error raised during rendering is the render's result.\<close>

definition row_text :: "js_host \<Rightarrow> audio_book \<Rightarrow> draggable_info \<Rightarrow> js_error + string" where
  "row_text h b item =
     map_sum id (\<lambda>t. label item @ '': '' @ t) (formatValue h (info_id item) (book_field b (info_id item)))"

definition bubble_preview ::
  "js_host \<Rightarrow> audio_book \<Rightarrow> draggable_info \<Rightarrow> bool \<Rightarrow> bool \<Rightarrow> js_error + string option" where
  "bubble_preview h b item isDragging showPreview =
     (if showPreview \<and> isDragging
      then map_sum id Some (formatValue h (info_id item) (book_field b (info_id item)))
      else Inr None)"

section \<open>The centre card's formatter (\<open>Carousel.tsx\<close>)\<close>

text \<open>The rendered fragments: text, a star row with the optional rating beside it, and a
  list of tag chips.\<close>

datatype card_node = NText string | NStars string "string option" | NTags "string list"

text \<open>The glyph literal of \<open>Carousel.tsx\<close> line 74: the bytes \<open>C3 A2 CB 9C E2 80 A6\<close>,
  that is the three characters a with circumflex (U+00E2), small tilde (U+02DC) and
  horizontal ellipsis (U+2026): the UTF-8 bytes of the star read as Windows-1252 and
  encoded again.\<close>

definition card_star :: string where
  "card_star = [CHR 0xC3, CHR 0xA2, CHR 0xCB, CHR 0x9C, CHR 0xE2, CHR 0x80, CHR 0xA6]"

text \<open>\<open>repeat(5)\<close> of a constant count cannot fail and is written as the replication.\<close>

definition formatValueCard ::
  "js_host \<Rightarrow> field_id \<Rightarrow> js_value \<Rightarrow> audio_book option \<Rightarrow> card_node" where
  "formatValueCard h i v book =
     (if i = ''ratingStar''
        then NStars (concat (replicate 5 card_star)) (map_option (\<lambda>b. numberToString h (ratingStar b)) book)
      else if i = ''bookCashPrice'' then NText (''$'' @ js_String h v)
      else if i = ''numberOfReviews'' then NText (js_String h v)
      else if i = ''discount'' then NText (js_String h v)
      else if i = ''topicTags'' then NTags (map js_trim (js_split (CHR '','') (js_String h v)))
      else if i = ''author'' then NText (''By '' @ js_String h v)
      else if i = ''narrator'' then NText (''Narrated by '' @ js_String h v)
      else NText (js_String h v))"

text \<open>The content of a centre-card row (\<open>Carousel.tsx\<close> lines 201-259): the primary
  field and, in a paired row, the secondary one, each formatted from the book.\<close>

fun card_row_content :: "js_host \<Rightarrow> audio_book \<Rightarrow> card_row \<Rightarrow> card_node list" where
  "card_row_content h b (FieldRow i) = [formatValueCard h i (book_field b i) (Some b)]"
| "card_row_content h b (PairRow i j) =
     formatValueCard h i (book_field b i) (Some b)
     # (case j of None \<Rightarrow> [] | Some k \<Rightarrow> [formatValueCard h k (book_field b k) (Some b)])"

section \<open>Lemmas on the string built-ins\<close>

lemma js_split_nonempty [simp]: "js_split c s \<noteq> []"
  by (induction s) (auto simp: Let_def)

lemma js_split_no_sep: "p \<in> set (js_split c s) \<Longrightarrow> c \<notin> set p"
proof (induction s arbitrary: p)
  case (Cons x xs)
  have "hd (js_split c xs) \<in> set (js_split c xs)" "set (tl (js_split c xs)) \<subseteq> set (js_split c xs)"
    using js_split_nonempty [of c xs] by (auto simp: list.set_sel)
  with Cons show ?case by (auto simp: Let_def split: if_splits)
qed simp

lemma js_split_hd_prefix: "prefix (hd (js_split c s)) s"
  by (induction s) (auto simp: Let_def)

lemma js_split_sublist: "p \<in> set (js_split c s) \<Longrightarrow> sublist p s"
proof (induction s arbitrary: p)
  case (Cons x xs)
  let ?ws = "js_split c xs"
  have "prefix (x # hd ?ws) (x # xs)" using js_split_hd_prefix [of c xs] by simp
  moreover have "set (tl ?ws) \<subseteq> set ?ws"
    using js_split_nonempty [of c xs] by (auto simp: list.set_sel)
  ultimately show ?case
    using Cons by (auto simp: Let_def sublist_Cons_right split: if_splits)
qed simp

lemma js_split_no_sep_id: "c \<notin> set s \<Longrightarrow> js_split c s = [s]"
  by (induction s) (auto simp: Let_def)


lemma strip_prefixes_None:
  "find (\<lambda>w. w \<noteq> [] \<and> prefix w s) ws = None \<Longrightarrow> strip_prefixes ws s = s"
  by simp

lemma strip_prefixes_Some:
  "find (\<lambda>w. w \<noteq> [] \<and> prefix w s) ws = Some w \<Longrightarrow>
   strip_prefixes ws s = strip_prefixes ws (drop (length w) s)"
  by simp

declare strip_prefixes.simps [simp del]

lemma strip_prefixes_decomp:
  "\<exists>p. s = p @ strip_prefixes ws s \<and> set p \<subseteq> \<Union> (set ` set ws)"
proof (induction ws s rule: strip_prefixes.induct)
  case (1 ws s)
  show ?case
  proof (cases "find (\<lambda>w. w \<noteq> [] \<and> prefix w s) ws")
    case None
    then show ?thesis by (simp add: strip_prefixes_None)
  next
    case (Some w)
    then have w: "w \<in> set ws" "prefix w s" by (auto simp: find_Some_iff)
    from "1" [OF Some] obtain p where
      p: "drop (length w) s = p @ strip_prefixes ws (drop (length w) s)" "set p \<subseteq> \<Union> (set ` set ws)"
      by blast
    from w(2) obtain r where r: "s = w @ r" by (auto simp: prefix_def)
    then have d: "drop (length w) s = r" by simp
    from p(1) have pr: "r = p @ strip_prefixes ws r" unfolding d .
    have st: "strip_prefixes ws s = strip_prefixes ws r"
      using strip_prefixes_Some [OF Some] unfolding d .
    have "w @ r = w @ (p @ strip_prefixes ws r)"
      using pr by (rule arg_cong)
    with r have "s = w @ (p @ strip_prefixes ws r)"
      by (rule trans)
    then have "s = (w @ p) @ strip_prefixes ws s"
      unfolding st by (simp only: append_assoc)
    moreover have "set (w @ p) \<subseteq> \<Union> (set ` set ws)"
      using w(1) p(2) by auto
    ultimately show ?thesis by (intro exI [of _ "w @ p"] conjI)
  qed
qed

lemma strip_prefixes_clean:
  "w \<in> set ws \<Longrightarrow> w \<noteq> [] \<Longrightarrow> \<not> prefix w (strip_prefixes ws s)"
proof (induction ws s rule: strip_prefixes.induct)
  case (1 ws s)
  then show ?case by (auto simp: find_None_iff strip_prefixes.simps split: option.split)
qed

lemma js_ws_seqs_nonempty: "w \<in> set js_ws_seqs \<Longrightarrow> w \<noteq> []"
  by (auto simp: js_ws_seqs_def)

lemma js_trimEnd_prefix: "prefix (js_trimEnd s) s"
proof -
  obtain p where "rev s = p @ strip_prefixes (map rev js_ws_seqs) (rev s)"
    using strip_prefixes_decomp by blast
  then have "rev (rev s) = rev (strip_prefixes (map rev js_ws_seqs) (rev s)) @ rev p"
    by (metis rev_append)
  then have "s = js_trimEnd s @ rev p"
    by (simp add: js_trimEnd_def)
  then show ?thesis by (rule prefixI)
qed

lemma js_trimStart_suffix: "suffix (js_trimStart s) s"
  using strip_prefixes_decomp [of s js_ws_seqs] by (auto simp: js_trimStart_def suffix_def)

lemma js_trim_sublist: "sublist (js_trim s) s"
proof -
  have "sublist (js_trim s) (js_trimStart s)"
    using js_trimEnd_prefix [of "js_trimStart s"] by (simp add: js_trim_def)
  moreover have "sublist (js_trimStart s) s"
    using js_trimStart_suffix [of s] by simp
  ultimately show ?thesis by (rule sublist_order.order.trans)
qed

lemma js_trim_no_leading: "w \<in> set js_ws_seqs \<Longrightarrow> \<not> prefix w (js_trim s)"
proof
  assume w: "w \<in> set js_ws_seqs" and "prefix w (js_trim s)"
  then have "prefix w (js_trimStart s)"
    using js_trimEnd_prefix [of "js_trimStart s"] by (auto simp: js_trim_def)
  with w show False
    using strip_prefixes_clean [of w js_ws_seqs s] js_ws_seqs_nonempty [of w]
    by (simp add: js_trimStart_def)
qed

lemma js_trim_no_trailing: "w \<in> set js_ws_seqs \<Longrightarrow> \<not> suffix w (js_trim s)"
  using strip_prefixes_clean [of "rev w" "map rev js_ws_seqs" "rev (js_trimStart s)"]
    js_ws_seqs_nonempty [of w]
  by (simp add: js_trim_def js_trimEnd_def suffix_to_prefix)


lemma strip_prefixes_Nil_bytes:
  "strip_prefixes ws s = [] \<Longrightarrow> set s \<subseteq> \<Union> (set ` set ws)"
  using strip_prefixes_decomp [of s ws] by auto

lemma js_trim_Nil_bytes:
  assumes "js_trim s = []"
  shows "set s \<subseteq> \<Union> (set ` set js_ws_seqs)"
proof -
  let ?t = "js_trimStart s"
  obtain p where p: "s = p @ ?t" "set p \<subseteq> \<Union> (set ` set js_ws_seqs)"
    using strip_prefixes_decomp [of s js_ws_seqs] by (auto simp: js_trimStart_def)
  from assms have "strip_prefixes (map rev js_ws_seqs) (rev ?t) = []"
    by (simp add: js_trim_def js_trimEnd_def)
  then have "set (rev ?t) \<subseteq> \<Union> (set ` set (map rev js_ws_seqs))"
    by (rule strip_prefixes_Nil_bytes)
  then have "set ?t \<subseteq> \<Union> (set ` set js_ws_seqs)" by simp
  moreover have "set s = set (p @ ?t)" using p(1) by (rule arg_cong)
  ultimately show ?thesis using p(2) by simp
qed

lemma comma_not_ws: "CHR 0x2C \<notin> \<Union> (set ` set js_ws_seqs)"
  by (simp add: js_ws_seqs_def)

lemma book_field_simps [simp]:
  "book_field b ''ratingStar'' = JNum (ratingStar b)"
  "book_field b ''bookTitle'' = JStr (bookTitle b)"
  "book_field b ''numberOfReviews'' = JStr (numberOfReviews b)"
  "book_field b ''bookCashPrice'' = JNum (bookCashPrice b)"
  by (simp_all add: book_field_def book_entries_def)

lemma js_repeat_floor:
  "js_repeat s (js_floor (Some r)) =
     (if r < 0 then Inl RangeError else Inr (concat (replicate (nat \<lfloor>r\<rfloor>) s)))"
  by (simp add: js_repeat_def js_floor_def Let_def)

section \<open>Properties of the formatters\<close>

text \<open>
  C29. The overlay's star rating: for a book with a non-negative rating the row and the
  bubble preview show \<open>\<lfloor>rating\<rfloor>\<close> stars (a rating of 4.7 shows four), and a negative
  rating makes \<open>repeat\<close> raise \<open>RangeError\<close> while the overlay renders.
\<close>

theorem formatValue_rating:
  "formatValue h ''ratingStar'' (book_field b ''ratingStar'') =
     (if ratingStar b < 0 then Inl RangeError
      else Inr (concat (replicate (nat \<lfloor>ratingStar b\<rfloor>) star)))"
  by (simp add: formatValue_def js_repeat_floor)

text \<open>
  C30. The rating is the only failure of the overlay's formatter: on every key of every
  book, \<open>formatValue\<close> returns a string unless the key is \<open>ratingStar\<close> and the
  rating is negative.
\<close>

theorem formatValue_fails_iff:
  "isl (formatValue h i (book_field b i)) \<longleftrightarrow> i = ''ratingStar'' \<and> ratingStar b < 0"
  by (simp add: formatValue_def js_repeat_floor)

text \<open>
  C31. Every tag chip is trimmed: it is a substring of the tag string and neither starts
  nor ends with a whitespace or line-terminator character.
\<close>

theorem topicTags_trimmed:
  assumes "formatValueCard h ''topicTags'' v bk = NTags ts" and "t \<in> set ts"
  shows "sublist t (js_String h v) \<and> (\<forall>w\<in>set js_ws_seqs. \<not> prefix w t \<and> \<not> suffix w t)"
proof -
  from assms obtain p where p: "p \<in> set (js_split (CHR 0x2C) (js_String h v))" "t = js_trim p"
    by (auto simp: formatValueCard_def)
  have "sublist p (js_String h v)"
    using p(1) by (rule js_split_sublist)
  then show ?thesis
    using p(2) js_trim_sublist [of p] js_trim_no_leading js_trim_no_trailing
    by (auto intro: sublist_order.order.trans)
qed

theorem topicTags_trimmed_witness:
  "sublist ''fantasy'' '' fantasy ,epic''
   \<and> list_all (\<lambda>w. \<not> prefix w ''fantasy'' \<and> \<not> suffix w ''fantasy'') js_ws_seqs"
  using topicTags_trimmed [of "\<lparr>numberToString = \<lambda>r. [], stringToNumber = \<lambda>s. None\<rparr>"
      "JStr '' fantasy ,epic''" None "[''fantasy'', ''epic'']" "''fantasy''"]
  by (simp add: formatValueCard_def js_trim_def js_trimStart_def js_trimEnd_def
      strip_prefixes.simps js_ws_seqs_def list_all_iff)

text \<open>
  C32. A blank tag string (empty, or only whitespace) renders one empty tag chip rather
  than none.
\<close>

theorem blank_topicTags_one_empty_chip:
  assumes "js_trim (js_String h v) = []"
  shows "formatValueCard h ''topicTags'' v bk = NTags [[]]"
proof -
  have "CHR 0x2C \<notin> set (js_String h v)"
    using js_trim_Nil_bytes [OF assms] comma_not_ws by blast
  then have "js_split (CHR 0x2C) (js_String h v) = [js_String h v]"
    by (rule js_split_no_sep_id)
  with assms show ?thesis by (simp add: formatValueCard_def)
qed

theorem blank_topicTags_one_empty_chip_witness:
  "formatValueCard \<lparr>numberToString = \<lambda>r. [], stringToNumber = \<lambda>s. None\<rparr> ''topicTags''
     (JStr [CHR 0x20, CHR 0x09, CHR 0x20]) None = NTags [[]]"
  using blank_topicTags_one_empty_chip [of "\<lparr>numberToString = \<lambda>r. [], stringToNumber = \<lambda>s. None\<rparr>"
      "JStr [CHR 0x20, CHR 0x09, CHR 0x20]" None]
  by (simp add: js_trim_def js_trimStart_def js_trimEnd_def strip_prefixes.simps js_ws_seqs_def)

end
