(* ===== verification/RowHover.thy ===== *)
theory RowHover
  imports Prelude
begin

text \<open>
  The hover and drag state of one configured row, \<open>ReorderableItem\<close> of
  \<open>src/src/components/EditMode/ReorderableItem.tsx\<close>: the two state hooks
  \<open>isHovered\<close> and \<open>isDragging\<close>, the mouse and drag listeners of the
  \<open>Reorder.Item\<close>, the effect on \<open>[isDragging]\<close>, and the zero-delay timeouts that
  \<open>onDragEnd\<close> schedules to dispatch a synthetic \<open>mouseleave\<close> on the row. The timeouts
  are counted; one fires at a time. The row's \<open>itemRef\<close> is set while the row is
  mounted, which is the lifetime of this state. React derives \<open>onMouseEnter\<close> and
  \<open>onMouseLeave\<close> from the native \<open>mouseover\<close> and \<open>mouseout\<close> events and does not
  listen to native \<open>mouseleave\<close>, so the event a timeout dispatches reaches no listener
  of the row.
\<close>

section \<open>State, handlers and steps\<close>

record row_state =
  isHovered :: bool
  isDragging :: bool
  pendingLeave :: nat

definition row_init :: row_state where
  "row_init = \<lparr>isHovered = False, isDragging = False, pendingLeave = 0\<rparr>"

text \<open>\<open>RMouseOver b\<close>: a \<open>mouseover\<close> whose target is the row itself exactly when
  \<open>b\<close> (\<open>e.currentTarget === e.target\<close>). \<open>RLeaveTimer\<close>: one pending timeout
  fires and dispatches a native \<open>mouseleave\<close> on the row.\<close>

datatype row_event =
    RMouseEnter | RMouseLeave | RMouseOver bool | RMouseOut
  | RDragStart | RDragEnd | RLeaveTimer | RAnimationComplete

text \<open>\<open>onMouseLeave\<close>, run when the pointer leaves the row.\<close>

definition row_mouseLeave :: "row_state \<Rightarrow> row_state" where
  "row_mouseLeave s = s\<lparr>isHovered := False\<rparr>"

fun row_handler :: "row_event \<Rightarrow> row_state \<Rightarrow> row_state" where
  "row_handler RMouseEnter s = (if \<not> isDragging s then s\<lparr>isHovered := True\<rparr> else s)"
| "row_handler RMouseLeave s = row_mouseLeave s"
| "row_handler (RMouseOver self) s =
     (if \<not> isDragging s \<and> self then s\<lparr>isHovered := True\<rparr> else s)"
| "row_handler RMouseOut s = s\<lparr>isHovered := False\<rparr>"
| "row_handler RDragStart s = s\<lparr>isDragging := True, isHovered := False\<rparr>"
| "row_handler RDragEnd s =
     s\<lparr>isDragging := False, isHovered := False, pendingLeave := Suc (pendingLeave s)\<rparr>"
| "row_handler RLeaveTimer s = s\<lparr>pendingLeave := pendingLeave s - 1\<rparr>"
| "row_handler RAnimationComplete s = s\<lparr>isHovered := False, isDragging := False\<rparr>"

text \<open>\<open>useEffect(() => { if (!isDragging) setIsHovered(false) }, [isDragging])\<close>: it runs
  after a render in which \<open>isDragging\<close> changed.\<close>

definition row_effect :: "row_state \<Rightarrow> row_state" where
  "row_effect s = (if \<not> isDragging s then s\<lparr>isHovered := False\<rparr> else s)"

definition row_step :: "row_event \<Rightarrow> row_state \<Rightarrow> row_state" where
  "row_step e s =
     (let s' = row_handler e s in if isDragging s' \<noteq> isDragging s then row_effect s' else s')"

fun row_enabled :: "row_event \<Rightarrow> row_state \<Rightarrow> bool" where
  "row_enabled RLeaveTimer s = (0 < pendingLeave s)"
| "row_enabled e s = True"

inductive row_reach :: "row_state \<Rightarrow> bool" where
  row_start: "row_reach row_init"
| row_event: "row_reach s \<Longrightarrow> row_enabled e s \<Longrightarrow> row_reach (row_step e s)"

definition row_run :: "row_event list \<Rightarrow> row_state \<Rightarrow> row_state" where
  "row_run es s = fold row_step es s"

fun row_trace_ok :: "row_event list \<Rightarrow> row_state \<Rightarrow> bool" where
  "row_trace_ok [] s = True"
| "row_trace_ok (e # es) s = (row_enabled e s \<and> row_trace_ok es (row_step e s))"

text \<open>A row at rest: not hovered, not dragged, no synthetic event pending.\<close>

definition row_idle :: "row_state \<Rightarrow> bool" where
  "row_idle s \<longleftrightarrow> \<not> isHovered s \<and> \<not> isDragging s \<and> pendingLeave s = 0"

section \<open>Lemmas\<close>

lemma row_step_no_hover_drag:
  "\<not> (isDragging s \<and> isHovered s) \<Longrightarrow> \<not> (isDragging (row_step e s) \<and> isHovered (row_step e s))"
  by (cases e) (auto simp: row_step_def row_effect_def row_mouseLeave_def Let_def)

lemma row_run_Cons: "row_run (e # es) s = row_run es (row_step e s)"
  by (simp add: row_run_def)

lemma row_trace_reach: "row_reach s \<Longrightarrow> row_trace_ok es s \<Longrightarrow> row_reach (row_run es s)"
  by (induction es arbitrary: s) (auto simp: row_run_def intro: row_reach.row_event)

text \<open>Firing the pending timeouts one by one empties them and changes nothing else.\<close>

lemma row_step_leave:
  "pendingLeave s = Suc m \<Longrightarrow> row_step RLeaveTimer s = s\<lparr>pendingLeave := m\<rparr>"
  by (simp add: row_step_def Let_def)

lemma row_timers_drain:
  "pendingLeave s = m \<Longrightarrow>
   row_trace_ok (replicate m RLeaveTimer) s
   \<and> row_run (replicate m RLeaveTimer) s = s\<lparr>pendingLeave := 0\<rparr>"
proof (induction m arbitrary: s)
  case 0
  then show ?case by (simp add: row_run_def)
next
  case (Suc m)
  let ?s' = "s\<lparr>pendingLeave := m\<rparr>"
  have step: "row_step RLeaveTimer s = ?s'"
    using Suc.prems by (rule row_step_leave)
  have IH: "row_trace_ok (replicate m RLeaveTimer) ?s'
      \<and> row_run (replicate m RLeaveTimer) ?s' = ?s'\<lparr>pendingLeave := 0\<rparr>"
    by (intro Suc.IH) simp
  show ?case
    using IH Suc.prems by (simp add: row_run_Cons step)
qed

lemma row_reach_not_both: "row_reach s \<Longrightarrow> \<not> (isDragging s \<and> isHovered s)"
proof (induction rule: row_reach.induct)
  case row_start
  then show ?case by (simp add: row_init_def)
next
  case (row_event s e)
  from row_event.IH show ?case by (rule row_step_no_hover_drag)
qed

lemma row_idle_leave:
  "\<not> isDragging t \<Longrightarrow> pendingLeave t = 0 \<Longrightarrow> row_idle (row_step RMouseLeave t)"
  by (simp add: row_step_def row_mouseLeave_def row_idle_def Let_def)

lemma row_run_single: "row_run [e] t = row_step e t"
  by (simp add: row_run_def)

lemma row_run_append: "row_run (xs @ ys) t = row_run ys (row_run xs t)"
  by (simp add: row_run_def)

lemma row_trace_ok_append:
  "row_trace_ok (xs @ ys) t \<longleftrightarrow> row_trace_ok xs t \<and> row_trace_ok ys (row_run xs t)"
  by (induction xs arbitrary: t) (simp_all add: row_run_Cons, simp add: row_run_def)

section \<open>Properties of the row\<close>

text \<open>
  C34. A row being dragged is never shown hovered: in every reachable state of a row,
  \<open>isDragging\<close> excludes \<open>isHovered\<close>, whatever mouse events arrive during the drag.
\<close>

theorem row_no_hover_while_dragging:
  assumes "row_reach s" and "isDragging s"
  shows "\<not> isHovered s"
  using row_reach_not_both [OF assms(1)] assms(2) by blast

theorem row_no_hover_while_dragging_witness:
  "\<not> isHovered (row_run [RMouseEnter, RDragStart, RMouseOver True, RMouseEnter] row_init)"
proof -
  have "row_reach (row_run [RMouseEnter, RDragStart, RMouseOver True, RMouseEnter] row_init)"
    by (rule row_trace_reach [OF row_reach.row_start]) simp
  moreover have "isDragging (row_run [RMouseEnter, RDragStart, RMouseOver True, RMouseEnter] row_init)"
    by (simp add: row_run_def row_step_def row_effect_def row_init_def)
  ultimately show ?thesis by (rule row_no_hover_while_dragging)
qed

text \<open>
  C35. Every row comes to rest, by the events the code makes happen: from any state, the
  end of the drag (if one is in progress), then as many \<open>mouseleave\<close> timeouts as are
  pending (one more for the drag just ended), then the pointer leaving the row, are each
  possible in turn and lead to a state that is neither hovered nor dragged and has
  nothing pending.
\<close>

theorem row_settles:
  "let es = (if isDragging s then [RDragEnd] else [])
          @ replicate (pendingLeave s + (if isDragging s then 1 else 0)) RLeaveTimer
          @ [RMouseLeave]
   in row_trace_ok es s \<and> row_idle (row_run es s)"
proof -
  let ?e1 = "if isDragging s then [RDragEnd] else []"
  let ?s1 = "row_run ?e1 s"
  have s1: "\<not> isDragging ?s1" "row_trace_ok ?e1 s"
    "pendingLeave ?s1 = pendingLeave s + (if isDragging s then 1 else 0)"
    by (simp_all add: row_step_def row_effect_def row_run_def Let_def)
  let ?e2 = "replicate (pendingLeave ?s1) RLeaveTimer"
  have d: "row_trace_ok ?e2 ?s1" "\<not> isDragging (row_run ?e2 ?s1)" "pendingLeave (row_run ?e2 ?s1) = 0"
    using row_timers_drain [OF refl, of ?s1] s1(1) by auto
  let ?es = "?e1 @ ?e2 @ [RMouseLeave]"
  have "row_trace_ok ?es s" using s1(2) d(1) by (simp add: row_trace_ok_append)
  moreover have "row_run ?es s = row_step RMouseLeave (row_run ?e2 ?s1)"
    by (simp only: row_run_append row_run_single)
  then have "row_idle (row_run ?es s)"
    using row_idle_leave [OF d(2,3)] by simp
  ultimately show ?thesis using s1(3) by (simp only: Let_def)
qed

end
