(* ===== verification/OverlayView.thy ===== *)
theory OverlayView
  imports Assignment Layout Format
begin

text \<open>
  What the edit overlay renders from its state (\<open>src/src/components/EditMode/index.tsx\<close>
  from line 203, \<open>PreviewContainer.tsx\<close> and \<open>DraggableBubble.tsx\<close>): the bubbles of the
  unassigned fields on the desktop circle or the chips of the mobile list, the floating
  label of a touch drag, the rows and the drop zone of the preview container, the
  selection counter and the Save button. Every element is reduced to the values the code
  computes for it (its props and the state-dependent parts of its animation targets and
  text); class names and fixed animation parameters are left out. The overlay's
  \<open>draggables\<close> state is never set and is \<^const>\<open>initialDraggables\<close>.
\<close>

section \<open>Number to decimal string\<close>

text \<open>\<open>String(n)\<close> for a natural number, as JSX renders \<open>{activeContainer.length}\<close>.\<close>

fun js_nat_str :: "nat \<Rightarrow> string" where
  "js_nat_str n =
     (if n < 10 then [char_of (48 + n)] else js_nat_str (n div 10) @ [char_of (48 + n mod 10)])"

declare js_nat_str.simps [simp del]

section \<open>Bubbles and chips\<close>

text \<open>One \<open>DraggableBubble\<close>: its item, the animation target (the position offset from
  the centre), the start of the entrance animation (a tenth of the offset), whether it is
  the dragged one, its stacking order and the entrance delay.\<close>

record bubble_view =
  bv_item :: draggable_info
  bv_target :: point
  bv_start :: point
  bv_dragging :: bool
  bv_zIndex :: nat
  bv_delay :: real

definition bubble_render :: "draggable_info \<Rightarrow> point \<Rightarrow> bool \<Rightarrow> int \<Rightarrow> bubble_view" where
  "bubble_render item position isDragging index =
     \<lparr>bv_item = item, bv_target = position,
      bv_start = \<lparr>px = px position * 0.1, py = py position * 0.1\<rparr>,
      bv_dragging = isDragging, bv_zIndex = (if isDragging then 100 else 10),
      bv_delay = of_int index * 0.08\<rparr>"

text \<open>The desktop circle: a bubble for each unassigned draggable, at
  \<open>positions[item.id] || { x: 0, y: 0 }\<close>, with the index of the item in
  \<open>draggables\<close> for the delay.\<close>

definition desktop_bubbles ::
  "draggable_info list \<Rightarrow> field_id list \<Rightarrow> (field_id \<rightharpoonup> point) \<Rightarrow> field_id option
     \<Rightarrow> bubble_view list" where
  "desktop_bubbles draggables ac positions dragged =
     map (\<lambda>item.
            let originalIndex = js_findIndex (\<lambda>d. info_id d = info_id item) draggables
            in bubble_render item
                 (case positions (info_id item) of Some p \<Rightarrow> p | None \<Rightarrow> \<lparr>px = 0, py = 0\<rparr>)
                 (dragged = Some (info_id item)) originalIndex)
       (filter (\<lambda>item. info_id item \<notin> set ac) draggables)"

record chip_view =
  cv_item :: draggable_info
  cv_active :: bool
  cv_delay :: real

text \<open>The mobile list: a chip for each unassigned draggable, highlighted while it is
  the dragged item, delayed by its index in the filtered list.\<close>

definition mobile_chips ::
  "draggable_info list \<Rightarrow> field_id list \<Rightarrow> field_id option \<Rightarrow> chip_view list" where
  "mobile_chips draggables ac dragged =
     map (\<lambda>(index, item). \<lparr>cv_item = item, cv_active = (dragged = Some (info_id item)),
                           cv_delay = real index * 0.03\<rparr>)
       (enumerate 0 (filter (\<lambda>item. info_id item \<notin> set ac) draggables))"

text \<open>The floating label of a touch drag, 40 pixels left of and 20 above the finger:
  shown while \<open>isDraggingTouch && touchDragPosition && draggedItem\<close> (an empty
  identifier is falsy); its text is the label of the dragged descriptor, if any.\<close>

definition touch_preview ::
  "draggable_info list \<Rightarrow> edit_state \<Rightarrow> (point \<times> string option) option" where
  "touch_preview draggables st =
     (case (touchDragPosition st, draggedItem st) of
        (Some p, Some i) \<Rightarrow>
          if isDraggingTouch st \<and> i \<noteq> []
          then Some (\<lparr>px = px p - 40, py = py p - 20\<rparr>, map_option label (find_draggable draggables i))
          else None
      | _ \<Rightarrow> None)"

section \<open>Preview container\<close>

text \<open>A row of the \<open>Reorder.Group\<close> (identifiers without a descriptor render nothing):
  its slot index in \<open>activeContainer\<close> (the one its drag-over and drop listeners pass on),
  its identifier and descriptor, highlighted while a drag hovers its slot and the drag did
  not start in the list.\<close>

record row_view =
  rv_index :: nat
  rv_id :: field_id
  rv_item :: draggable_info
  rv_draggedOver :: bool

definition preview_rows ::
  "draggable_info list \<Rightarrow> field_id list \<Rightarrow> nat option \<Rightarrow> bool \<Rightarrow> row_view list" where
  "preview_rows draggables ac overSlot fromContainer =
     List.map_filter (\<lambda>(index, i).
         map_option (\<lambda>item. \<lparr>rv_index = index, rv_id = i, rv_item = item,
                              rv_draggedOver = (overSlot = Some index \<and> \<not> fromContainer)\<rparr>)
           (find_draggable draggables i))
       (enumerate 0 ac)"

text \<open>The drop zone below the rows, rendered while fewer than five fields are assigned,
  highlighted with \<open>\<checkmark> Drop here\<close> while a drag hovers the slot after the last row.\<close>

definition drop_here_text :: string where
  "drop_here_text = [CHR 0xE2, CHR 0x9C, CHR 0x93] @ '' Drop here''"

definition drag_here_text :: string where
  "drag_here_text = [CHR 0xE2, CHR 0x8A, CHR 0x95] @ '' Drag element here''"

definition drop_zone :: "field_id list \<Rightarrow> nat option \<Rightarrow> (bool \<times> string) option" where
  "drop_zone ac overSlot =
     (if length ac < 5
      then (let hl = (overSlot = Some (length ac))
            in Some (hl, if hl then drop_here_text else drag_here_text))
      else None)"

section \<open>The whole overlay\<close>

text \<open>The Save button's content: the success mark, the spinner while saving, the
  default label otherwise.\<close>

definition save_label :: "edit_state \<Rightarrow> string" where
  "save_label st =
     (if showSuccess st then ''Saved!'' else if isSaving st then ''Saving...'' else ''Save Configuration'')"

record overlay_view =
  ov_bubbles :: "bubble_view list"
  ov_chips :: "chip_view list"
  ov_touchPreview :: "(point \<times> string option) option"
  ov_rows :: "row_view list"
  ov_dropZone :: "(bool \<times> string) option"
  ov_counter :: string
  ov_saveLabel :: string
  ov_saveDisabled :: bool

definition overlay_render :: "bool \<Rightarrow> (field_id \<rightharpoonup> point) \<Rightarrow> edit_state \<Rightarrow> overlay_view" where
  "overlay_render isMobile positions st =
     \<lparr>ov_bubbles = (if isMobile then []
                    else desktop_bubbles initialDraggables (activeContainer st) positions (draggedItem st)),
      ov_chips = (if isMobile then mobile_chips initialDraggables (activeContainer st) (draggedItem st)
                  else []),
      ov_touchPreview = touch_preview initialDraggables st,
      ov_rows = preview_rows initialDraggables (activeContainer st) (draggedOverSlot st)
                  (isDraggingFromContainer st),
      ov_dropZone = drop_zone (activeContainer st) (draggedOverSlot st),
      ov_counter = js_nat_str (length (activeContainer st)) @ ''/5 selected'',
      ov_saveLabel = save_label st,
      ov_saveDisabled = isSaving st\<rparr>"

section \<open>Lemmas\<close>

lemma length_filter_key_le_1:
  "distinct (map f xs) \<Longrightarrow> length (filter (\<lambda>x. f x = k) xs) \<le> 1"
proof (induction xs)
  case (Cons x xs)
  then show ?case
    by (cases "f x = k") (auto simp: filter_empty_conv image_iff)
qed simp

lemma map_filter_all_Some:
  "\<forall>x\<in>set xs. f x \<noteq> None \<Longrightarrow> List.map_filter f xs = map (\<lambda>x. the (f x)) xs"
  by (induction xs) (auto simp: List.map_filter_def)

lemma desktop_bubbles_items:
  "map bv_item (desktop_bubbles ds ac pos d) = visibleBubbles ds ac"
  by (simp add: desktop_bubbles_def bubble_render_def visibleBubbles_def comp_def Let_def)

lemma desktop_bubbles_visible:
  "desktop_bubbles ds ac pos d =
     map (\<lambda>item. bubble_render item
            (case pos (info_id item) of Some p \<Rightarrow> p | None \<Rightarrow> \<lparr>px = 0, py = 0\<rparr>)
            (d = Some (info_id item)) (js_findIndex (\<lambda>x. info_id x = info_id item) ds))
       (visibleBubbles ds ac)"
  by (simp add: desktop_bubbles_def visibleBubbles_def Let_def)

lemma desktop_bubbles_targets:
  assumes "distinct (map info_id ds)"
  shows "map bv_target (desktop_bubbles ds ac (updatePositions ds ac m) d)
    = map (bubble_pos (bubble_radius m) (length (visibleBubbles ds ac))) [0..<length (visibleBubbles ds ac)]"
proof (rule nth_equalityI)
  fix i
  assume "i < length (map bv_target (desktop_bubbles ds ac (updatePositions ds ac m) d))"
  then have i: "i < length (visibleBubbles ds ac)"
    by (simp add: desktop_bubbles_visible)
  with updatePositions_nth [OF assms i, of m] show
    "map bv_target (desktop_bubbles ds ac (updatePositions ds ac m) d) ! i
      = map (bubble_pos (bubble_radius m) (length (visibleBubbles ds ac))) [0..<length (visibleBubbles ds ac)] ! i"
    by (simp add: desktop_bubbles_visible bubble_render_def)
qed (simp add: desktop_bubbles_visible)

lemma distinct_bubble_pos:
  assumes "r \<noteq> 0"
  shows "distinct (map (bubble_pos r n) [0..<n])"
proof -
  have "inj_on (bubble_pos r n) (set [0..<n])"
  proof (rule inj_onI)
    fix i j
    assume "i \<in> set [0..<n]" "j \<in> set [0..<n]" "bubble_pos r n i = bubble_pos r n j"
    then show "i = j" using bubble_pos_inj [OF assms] by simp
  qed
  then show ?thesis by (simp only: distinct_map distinct_upt)
qed

lemma desktop_bubbles_dragging:
  "distinct (map info_id ds) \<Longrightarrow> length (filter bv_dragging (desktop_bubbles ds ac pos d)) \<le> 1"
proof (cases d)
  case None
  then show ?thesis by (simp add: desktop_bubbles_def bubble_render_def Let_def)
next
  case (Some k)
  assume "distinct (map info_id ds)"
  then have "distinct (map info_id (filter (\<lambda>item. info_id item \<notin> set ac) ds))"
    by (simp add: distinct_map_filter)
  then have "length (filter (\<lambda>x. info_id x = k) (filter (\<lambda>item. info_id item \<notin> set ac) ds)) \<le> 1"
    by (rule length_filter_key_le_1)
  with Some show ?thesis
    by (simp add: desktop_bubbles_def bubble_render_def Let_def filter_map comp_def eq_commute)
qed

lemma map_map_filter_all_Some:
  "\<forall>x\<in>set xs. f x \<noteq> None \<Longrightarrow> map h (List.map_filter f xs) = map (\<lambda>x. h (the (f x))) xs"
  by (induction xs) (auto simp: List.map_filter_def)

lemma preview_rows_ids:
  assumes "set ac \<subseteq> set field_ids"
  shows "map rv_id (preview_rows initialDraggables ac os f) = ac"
proof -
  define g where "g = (\<lambda>(index, i). map_option (\<lambda>item. \<lparr>rv_index = index, rv_id = i, rv_item = item,
      rv_draggedOver = (os = Some index \<and> \<not> f)\<rparr>) (find_draggable initialDraggables i))"
  have snd: "snd ` set (enumerate 0 ac) = set ac"
    by (simp only: set_map [symmetric] map_snd_enumerate)
  have "\<forall>i\<in>set ac. find_draggable initialDraggables i \<noteq> None"
    using assms find_draggable_known by blast
  then have known: "\<forall>x\<in>set (enumerate 0 ac). find_draggable initialDraggables (snd x) \<noteq> None"
    using snd by blast
  then have "\<forall>x\<in>set (enumerate 0 ac). g x \<noteq> None"
    by (auto simp: g_def split: prod.split)
  then have "map rv_id (preview_rows initialDraggables ac os f) = map (\<lambda>x. rv_id (the (g x))) (enumerate 0 ac)"
    unfolding preview_rows_def g_def [symmetric] by (rule map_map_filter_all_Some)
  also have "\<dots> = map snd (enumerate 0 ac)"
    using known by (intro list.map_cong) (auto simp: g_def split: prod.split)
  finally show ?thesis by (simp only: map_snd_enumerate)
qed

lemma rows_highlight_count:
  "length (filter rv_draggedOver (List.map_filter (\<lambda>(index, i).
       map_option (\<lambda>item. \<lparr>rv_index = index, rv_id = i, rv_item = item,
                          rv_draggedOver = (os = Some index \<and> \<not> f)\<rparr>)
         (find_draggable ds i)) (enumerate n xs)))
   \<le> (case os of Some k \<Rightarrow> if n \<le> k \<and> k < n + length xs then 1 else 0 | None \<Rightarrow> 0)"
proof (induction xs arbitrary: n)
  case Nil
  then show ?case by (simp add: List.map_filter_simps split: option.split)
next
  case (Cons x xs)
  from Cons.IH [of "Suc n"] show ?case
    by (auto simp: List.map_filter_simps split: option.split option.split_asm if_splits)
qed

lemma drop_target_unique:
  "length (filter rv_draggedOver (preview_rows ds ac os f))
     + (case drop_zone ac os of Some (True, _) \<Rightarrow> 1 | _ \<Rightarrow> 0) \<le> (1::nat)"
  using rows_highlight_count [of os f ds 0 ac]
  by (cases os) (auto simp: preview_rows_def drop_zone_def Let_def split: if_splits bool.split)

lemma targets_on_circle:
  "map bv_target bs = map (bubble_pos r n) is \<Longrightarrow>
   list_all (\<lambda>b. px (bv_target b) ^ 2 + py (bv_target b) ^ 2 = r ^ 2) bs"
proof -
  assume eq: "map bv_target bs = map (bubble_pos r n) is"
  have "\<forall>b\<in>set bs. bv_target b \<in> set (map (bubble_pos r n) is)"
    unfolding eq [symmetric] by simp
  then show ?thesis by (auto simp: list_all_iff bubble_pos_norm)
qed

section \<open>Properties of the rendered overlay\<close>

text \<open>
  C36. The rendered overlay agrees with the layout and the assignment: in every reachable
  session, once the positions effect has run on the desktop, the circle shows exactly the
  unassigned fields in catalogue order, at pairwise distinct points of the 420-pixel
  circle (never the fallback centre), at most one of them marked as dragged; the preview
  container shows one row per assigned field, in order; and at most one drop target (a
  row or the drop zone) is highlighted.
\<close>

theorem overlay_render_consistent:
  assumes "edit_reach (dt, st)"
  shows "let v = overlay_render False
                   (positions_effect True initialDraggables (activeContainer st) False old) st
     in map bv_item (ov_bubbles v) = visibleBubbles initialDraggables (activeContainer st)
        \<and> distinct (map bv_target (ov_bubbles v))
        \<and> list_all (\<lambda>b. px (bv_target b) ^ 2 + py (bv_target b) ^ 2 = 420 ^ 2) (ov_bubbles v)
        \<and> length (filter bv_dragging (ov_bubbles v)) \<le> 1
        \<and> map rv_id (ov_rows v) = activeContainer st
        \<and> length (filter rv_draggedOver (ov_rows v))
            + (case ov_dropZone v of Some (True, _) \<Rightarrow> 1 | _ \<Rightarrow> 0) \<le> 1"
proof -
  let ?ac = "activeContainer st"
  let ?bs = "desktop_bubbles initialDraggables ?ac (updatePositions initialDraggables ?ac False) (draggedItem st)"
  have known: "set ?ac \<subseteq> set field_ids"
    using edit_reach_inv [OF assms] by (simp add: edit_inv_def ac_ok_def)
  have targets: "map bv_target ?bs = map (bubble_pos 420 (length (visibleBubbles initialDraggables ?ac)))
      [0..<length (visibleBubbles initialDraggables ?ac)]"
    using desktop_bubbles_targets [OF distinct_initial_ids, of ?ac False] by (simp add: bubble_radius_def)
  have "map bv_item ?bs = visibleBubbles initialDraggables ?ac"
    by (rule desktop_bubbles_items)
  moreover have "distinct (map bv_target ?bs)"
    unfolding targets by (rule distinct_bubble_pos) simp
  moreover have "list_all (\<lambda>b. px (bv_target b) ^ 2 + py (bv_target b) ^ 2 = 420 ^ 2) ?bs"
    using targets by (rule targets_on_circle)
  moreover have "length (filter bv_dragging ?bs) \<le> 1"
    by (rule desktop_bubbles_dragging [OF distinct_initial_ids])
  moreover have "map rv_id (preview_rows initialDraggables ?ac (draggedOverSlot st)
      (isDraggingFromContainer st)) = ?ac"
    using known by (rule preview_rows_ids)
  ultimately show ?thesis
    using drop_target_unique [of initialDraggables ?ac "draggedOverSlot st" "isDraggingFromContainer st"]
    by (simp add: overlay_render_def positions_effect_def Let_def)
qed

theorem overlay_render_consistent_witness:
  "let v = overlay_render False (positions_effect True initialDraggables defaultFields False Map.empty)
             (init_edit None)
   in map bv_item (ov_bubbles v) = visibleBubbles initialDraggables defaultFields
      \<and> distinct (map bv_target (ov_bubbles v))
      \<and> list_all (\<lambda>b. px (bv_target b) ^ 2 + py (bv_target b) ^ 2 = 420 ^ 2) (ov_bubbles v)
      \<and> length (filter bv_dragging (ov_bubbles v)) \<le> 1
      \<and> map rv_id (ov_rows v) = defaultFields
      \<and> length (filter rv_draggedOver (ov_rows v))
          + (case ov_dropZone v of Some (True, _) \<Rightarrow> 1 | _ \<Rightarrow> 0) \<le> 1"
  using overlay_render_consistent [OF edit_reach_default, of Map.empty]
  by (simp add: init_edit_def)

end
