(* ===== verification/Dispatch.thy ===== *)
theory Dispatch
  imports OverlayView
begin

text \<open>
  The event wiring of the rendered overlay: which DOM listener of which rendered element
  calls which handler of \<open>src/src/components/EditMode/index.tsx\<close>. The elements are the
  bubbles (\<open>DraggableBubble.tsx\<close>), the mobile chips (\<open>index.tsx\<close>), the rows and
  their remove buttons (\<open>ReorderableItem.tsx\<close>), the drop zone, the container and the
  reorder group (\<open>PreviewContainer.tsx\<close>). The theorems connect the view of
  \<open>OverlayView\<close> with the event model of \<open>Assignment\<close>: the rendered overlay delivers
  exactly the events \<^const>\<open>edit_enabled\<close> admits.
\<close>

section \<open>Rendered targets and DOM events\<close>

text \<open>\<open>TSlot k\<close>: an element whose drag-over, drag-leave and drop listeners pass slot
  \<open>k\<close> on (a row, or the drop zone after the rows); \<open>TContainer r\<close>: the preview
  container, whose bounding rectangle is \<open>r\<close>; \<open>TGroup n\<close>: the reorder group with its
  \<open>n\<close> rendered items.\<close>

datatype ui_target =
    TBubble field_id
  | TChip field_id
  | TSlot nat
  | TRemove field_id
  | TContainer rect
  | TGroup nat

text \<open>\<open>DDrop p\<close> at client point \<open>p\<close>; \<open>DTouchEnd b\<close> with \<open>b\<close> whether the element
  under the finger lies in the container; \<open>DReorder i j\<close>: the reorder group moves its
  \<open>i\<close>-th item to position \<open>j\<close>.\<close>

datatype dom_event =
    DDragStart | DDragEnd | DDragOver | DDragLeave | DDrop point | DClick
  | DTouchStart point | DTouchMove point | DTouchEnd bool | DReorder nat nat

text \<open>The bubble's listeners (\<open>DraggableBubble.tsx\<close>): \<open>onDragStart(e, item.id)\<close>,
  that is \<open>handleDragStart\<close> without \<open>fromContainer\<close>, and \<open>onDragEnd\<close>; its
  drag-over only calls \<open>preventDefault\<close>.\<close>

fun bubble_listener :: "field_id \<Rightarrow> dom_event \<Rightarrow> edit_event option" where
  "bubble_listener i DDragStart = Some (EvDragStart i False)"
| "bubble_listener i DDragEnd = Some EvDragEnd"
| "bubble_listener i d = None"

text \<open>A mobile chip (\<open>index.tsx\<close>): the same drag listeners and the inline touch
  listeners, whose bodies are \<^const>\<open>touchStartBubble\<close>, \<^const>\<open>touchMoveBubble\<close>
  and \<^const>\<open>touchEndBubble\<close> for the chip's item.\<close>

fun chip_listener :: "field_id \<Rightarrow> dom_event \<Rightarrow> edit_event option" where
  "chip_listener i DDragStart = Some (EvDragStart i False)"
| "chip_listener i DDragEnd = Some EvDragEnd"
| "chip_listener i (DTouchStart p) = Some (EvTouchStart i p)"
| "chip_listener i (DTouchMove p) = Some (EvTouchMove p)"
| "chip_listener i (DTouchEnd over) = Some (EvTouchEnd i over)"
| "chip_listener i d = None"

text \<open>A row, and the drop zone, with the slot it passes on (\<open>onDragOver(e, index)\<close>,
  \<open>onDragLeave\<close>, \<open>onSlotDrop(e, index)\<close>); \<open>handleDrop\<close> stops propagation, so
  the container's drop listener does not run after it.\<close>

fun slot_listener :: "nat \<Rightarrow> dom_event \<Rightarrow> edit_event option" where
  "slot_listener k DDragOver = Some (EvDragOver k)"
| "slot_listener k DDragLeave = Some EvDragLeave"
| "slot_listener k (DDrop p) = Some (EvSlotDrop k)"
| "slot_listener k d = None"

text \<open>The row's remove button: \<open>onClick={() => onRemove(id)}\<close>.\<close>

fun remove_listener :: "field_id \<Rightarrow> dom_event \<Rightarrow> edit_event option" where
  "remove_listener i DClick = Some (EvRemove i)"
| "remove_listener i d = None"

text \<open>The container: drag-over only prevents the default; its drop listener is
  \<open>handleBubbleDrop\<close>, with the container itself as \<open>containerRef.current\<close>.\<close>

fun container_listener :: "rect \<Rightarrow> dom_event \<Rightarrow> edit_event option" where
  "container_listener r (DDrop p) = Some (EvBubbleDrop p (Some r))"
| "container_listener r d = None"

text \<open>The reorder group moves one of its own \<open>n\<close> items to one of its positions and
  passes the new order to \<open>onReorder\<close> (the library's behaviour).\<close>

fun group_listener :: "nat \<Rightarrow> dom_event \<Rightarrow> edit_event option" where
  "group_listener n (DReorder i j) = (if i < n \<and> j < n then Some (EvReorder i j) else None)"
| "group_listener n d = None"

fun ui_dispatch :: "ui_target \<Rightarrow> dom_event \<Rightarrow> edit_event option" where
  "ui_dispatch (TBubble i) = bubble_listener i"
| "ui_dispatch (TChip i) = chip_listener i"
| "ui_dispatch (TSlot k) = slot_listener k"
| "ui_dispatch (TRemove i) = remove_listener i"
| "ui_dispatch (TContainer r) = container_listener r"
| "ui_dispatch (TGroup n) = group_listener n"

text \<open>The elements of one render with listeners: the bubbles or the chips, each row with
  its remove button, the drop zone while rendered (slot \<open>activeContainer.length\<close>), the
  container and the group.\<close>

definition ui_targets ::
  "bool \<Rightarrow> (field_id \<rightharpoonup> point) \<Rightarrow> rect \<Rightarrow> edit_state \<Rightarrow> ui_target list" where
  "ui_targets isMobile positions r st =
     (let v = overlay_render isMobile positions st
      in map (\<lambda>b. TBubble (info_id (bv_item b))) (ov_bubbles v)
         @ map (\<lambda>c. TChip (info_id (cv_item c))) (ov_chips v)
         @ concat (map (\<lambda>w. [TSlot (rv_index w), TRemove (rv_id w)]) (ov_rows v))
         @ (if ov_dropZone v = None then [] else [TSlot (length (activeContainer st))])
         @ [TContainer r, TGroup (length (ov_rows v))])"

text \<open>The events whose admission \<^const>\<open>edit_enabled\<close> restricts and which some element
  delivers in the given layout (touch events come only from the mobile chips).\<close>

fun guarded_event :: "bool \<Rightarrow> edit_event \<Rightarrow> bool" where
  "guarded_event isMobile (EvDragStart i fc) = True"
| "guarded_event isMobile (EvSlotDrop k) = True"
| "guarded_event isMobile (EvRemove i) = True"
| "guarded_event isMobile (EvReorder i j) = True"
| "guarded_event isMobile (EvTouchStart i p) = isMobile"
| "guarded_event isMobile e = False"

section \<open>Lemmas\<close>

lemma mobile_chips_items:
  "map cv_item (mobile_chips ds ac d) = visibleBubbles ds ac"
proof -
  have "map cv_item (mobile_chips ds ac d) = map snd (enumerate 0 (visibleBubbles ds ac))"
    by (simp add: mobile_chips_def visibleBubbles_def comp_def split_def)
  then show ?thesis by (simp only: map_snd_enumerate)
qed

lemma preview_rows_mem:
  "w \<in> set (preview_rows ds ac os f) \<Longrightarrow> rv_index w < length ac \<and> ac ! rv_index w = rv_id w"
  unfolding preview_rows_def
  by (drule in_set_map_filter) (auto simp: in_set_enumerate_eq)

lemma length_preview_rows: "length (preview_rows ds ac os f) \<le> length ac"
proof -
  have "length (List.map_filter g xs) \<le> length xs" for g :: "nat \<times> field_id \<Rightarrow> row_view option" and xs
    by (induction xs) (simp_all add: List.map_filter_simps split: option.split)
  from this [of _ "enumerate 0 ac"] show ?thesis by (simp add: preview_rows_def)
qed

text \<open>The rendered targets as a set, by the kind of element.\<close>

lemma set_ui_targets:
  "set (ui_targets isMobile positions r st) =
     (if isMobile then {} else (\<lambda>d. TBubble (info_id d)) ` set (visibleBubbles initialDraggables (activeContainer st)))
     \<union> (if isMobile then (\<lambda>d. TChip (info_id d)) ` set (visibleBubbles initialDraggables (activeContainer st)) else {})
     \<union> (\<lambda>w. TSlot (rv_index w)) ` set (preview_rows initialDraggables (activeContainer st)
            (draggedOverSlot st) (isDraggingFromContainer st))
     \<union> (\<lambda>w. TRemove (rv_id w)) ` set (preview_rows initialDraggables (activeContainer st)
            (draggedOverSlot st) (isDraggingFromContainer st))
     \<union> (if length (activeContainer st) < 5 then {TSlot (length (activeContainer st))} else {})
     \<union> {TContainer r, TGroup (length (preview_rows initialDraggables (activeContainer st)
            (draggedOverSlot st) (isDraggingFromContainer st)))}"
proof -
  let ?ds = "initialDraggables" and ?ac = "activeContainer st"
  have b: "(\<lambda>b. TBubble (info_id (bv_item b))) ` set (desktop_bubbles ?ds ?ac positions (draggedItem st))
      = (\<lambda>d. TBubble (info_id d)) ` set (visibleBubbles ?ds ?ac)"
  proof -
    have "bv_item ` set (desktop_bubbles ?ds ?ac positions (draggedItem st)) = set (visibleBubbles ?ds ?ac)"
      by (simp only: list.set_map [symmetric] desktop_bubbles_items)
    then show ?thesis by (metis image_image)
  qed
  have c: "(\<lambda>c. TChip (info_id (cv_item c))) ` set (mobile_chips ?ds ?ac (draggedItem st))
      = (\<lambda>d. TChip (info_id d)) ` set (visibleBubbles ?ds ?ac)"
  proof -
    have "cv_item ` set (mobile_chips ?ds ?ac (draggedItem st)) = set (visibleBubbles ?ds ?ac)"
      by (simp only: list.set_map [symmetric] mobile_chips_items)
    then show ?thesis by (metis image_image)
  qed
  have rows: "set (concat (map (\<lambda>w. [TSlot (rv_index w), TRemove (rv_id w)]) ws))
      = (\<lambda>w. TSlot (rv_index w)) ` set ws \<union> (\<lambda>w. TRemove (rv_id w)) ` set ws" for ws
    by auto
  show ?thesis
    using b c
    by (simp add: ui_targets_def overlay_render_def drop_zone_def Let_def rows Un_assoc del: set_concat)
qed

text \<open>With known identifiers every assigned field has its row, at its index.\<close>

lemma preview_rows_known:
  assumes "set ac \<subseteq> set field_ids"
  shows "map (\<lambda>w. (rv_index w, rv_id w)) (preview_rows initialDraggables ac os f) = enumerate 0 ac"
proof -
  have "\<forall>x\<in>set (enumerate 0 ac). snd x \<in> set ac"
    by (auto simp: in_set_enumerate_eq)
  then have "\<forall>x\<in>set (enumerate 0 ac). find_draggable initialDraggables (snd x) \<noteq> None"
    using assms find_draggable_known by blast
  then have "map (\<lambda>w. (rv_index w, rv_id w)) (preview_rows initialDraggables ac os f)
      = enumerate 0 ac"
    unfolding preview_rows_def
    by (subst map_map_filter_all_Some) (auto simp: split_def intro!: map_idI)
  then show ?thesis by simp
qed

lemma preview_rows_slot:
  assumes "set ac \<subseteq> set field_ids" and "k < length ac"
  shows "\<exists>w\<in>set (preview_rows initialDraggables ac os f). rv_index w = k \<and> rv_id w = ac ! k"
proof -
  have "(k, ac ! k) \<in> set (enumerate 0 ac)" using assms(2) by (simp add: in_set_enumerate_eq)
  then have "(k, ac ! k) \<in> (\<lambda>w. (rv_index w, rv_id w)) ` set (preview_rows initialDraggables ac os f)"
    by (simp only: preview_rows_known [OF assms(1)] list.set_map [symmetric])
  then show ?thesis by force
qed

lemma length_preview_rows_known:
  "set ac \<subseteq> set field_ids \<Longrightarrow> length (preview_rows initialDraggables ac os f) = length ac"
  using arg_cong [where f = length, OF preview_rows_known [of ac os f]] by simp

lemma ui_targets_memI:
  "\<not> isMobile \<Longrightarrow> x \<in> set (visibleBubbles initialDraggables (activeContainer st)) \<Longrightarrow>
   TBubble (info_id x) \<in> set (ui_targets isMobile positions r st)"
  "isMobile \<Longrightarrow> x \<in> set (visibleBubbles initialDraggables (activeContainer st)) \<Longrightarrow>
   TChip (info_id x) \<in> set (ui_targets isMobile positions r st)"
  "w \<in> set (preview_rows initialDraggables (activeContainer st) (draggedOverSlot st)
     (isDraggingFromContainer st)) \<Longrightarrow> TSlot (rv_index w) \<in> set (ui_targets isMobile positions r st)"
  "w \<in> set (preview_rows initialDraggables (activeContainer st) (draggedOverSlot st)
     (isDraggingFromContainer st)) \<Longrightarrow> TRemove (rv_id w) \<in> set (ui_targets isMobile positions r st)"
  "length (activeContainer st) < 5 \<Longrightarrow>
   TSlot (length (activeContainer st)) \<in> set (ui_targets isMobile positions r st)"
  "TGroup (length (preview_rows initialDraggables (activeContainer st) (draggedOverSlot st)
     (isDraggingFromContainer st))) \<in> set (ui_targets isMobile positions r st)"
  by (simp_all only: set_ui_targets) (simp_all add: image_eqI)

text \<open>Every event a rendered element delivers is one \<^const>\<open>edit_enabled\<close> admits, in
  every state of the overlay.\<close>

lemma ui_dispatch_sound:
  assumes "t \<in> set (ui_targets isMobile positions r st)" and "ui_dispatch t d = Some e"
  shows "edit_enabled e (dt, st)"
proof -
  let ?rows = "preview_rows initialDraggables (activeContainer st) (draggedOverSlot st)
                 (isDraggingFromContainer st)"
  have row: "w \<in> set ?rows \<Longrightarrow> rv_index w < length (activeContainer st)
      \<and> rv_id w \<in> set (activeContainer st)" for w
    using preview_rows_mem [of w] by (metis nth_mem)
  have len: "length ?rows \<le> length (activeContainer st)"
    by (rule length_preview_rows)
  show ?thesis
    using assms(1) unfolding set_ui_targets
  proof (elim UnE)
    assume "t \<in> (if isMobile then {} else (\<lambda>d. TBubble (info_id d))
               ` set (visibleBubbles initialDraggables (activeContainer st)))"
    then show ?thesis using assms(2) visible_ids
      by (cases d) (auto split: if_splits)
  next
    assume "t \<in> (if isMobile then (\<lambda>d. TChip (info_id d))
               ` set (visibleBubbles initialDraggables (activeContainer st)) else {})"
    then show ?thesis using assms(2) visible_ids
      by (cases d) (auto split: if_splits)
  next
    assume "t \<in> (\<lambda>w. TSlot (rv_index w)) ` set ?rows"
    then show ?thesis using assms(2) row
      by (cases d) (auto simp: slot_rendered_def)
  next
    assume "t \<in> (\<lambda>w. TRemove (rv_id w)) ` set ?rows"
    then show ?thesis using assms(2) row
      by (cases d) auto
  next
    assume "t \<in> (if length (activeContainer st) < 5 then {TSlot (length (activeContainer st))} else {})"
    then show ?thesis using assms(2)
      by (cases d) (auto simp: slot_rendered_def split: if_splits)
  next
    assume "t \<in> {TContainer r, TGroup (length ?rows)}"
    then show ?thesis using assms(2) len
      by (cases d) (auto split: if_splits)
  qed
qed

text \<open>Conversely, in a reachable session every admitted drag start, slot drop, removal and
  reorder, and on mobile every admitted touch start, is delivered by some rendered
  element.\<close>

lemma ui_dispatch_complete:
  assumes "edit_reach (dt, st)" and "guarded_event isMobile e" and "edit_enabled e (dt, st)"
  shows "\<exists>t d. t \<in> set (ui_targets isMobile positions r st) \<and> ui_dispatch t d = Some e"
proof -
  let ?ac = "activeContainer st"
  let ?T = "set (ui_targets isMobile positions r st)"
  let ?rows = "preview_rows initialDraggables ?ac (draggedOverSlot st) (isDraggingFromContainer st)"
  have known: "set ?ac \<subseteq> set field_ids"
    using edit_reach_inv [OF assms(1)] by (simp add: edit_inv_def ac_ok_def)
  have slot: "k < length ?ac \<Longrightarrow> \<exists>w\<in>set ?rows. rv_index w = k \<and> rv_id w = ?ac ! k" for k
    using preview_rows_slot [OF known] .
  have len: "length ?rows = length ?ac"
    using length_preview_rows_known [OF known] .
  show ?thesis
  proof (cases e)
    case (EvDragStart i fc)
    with assms(3) obtain x where x: "x \<in> set (visibleBubbles initialDraggables ?ac)" "info_id x = i"
      "\<not> fc" using visible_ids_ex by auto
    show ?thesis
    proof (cases isMobile)
      case True
      then have "TChip i \<in> ?T" using ui_targets_memI(2) [OF True x(1)] x(2) by simp
      with EvDragStart x(3) show ?thesis by (intro exI [of _ "TChip i"] exI [of _ DDragStart]) simp
    next
      case False
      then have "TBubble i \<in> ?T" using ui_targets_memI(1) [OF False x(1)] x(2) by simp
      with EvDragStart x(3) show ?thesis by (intro exI [of _ "TBubble i"] exI [of _ DDragStart]) simp
    qed
  next
    case (EvSlotDrop k)
    then have "k < length ?ac \<or> (k = length ?ac \<and> length ?ac < 5)"
      using assms(3) by (simp add: slot_rendered_def)
    then have "TSlot k \<in> ?T"
    proof (elim disjE)
      assume "k < length ?ac"
      then obtain w where "w \<in> set ?rows" "rv_index w = k" using slot by blast
      then show ?thesis using ui_targets_memI(3) [of w] by simp
    next
      assume "k = length ?ac \<and> length ?ac < 5"
      then show ?thesis using ui_targets_memI(5) [of st] by simp
    qed
    with EvSlotDrop show ?thesis
      by (intro exI [of _ "TSlot k"] exI [of _ "DDrop \<lparr>px = 0, py = 0\<rparr>"]) simp
  next
    case (EvRemove i)
    with assms(3) obtain k where k: "k < length ?ac" "?ac ! k = i"
      by (auto simp: in_set_conv_nth)
    then obtain w where "w \<in> set ?rows" "rv_id w = i" using slot by blast
    then have "TRemove i \<in> ?T" using ui_targets_memI(4) [of w] by simp
    with EvRemove show ?thesis
      by (intro exI [of _ "TRemove i"] exI [of _ DClick]) simp
  next
    case (EvReorder i j)
    have "TGroup (length ?rows) \<in> ?T" by (rule ui_targets_memI(6))
    with EvReorder assms(3) len show ?thesis
      by (intro exI [of _ "TGroup (length ?rows)"] exI [of _ "DReorder i j"]) simp
  next
    case (EvTouchStart i p)
    with assms(2,3) obtain x where x: "x \<in> set (visibleBubbles initialDraggables ?ac)" "info_id x = i"
      "isMobile" using visible_ids_ex by auto
    then have "TChip i \<in> ?T" using ui_targets_memI(2) [OF x(3) x(1)] by simp
    with EvTouchStart show ?thesis
      by (intro exI [of _ "TChip i"] exI [of _ "DTouchStart p"]) simp
  qed (use assms(2) in simp_all)
qed

section \<open>Properties of the event wiring\<close>

text \<open>
  C28. The rendered overlay delivers exactly the admitted events: in every reachable
  session, every event that a listener of a rendered element (bubble, chip, row, remove
  button, drop zone, container, reorder group) passes to a handler is admitted by
  \<^const>\<open>edit_enabled\<close>; and every admitted drag start, slot drop, removal and reorder
  (and on mobile every admitted touch start) is delivered by some rendered element.
\<close>

theorem overlay_delivers_enabled_events:
  assumes "edit_reach (dt, st)"
  shows "(t \<in> set (ui_targets isMobile positions r st) \<and> ui_dispatch t d = Some e
            \<longrightarrow> edit_enabled e (dt, st))
    \<and> (guarded_event isMobile e \<and> edit_enabled e (dt, st)
            \<longrightarrow> (\<exists>t' d'. t' \<in> set (ui_targets isMobile positions r st) \<and> ui_dispatch t' d' = Some e))"
  using ui_dispatch_sound [of t isMobile positions r st d e dt] ui_dispatch_complete [OF assms]
  by blast

theorem overlay_delivers_enabled_events_witness:
  "TRemove ''author'' \<in> set (ui_targets False Map.empty \<lparr>rleft = 0, rright = 500, rtop = 0, rbottom = 500\<rparr>
       (init_edit None))
   \<and> edit_enabled (EvRemove ''author'') (None, init_edit None)
   \<and> (\<exists>t' d'. t' \<in> set (ui_targets False Map.empty \<lparr>rleft = 0, rright = 500, rtop = 0, rbottom = 500\<rparr>
              (init_edit None))
         \<and> ui_dispatch t' d' = Some (EvDragStart ''discount'' False))"
proof -
  let ?r = "\<lparr>rleft = 0, rright = 500, rtop = 0, rbottom = 500\<rparr>"
  have mem: "TRemove ''author'' \<in> set (ui_targets False Map.empty ?r (init_edit None))"
    by (simp add: set_ui_targets init_edit_def defaultFields_def preview_rows_def
        find_draggable_def initialDraggables_def mk_info_def List.map_filter_simps image_iff)
  have en: "edit_enabled (EvDragStart ''discount'' False) (None, init_edit None)"
    by (simp add: init_edit_def defaultFields_def field_ids_unfold)
  have rm: "edit_enabled (EvRemove ''author'') (None, init_edit None)"
  proof (rule mp [OF conjunct1 [OF overlay_delivers_enabled_events [OF edit_reach_default,
        of "TRemove ''author''" False Map.empty ?r DClick "EvRemove ''author''"]]])
    show "TRemove ''author'' \<in> set (ui_targets False Map.empty ?r (init_edit None))
        \<and> ui_dispatch (TRemove ''author'') DClick = Some (EvRemove ''author'')"
      using mem by (simp only: ui_dispatch.simps remove_listener.simps simp_thms)
  qed
  have ds: "\<exists>t' d'. t' \<in> set (ui_targets False Map.empty ?r (init_edit None))
      \<and> ui_dispatch t' d' = Some (EvDragStart ''discount'' False)"
  proof (rule mp [OF conjunct2 [OF overlay_delivers_enabled_events [OF edit_reach_default,
        of "TContainer ?r" False Map.empty ?r DClick "EvDragStart ''discount'' False"]]])
    show "guarded_event False (EvDragStart ''discount'' False)
        \<and> edit_enabled (EvDragStart ''discount'' False) (None, init_edit None)"
      using en by (simp only: guarded_event.simps simp_thms)
  qed
  from mem rm ds show ?thesis by (intro conjI)
qed

end
