(* ===== verification/OverlayContent.thy ===== *)
theory OverlayContent
  imports OverlayView
begin

text \<open>
  The text content of the rendered overlay for the book being edited: the cover image
  and the border of the preview container (\<open>PreviewContainer.tsx\<close>), the
  \<open>label: value\<close> line of each row (\<open>ReorderableItem.tsx\<close>) and the value preview
  of each desktop bubble (\<open>DraggableBubble.tsx\<close>), all formatted by
  \<^const>\<open>formatValue\<close>. A formatter error raised while a component renders aborts the
  whole render, which is modelled as the error value of the render.
\<close>

section \<open>Rendering with errors\<close>

text \<open>Rendering a list of components: the first error raised is the result.\<close>

fun render_all :: "('e + 'a) list \<Rightarrow> 'e + 'a list" where
  "render_all [] = Inr []"
| "render_all (Inl e # rs) = Inl e"
| "render_all (Inr x # rs) = map_sum id (\<lambda>xs. x # xs) (render_all rs)"

section \<open>The preview container\<close>

text \<open>The container's cover image (\<open>src={book.coverArt}\<close>, \<open>alt={book.bookTitle}\<close>)
  and whether its dashed border has the brighter colour of an empty configuration
  (\<open>activeContainer.length === 0\<close>).\<close>

record container_view =
  pc_src :: string
  pc_alt :: string
  pc_emptyBorder :: bool

definition container_render :: "audio_book \<Rightarrow> field_id list \<Rightarrow> container_view" where
  "container_render book ac =
     \<lparr>pc_src = coverArt book, pc_alt = bookTitle book, pc_emptyBorder = (length ac = 0)\<rparr>"

section \<open>The content of one render\<close>

text \<open>The container, the text of every row, and the value preview of every desktop
  bubble (\<open>None\<close> unless the bubble is dragged and the preview is on).\<close>

definition overlay_content ::
  "js_host \<Rightarrow> audio_book \<Rightarrow> bool \<Rightarrow> (field_id \<rightharpoonup> point) \<Rightarrow> edit_state
     \<Rightarrow> js_error + (container_view \<times> string list \<times> string option list)" where
  "overlay_content h book isMobile positions st =
     (let v = overlay_render isMobile positions st
      in case render_all (map (\<lambda>w. row_text h book (rv_item w)) (ov_rows v)) of
           Inl e \<Rightarrow> Inl e
         | Inr rows \<Rightarrow>
             (case render_all (map (\<lambda>bv. bubble_preview h book (bv_item bv) (bv_dragging bv)
                                         (showPreview st)) (ov_bubbles v)) of
                Inl e \<Rightarrow> Inl e
              | Inr previews \<Rightarrow> Inr (container_render book (activeContainer st), rows, previews)))"

section \<open>Lemmas\<close>

lemma render_all_isl: "isl (render_all rs) \<longleftrightarrow> (\<exists>r\<in>set rs. isl r)"
  by (induction rs rule: render_all.induct) (auto simp: isl_map_sum)

lemma render_all_Inr: "render_all rs = Inr xs \<Longrightarrow> xs = map projr rs"
  by (induction rs arbitrary: xs rule: render_all.induct) (auto simp: map_sum_def split: sum.splits)

lemma overlay_content_isl:
  "isl (overlay_content h book isMobile positions st) \<longleftrightarrow>
     (\<exists>w\<in>set (ov_rows (overlay_render isMobile positions st)). isl (row_text h book (rv_item w)))
     \<or> (\<exists>bv\<in>set (ov_bubbles (overlay_render isMobile positions st)).
          isl (bubble_preview h book (bv_item bv) (bv_dragging bv) (showPreview st)))"
proof -
  have seq: "isl (case A of Inl e \<Rightarrow> Inl e | Inr x \<Rightarrow>
      (case B of Inl e \<Rightarrow> Inl e | Inr y \<Rightarrow> Inr (f x y))) \<longleftrightarrow> isl A \<or> isl B"
    for A :: "'e + 'a" and B :: "'e + 'b" and f :: "'a \<Rightarrow> 'b \<Rightarrow> 'c"
    by (cases A; cases B) simp_all
  show ?thesis
    unfolding overlay_content_def Let_def seq render_all_isl by simp
qed

text \<open>The only formatter error: a negative rating.\<close>

lemma formatValue_book_isl:
  "isl (formatValue h i (book_field b i)) \<longleftrightarrow> i = ''ratingStar'' \<and> ratingStar b < 0"
  by (simp add: formatValue_def js_repeat_floor)

lemma row_text_isl:
  "isl (row_text h b item) \<longleftrightarrow> info_id item = ''ratingStar'' \<and> ratingStar b < 0"
  by (simp add: row_text_def isl_map_sum formatValue_book_isl)

lemma bubble_preview_isl:
  "isl (bubble_preview h b item dr sp) \<longleftrightarrow> sp \<and> dr \<and> info_id item = ''ratingStar'' \<and> ratingStar b < 0"
  by (auto simp: bubble_preview_def isl_map_sum formatValue_book_isl)

text \<open>A row raises exactly for the rating, and with known identifiers there is a row for
  every assigned field.\<close>

lemma rows_fail_iff:
  assumes "set ac \<subseteq> set field_ids"
  shows "(\<exists>w\<in>set (preview_rows initialDraggables ac os f). isl (row_text h b (rv_item w)))
    \<longleftrightarrow> ''ratingStar'' \<in> set ac \<and> ratingStar b < 0"
proof -
  let ?rows = "preview_rows initialDraggables ac os f"
  have item: "info_id (rv_item w) = rv_id w" if "w \<in> set ?rows" for w
  proof -
    from that obtain x where "x \<in> set (enumerate 0 ac)"
      "map_option (\<lambda>item. \<lparr>rv_index = fst x, rv_id = snd x, rv_item = item,
          rv_draggedOver = (os = Some (fst x) \<and> \<not> f)\<rparr>) (find_draggable initialDraggables (snd x))
        = Some w"
      unfolding preview_rows_def by (auto dest!: in_set_map_filter simp: split_def)
    then show ?thesis by (auto dest: find_draggable_Some)
  qed
  have ids: "rv_id ` set ?rows = set ac"
    using arg_cong [where f = set, OF preview_rows_ids [OF assms, of os f]] by simp
  have "(\<exists>w\<in>set ?rows. isl (row_text h b (rv_item w)))
      \<longleftrightarrow> (\<exists>w\<in>set ?rows. rv_id w = ''ratingStar'') \<and> ratingStar b < 0"
    using item by (auto simp: row_text_isl)
  also have "\<dots> \<longleftrightarrow> ''ratingStar'' \<in> set ac \<and> ratingStar b < 0"
    using ids by force
  finally show ?thesis .
qed

text \<open>A desktop bubble raises exactly when it is the dragged rating with the preview on.\<close>

lemma bubbles_fail_iff:
  "(\<exists>bv\<in>set (desktop_bubbles initialDraggables ac pos d).
      isl (bubble_preview h b (bv_item bv) (bv_dragging bv) sp))
    \<longleftrightarrow> sp \<and> d = Some ''ratingStar'' \<and> ''ratingStar'' \<notin> set ac \<and> ratingStar b < 0"
proof -
  have rs: "''ratingStar'' \<in> set field_ids" by (simp add: field_ids_unfold)
  have "(\<exists>bv\<in>set (desktop_bubbles initialDraggables ac pos d).
      isl (bubble_preview h b (bv_item bv) (bv_dragging bv) sp))
    \<longleftrightarrow> sp \<and> d = Some ''ratingStar'' \<and> ratingStar b < 0
        \<and> (\<exists>item\<in>set (visibleBubbles initialDraggables ac). info_id item = ''ratingStar'')"
    by (auto simp: desktop_bubbles_visible bubble_render_def bubble_preview_isl) metis
  also have "\<dots> \<longleftrightarrow> sp \<and> d = Some ''ratingStar'' \<and> ''ratingStar'' \<notin> set ac \<and> ratingStar b < 0"
  proof -
    have "(\<exists>item\<in>set (visibleBubbles initialDraggables ac). info_id item = ''ratingStar'')
        \<longleftrightarrow> ''ratingStar'' \<notin> set ac"
      using visible_ids_ex [OF rs, of ac] by (auto dest: visible_ids)
    then show ?thesis by blast
  qed
  finally show ?thesis .
qed

section \<open>Properties of the rendered content\<close>

text \<open>
  C18. A negative rating crashes the overlay exactly when the rating is on screen as a
  value: in every reachable session the render of the overlay's content raises
  \<open>RangeError\<close> if and only if the book's rating is negative and either the rating row is
  assigned or, on the desktop, the rating bubble is being dragged with the preview on.
\<close>

theorem overlay_content_fails_iff:
  assumes "edit_reach (dt, st)"
  shows "isl (overlay_content h b isMobile positions st) \<longleftrightarrow>
    ratingStar b < 0 \<and> (''ratingStar'' \<in> set (activeContainer st)
      \<or> (\<not> isMobile \<and> showPreview st \<and> draggedItem st = Some ''ratingStar''))"
proof -
  have known: "set (activeContainer st) \<subseteq> set field_ids"
    using edit_reach_inv [OF assms] by (simp add: edit_inv_def ac_ok_def)
  show ?thesis
    using rows_fail_iff [OF known, of "draggedOverSlot st" "isDraggingFromContainer st" h b]
      bubbles_fail_iff [of "activeContainer st" positions "draggedItem st" h b "showPreview st"]
    by (auto simp: overlay_content_isl overlay_render_def)
qed

theorem overlay_content_fails_iff_witness:
  "isl (overlay_content \<lparr>numberToString = \<lambda>r. [], stringToNumber = \<lambda>s. None\<rparr>
     \<lparr>coverArt = ''cover.jpg'', bookTitle = ''T'', bookSubtitle = ''S'', ratingStar = -1,
      numberOfReviews = ''0'', bookCashPrice = 10, discount = ''-'', author = ''A'', narrator = ''N'',
      bookLength = ''1h'', releaseDate = ''2024'', language = ''en'', publisher = ''P'',
      category = ''C'', aiSummary = ''-'', aiReview = ''-'', topicTags = ''t''\<rparr>
     False Map.empty (init_edit None))"
  using overlay_content_fails_iff [OF edit_reach_default, of "\<lparr>numberToString = \<lambda>r. [], stringToNumber = \<lambda>s. None\<rparr>"
      "\<lparr>coverArt = ''cover.jpg'', bookTitle = ''T'', bookSubtitle = ''S'', ratingStar = -1,
      numberOfReviews = ''0'', bookCashPrice = 10, discount = ''-'', author = ''A'', narrator = ''N'',
      bookLength = ''1h'', releaseDate = ''2024'', language = ''en'', publisher = ''P'',
      category = ''C'', aiSummary = ''-'', aiReview = ''-'', topicTags = ''t''\<rparr>" False Map.empty]
  by (simp add: init_edit_def defaultFields_def)

end
