(* ===== verification/PageDispatch.thy ===== *)
theory PageDispatch
  imports AppModel Dispatch
begin

text \<open>
  The event wiring of the whole page (\<open>src/src/components/Carousel.tsx\<close> with the
  overlay of \<open>src/src/components/EditMode/index.tsx\<close>): which control of the rendered
  page delivers which event of \<^typ>\<open>app_event\<close>. While the overlay is mounted it covers
  the page for the pointer (\<open>fixed inset-0 z-50\<close>, later in the document than the
  carousel's controls), so the swipe area receives no touch; nothing traps the keyboard
  focus, though, so the Edit and arrow buttons behind it stay reachable by Tab and are
  activated by Enter or Space, which the browser delivers as a click. The window's key
  listener and the covers' load events remain as well. The theorem shows that the page
  delivers only events \<^const>\<open>app_enabled\<close> admits.
\<close>

section \<open>Controls and their listeners\<close>

text \<open>\<open>PCover t\<close>: the cover image of the card showing the book titled \<open>t\<close>;
  \<open>PSwipeArea\<close>: the element \<open>carouselRef\<close> the swipe hook listens on;
  \<open>PSave d\<close>: the Save button, disabled when \<open>d\<close>; \<open>POverlay t\<close>: an element of the
  overlay's drag-and-drop surface.\<close>

datatype page_target =
    PEdit | PPrev | PNext | PCover string | PSwipeArea | PWindow
  | PClose | PSave bool | POverlay ui_target

text \<open>\<open>PSwipe d\<close>: the swipe hook's \<open>touchend\<close> decided \<open>d\<close>.\<close>

datatype page_event = PClick | PKeyDown string | PLoad | PSwipe "swipe_dir option" | PDom dom_event

text \<open>The Edit button: \<open>onClick={() => setIsEditMode(true)}\<close>.\<close>

fun edit_button_listener :: "page_event \<Rightarrow> app_event option" where
  "edit_button_listener PClick = Some AEditClick"
| "edit_button_listener e = None"

text \<open>The arrow buttons: \<open>onClick={prevSlide}\<close> and \<open>onClick={nextSlide}\<close>.\<close>

fun prev_button_listener :: "page_event \<Rightarrow> app_event option" where
  "prev_button_listener PClick = Some (ANav NavPrev)"
| "prev_button_listener e = None"

fun next_button_listener :: "page_event \<Rightarrow> app_event option" where
  "next_button_listener PClick = Some (ANav NavNext)"
| "next_button_listener e = None"

text \<open>A cover: \<open>onLoad={() => handleImageLoad(book.bookTitle)}\<close>.\<close>

fun cover_listener :: "string \<Rightarrow> page_event \<Rightarrow> app_event option" where
  "cover_listener t PLoad = Some (AImageLoad t)"
| "cover_listener t e = None"

text \<open>The overlay's close button (\<open>onClick={onClose}\<close>) and Save button
  (\<open>onClick={handleSaveConfiguration}\<close>, \<open>disabled={isSaving}\<close>: a disabled button
  fires no click).\<close>

fun close_button_listener :: "page_event \<Rightarrow> app_event option" where
  "close_button_listener PClick = Some ACloseClick"
| "close_button_listener e = None"

fun save_button_listener :: "bool \<Rightarrow> page_event \<Rightarrow> app_event option" where
  "save_button_listener disabled PClick = (if disabled then None else Some ASaveClick)"
| "save_button_listener disabled e = None"

fun page_dispatch :: "page_target \<Rightarrow> page_event \<Rightarrow> app_event option" where
  "page_dispatch PEdit e = edit_button_listener e"
| "page_dispatch PPrev e = prev_button_listener e"
| "page_dispatch PNext e = next_button_listener e"
| "page_dispatch (PCover t) e = cover_listener t e"
| "page_dispatch PSwipeArea (PSwipe d) = Some (ANav (NavSwipe d))"
| "page_dispatch PWindow (PKeyDown k) = Some (ANav (NavKey k))"
| "page_dispatch PClose e = close_button_listener e"
| "page_dispatch (PSave d) e = save_button_listener d e"
| "page_dispatch (POverlay t) (PDom d) = map_option AEdit (ui_dispatch t d)"
| "page_dispatch t e = None"

text \<open>The controls the user can reach in a state: the covers of the cards (titles
  \<open>titles\<close>), the window and the carousel's buttons (by pointer or by keyboard) always;
  the swipe area while no overlay is mounted, the overlay's controls otherwise.\<close>

definition page_targets ::
  "bool \<Rightarrow> (field_id \<rightharpoonup> point) \<Rightarrow> rect \<Rightarrow> string list \<Rightarrow> app_state \<Rightarrow> page_target list" where
  "page_targets isMobile positions r titles a =
     map PCover titles @ [PWindow, PEdit, PPrev, PNext]
     @ (case overlay a of
          None \<Rightarrow> [PSwipeArea]
        | Some (k, (dt, st)) \<Rightarrow>
            [PClose, PSave (ov_saveDisabled (overlay_render isMobile positions st))]
            @ map POverlay (ui_targets isMobile positions r st))"

text \<open>The events of the page's own controls (the overlay's drag-and-drop surface is the
  subject of \<open>Dispatch\<close>, the timers are not controls).\<close>

fun page_control_event :: "app_event \<Rightarrow> bool" where
  "page_control_event AEditClick = True"
| "page_control_event ACloseClick = True"
| "page_control_event ASaveClick = True"
| "page_control_event (ANav e) = True"
| "page_control_event e = False"

section \<open>The page delivers exactly the admitted events\<close>

lemma set_page_targets:
  "set (page_targets isMobile positions r titles a) =
     PCover ` set titles \<union> {PWindow, PEdit, PPrev, PNext}
     \<union> (case overlay a of
          None \<Rightarrow> {PSwipeArea}
        | Some (k, (dt, st)) \<Rightarrow>
            {PClose, PSave (isSaving st)} \<union> POverlay ` set (ui_targets isMobile positions r st))"
  by (auto simp: page_targets_def overlay_render_def split: option.splits)

lemma page_dispatch_sound:
  assumes "t \<in> set (page_targets isMobile positions r titles a)" and "page_dispatch t e = Some ev"
  shows "app_enabled ev a"
proof (cases "overlay a")
  case None
  with assms(1) have "t \<in> PCover ` set titles \<union> {PWindow, PEdit, PPrev, PNext, PSwipeArea}"
    by (auto simp: set_page_targets)
  with assms(2) None show ?thesis
    by (cases e) (auto split: if_splits)
next
  case (Some o')
  then obtain k dt st where ov: "overlay a = Some (k, (dt, st))" by (cases o') auto
  with assms(1) have t: "t \<in> PCover ` set titles \<union> {PWindow, PEdit, PPrev, PNext, PClose,
      PSave (isSaving st)}
      \<union> POverlay ` set (ui_targets isMobile positions r st)"
    by (auto simp: set_page_targets)
  show ?thesis
  proof (cases "t \<in> POverlay ` set (ui_targets isMobile positions r st)")
    case True
    then obtain u where u: "u \<in> set (ui_targets isMobile positions r st)" "t = POverlay u" by blast
    with assms(2) obtain d ev' where "e = PDom d" "ui_dispatch u d = Some ev'" "ev = AEdit ev'"
      by (cases e) auto
    with u have "edit_enabled ev' (dt, st)" by (intro ui_dispatch_sound)
    with ov \<open>ev = AEdit ev'\<close> show ?thesis by simp
  next
    case False
    with t have "t \<in> PCover ` set titles \<union> {PWindow, PEdit, PPrev, PNext, PClose,
      PSave (isSaving st)}" by blast
    with assms(2) ov show ?thesis
      by (cases e) (auto split: if_splits)
  qed
qed

lemma page_dispatch_complete:
  assumes "app_enabled ev a" and "page_control_event ev"
  shows "\<exists>t e. t \<in> set (page_targets isMobile positions r titles a) \<and> page_dispatch t e = Some ev"
proof (cases "overlay a")
  case None
  show ?thesis
  proof (cases ev)
    case AEditClick
    with None show ?thesis by (intro exI [of _ PEdit] exI [of _ PClick]) (simp add: set_page_targets)
  next
    case (ANav n)
    show ?thesis
    proof (cases n)
      case NavNext
      with None ANav show ?thesis by (intro exI [of _ PNext] exI [of _ PClick]) (simp add: set_page_targets)
    next
      case NavPrev
      with None ANav show ?thesis by (intro exI [of _ PPrev] exI [of _ PClick]) (simp add: set_page_targets)
    next
      case (NavKey k)
      with ANav show ?thesis
        by (intro exI [of _ PWindow] exI [of _ "PKeyDown k"]) (simp add: set_page_targets)
    next
      case (NavSwipe d)
      with None ANav show ?thesis
        by (intro exI [of _ PSwipeArea] exI [of _ "PSwipe d"]) (simp add: set_page_targets)
    qed
  qed (use assms None in auto)
next
  case (Some o')
  then obtain k dt st where ov: "overlay a = Some (k, (dt, st))" by (cases o') auto
  show ?thesis
  proof (cases ev)
    case ACloseClick
    with ov show ?thesis by (intro exI [of _ PClose] exI [of _ PClick]) (simp add: set_page_targets)
  next
    case ASaveClick
    with assms(1) ov have "\<not> isSaving st" by simp
    with ASaveClick ov show ?thesis
      by (intro exI [of _ "PSave False"] exI [of _ PClick]) (simp add: set_page_targets)
  next
    case AEditClick
    then show ?thesis by (intro exI [of _ PEdit] exI [of _ PClick]) (simp add: set_page_targets)
  next
    case (ANav n)
    show ?thesis
    proof (cases n)
      case NavNext
      with ANav show ?thesis by (intro exI [of _ PNext] exI [of _ PClick]) (simp add: set_page_targets)
    next
      case NavPrev
      with ANav show ?thesis by (intro exI [of _ PPrev] exI [of _ PClick]) (simp add: set_page_targets)
    next
      case (NavKey k')
      with ANav show ?thesis
        by (intro exI [of _ PWindow] exI [of _ "PKeyDown k'"]) (simp add: set_page_targets)
    next
      case (NavSwipe d)
      with assms(1) ov ANav show ?thesis by simp
    qed
  qed (use assms ov in auto)
qed

section \<open>Properties of the page wiring\<close>

text \<open>
  C13. The page delivers exactly the events the model admits: every event a reachable
  control of the page passes on (Edit, the arrow buttons, the swipe area, the window's key
  listener, the covers, the overlay's Close and Save buttons and its drag-and-drop surface)
  is admitted by \<^const>\<open>app_enabled\<close>, and every admitted click, Save, close and
  navigation event is delivered by some control. With no focus trap in the overlay, the
  carousel's Edit and arrow buttons stay reachable by the keyboard while it is mounted;
  only the swipe gesture is out of reach.
\<close>

theorem page_delivers_enabled_events:
  "(t \<in> set (page_targets isMobile positions r titles a) \<and> page_dispatch t e = Some ev
      \<longrightarrow> app_enabled ev a)
   \<and> (app_enabled ev a \<and> page_control_event ev
      \<longrightarrow> (\<exists>t' e'. t' \<in> set (page_targets isMobile positions r titles a)
                   \<and> page_dispatch t' e' = Some ev))"
  using page_dispatch_sound [of t isMobile positions r titles a e ev]
    page_dispatch_complete [of ev a isMobile positions r titles]
  by blast

theorem page_delivers_enabled_events_witness:
  "app_enabled ASaveClick (app_run 3 [AEditClick] app_init)
   \<and> (\<exists>t' e'. t' \<in> set (page_targets False Map.empty \<lparr>rleft = 0, rright = 1, rtop = 0, rbottom = 1\<rparr>
                 [] (app_run 3 [AEditClick] app_init))
       \<and> page_dispatch t' e' = Some ACloseClick)"
proof -
  let ?a = "app_run 3 [AEditClick] app_init"
  let ?r = "\<lparr>rleft = 0, rright = 1, rtop = 0, rbottom = 1\<rparr>"
  have ov: "overlay ?a = Some (0, None, init_edit (Some (activeInfoFields carousel_init)))"
    by (simp add: app_run_def app_init_def)
  have mem: "PSave False \<in> set (page_targets False Map.empty ?r [] ?a)"
    using ov by (simp add: set_page_targets init_edit_def)
  have s: "app_enabled ASaveClick ?a"
    using conjunct1 [OF page_delivers_enabled_events [of "PSave False" False Map.empty ?r "[]" ?a
        PClick ASaveClick]] mem by simp
  have en: "app_enabled ACloseClick ?a" using ov by simp
  have c: "\<exists>t' e'. t' \<in> set (page_targets False Map.empty ?r [] ?a) \<and> page_dispatch t' e' = Some ACloseClick"
    using conjunct2 [OF page_delivers_enabled_events [of t False Map.empty ?r "[]" ?a e ACloseClick]] en
    by simp
  from s c show ?thesis by (intro conjI)
qed

end
