(* ===== verification/CarouselView.thy ===== *)
theory CarouselView
  imports Format
begin

text \<open>
  What the carousel renders for its window (\<open>src/src/components/Carousel.tsx\<close>, the
  \<open>visibleBooks.map\<close> of the render): for each visible book a card with its React key,
  its stacking order, the horizontal start of its entrance and end of its exit animation
  (none under reduced motion), its animation target, whether the cover skeleton is shown
  and the cover's opacity, and for the centre card the formatted rows of its fields. The
  book list is a parameter; the model reads \<open>books[index]\<close> for the indices
  \<^const>\<open>visibleBooks\<close> computes, which lie in range for a non-empty list.
\<close>

section \<open>Cards\<close>

record card_view =
  cd_key :: string
  cd_offset :: int
  cd_center :: bool
  cd_zIndex :: nat
  cd_enterX :: "real option"
  cd_exitX :: "real option"
  cd_scale :: real
  cd_opacity :: real
  cd_x :: real
  cd_rotateY :: real
  cd_blur :: real
  cd_skeleton :: bool
  cd_imageOpacity :: real
  cd_fields :: "card_node list list option"

definition card_render ::
  "js_host \<Rightarrow> bool \<Rightarrow> bool \<Rightarrow> carousel_state \<Rightarrow> audio_book \<Rightarrow> int \<Rightarrow> card_view" where
  "card_render h isMobile prefersReducedMotion st book offset =
     (let isCenter = (offset = 0)
      in \<lparr>cd_key = bookTitle book, cd_offset = offset, cd_center = isCenter,
          cd_zIndex = (if isCenter then 30 else 20),
          cd_enterX = (if prefersReducedMotion then None
                       else Some (if 0 \<le> direction st then 600 else -600)),
          cd_exitX = (if prefersReducedMotion then None
                      else Some (if 0 \<le> direction st then -600 else 600)),
          cd_scale = card_scale offset, cd_opacity = card_opacity offset,
          cd_x = card_x isMobile offset, cd_rotateY = of_int offset * -12,
          cd_blur = card_blur offset,
          cd_skeleton = (bookTitle book \<notin> loadedImages st),
          cd_imageOpacity = (if bookTitle book \<in> loadedImages st then 1 else 0),
          cd_fields = (if isCenter
                       then Some (map (card_row_content h book) (renderCenterFields (activeInfoFields st)))
                       else None)\<rparr>)"

definition carousel_cards ::
  "js_host \<Rightarrow> bool \<Rightarrow> bool \<Rightarrow> audio_book list \<Rightarrow> carousel_state \<Rightarrow> card_view list" where
  "carousel_cards h isMobile prefersReducedMotion books st =
     map (\<lambda>(index, offset). card_render h isMobile prefersReducedMotion st (books ! nat index) offset)
       (visibleBooks isMobile (length books) st)"

section \<open>Lemmas\<close>

lemma window_offsets_center: "filter (\<lambda>x. x = 0) (window_offsets m) = [0]"
  by (simp add: window_offsets_def)

text \<open>Exactly one card is the centre card, and it shows the current book with its
  configured rows.\<close>

lemma carousel_cards_center:
  assumes "0 \<le> currentIndex st" and "currentIndex st < int (length books)"
  shows "filter cd_center (carousel_cards h m r books st)
    = [card_render h m r st (books ! nat (currentIndex st)) 0]"
proof -
  let ?N = "int (length books)"
  have N: "0 < ?N" using assms by linarith
  have "js_rem (currentIndex st + 0 + ?N) ?N = (currentIndex st + ?N) mod ?N"
    using assms(1) N by (simp add: js_rem_nonneg)
  also have "\<dots> = currentIndex st"
    using assms by simp
  finally have "js_rem (currentIndex st + 0 + ?N) ?N = currentIndex st" .
  then show ?thesis
    by (simp add: carousel_cards_def visibleBooks_def window_offsets_def card_render_def Let_def)
qed

text \<open>Navigation decides the side the cards enter from and leave to: after moving to the
  next book new cards come in from the right and old ones leave to the left, and the
  reverse after moving back.\<close>

lemma cards_after_next:
  "c \<in> set (carousel_cards h m False books (nextSlide n st)) \<Longrightarrow>
   cd_enterX c = Some 600 \<and> cd_exitX c = Some (-600)"
  by (auto simp: carousel_cards_def card_render_def nextSlide_def Let_def)

lemma cards_after_prev:
  "c \<in> set (carousel_cards h m False books (prevSlide n st)) \<Longrightarrow>
   cd_enterX c = Some (-600) \<and> cd_exitX c = Some 600"
  by (auto simp: carousel_cards_def card_render_def prevSlide_def Let_def)

text \<open>A cover is shown exactly when an image of its title has loaded; the load state is
  keyed by title, so books sharing a title share it.\<close>

lemma card_cover_loaded:
  "cd_skeleton (card_render h m r st b off) \<longleftrightarrow> cd_imageOpacity (card_render h m r st b off) = 0"
  "\<not> cd_skeleton (card_render h m r (handleImageLoad (bookTitle b) st) b off)"
  by (simp_all add: card_render_def handleImageLoad_def Let_def)

end
