(* ===== verification/Spec2Isabelle.thy ===== *)
theory Spec2Isabelle
  imports AppModel Layout Format RowHover Dispatch OverlayContent PageDispatch CarouselView
begin

text \<open>
  \<^bold>\<open>A verification development for the audiobook carousel with its field editor\<close>
  (repository Carolllmy/testzerozeroone, TypeScript/React, sources under \<open>src/src/\<close>).

  \<^bold>\<open>The program.\<close> \<open>App.tsx\<close> mounts one \<open>Carousel\<close> (\<open>components/Carousel.tsx\<close>).
  The carousel keeps the index of the centre book, a direction flag, the set of loaded
  cover images and the list of fields shown on the centre card (\<open>activeInfoFields\<close>); it
  moves on arrow buttons, arrow keys and horizontal swipes (\<open>hooks/useSwipeGesture.ts\<close>),
  renders a window of neighbouring books, and renders the centre card's fields with a
  fixed pairing rule (price beside discount, review count beside stars). Its Edit button
  mounts the edit overlay (\<open>components/EditMode/index.tsx\<close>) on the current field list.
  The overlay keeps the ordered list of assigned field identifiers
  (\<open>activeContainer\<close>), the drag bookkeeping and the save flags; unassigned fields are
  bubbles on a circle (\<open>DraggableBubble.tsx\<close>, positions computed in \<open>index.tsx\<close>) or
  chips on mobile; assigned fields are rows of \<open>PreviewContainer.tsx\<close>
  (\<open>ReorderableItem.tsx\<close>). Dragging a bubble onto a row slot inserts it there, onto
  the container appends it, a row's button removes it, the rows reorder by the library's
  reorder group. Saving waits 400 ms, looks the identifiers up in the field catalogue
  (\<open>EditMode/constants.ts\<close>), waits 600 ms more and hands the list back to the carousel.

  \<^bold>\<open>The library.\<close>
  \<^item> \<open>Prelude\<close>: the JavaScript built-ins the code calls (\<open>splice\<close>, \<open>pop\<close>,
    \<open>findIndex\<close>, the truncating \<open>%\<close>, boolean \<open>toString\<close>) and their lemmas, shared by
    all components; the \<open>named_theorems\<close> collections.
  \<^item> \<open>Catalogue\<close>: \<open>types.ts\<close> (records \<^typ>\<open>audio_book\<close>, \<^typ>\<open>draggable_info\<close>)
    and \<open>constants.ts\<close> (\<^const>\<open>initialDraggables\<close>, \<^const>\<open>defaultFields\<close>), the
    lookup \<^const>\<open>find_draggable\<close>.
  \<^item> \<open>Assignment\<close>: the overlay's state (record \<^typ>\<open>edit_state\<close>, one field per
    state hook) and one definition per handler: \<^const>\<open>handleDragStart\<close>,
    \<^const>\<open>handleDragEnd\<close>, \<^const>\<open>handleDragOver\<close>, \<^const>\<open>handleDragLeave\<close>,
    \<^const>\<open>handleDrop\<close>, \<^const>\<open>handleBubbleDrop\<close>,
    \<^const>\<open>handleRemoveFromContainer\<close>, \<^const>\<open>handleReorder\<close> and the mobile
    touch handlers. The datatype \<^typ>\<open>edit_event\<close> names the events, \<^const>\<open>edit_step\<close>
    dispatches them on the state and the browser's drag payload, \<^const>\<open>edit_enabled\<close>
    says which events the rendered overlay can deliver, and the inductive
    \<^const>\<open>edit_reach\<close> collects the reachable sessions. The abstract specification is
    the inductive \<^const>\<open>cfg_step\<close> (spec section 4.1 on the configuration): insert at a
    slot with tail eviction, append below five, remove, permute, keep.

  \<^item> \<open>Swipe\<close>: \<open>hooks/useSwipeGesture.ts\<close>: the hook's state (record
    \<^typ>\<open>swipe_state\<close>), its listeners \<^const>\<open>handleTouchStart\<close>,
    \<^const>\<open>handleTouchMove\<close>, \<^const>\<open>handleTouchEnd\<close> with the release decision
    \<^const>\<open>swipe_decide\<close>, and runs of touch events (\<^const>\<open>swipe_run\<close>).
  \<^item> \<open>Carousel\<close>: \<open>components/Carousel.tsx\<close>: the state hooks (record
    \<^typ>\<open>carousel_state\<close>), the handlers \<^const>\<open>nextSlide\<close>, \<^const>\<open>prevSlide\<close>,
    \<^const>\<open>handleKeyPress\<close>, \<^const>\<open>handleSwipe\<close>, \<^const>\<open>handleImageLoad\<close>,
    \<^const>\<open>handleSaveConfig\<close>, the window of neighbours \<^const>\<open>visibleBooks\<close>, the
    animation targets of a card and the centre card's rows \<^const>\<open>renderCenterFields\<close>,
    with a lookup-table specification \<^const>\<open>spec_card_rows\<close> of the pairing rule.
  \<^item> \<open>Layout\<close>: the \<open>updatePositions\<close> effect of \<open>index.tsx\<close>
    (\<^const>\<open>updatePositions\<close>, \<^const>\<open>positions_effect\<close>): the map from unassigned
    identifiers to points, built by a fold over the draggables.
  \<^item> \<open>AppModel\<close>: the composed program. The carousel with the overlay mounted under it
    (each mount a numbered instance, so that a timer closing over an unmounted overlay is
    visible), the save handler \<^const>\<open>saveClick\<close> and its two timers as pending
    continuations (datatype \<^typ>\<open>pending\<close>) fired by \<^const>\<open>fire\<close> in any order, the
    step function \<^const>\<open>app_step\<close> on \<^typ>\<open>app_event\<close>, the events the rendered UI can
    deliver (\<^const>\<open>app_enabled\<close>) and reachability \<^const>\<open>app_reach\<close>.
  \<^item> \<open>Format\<close>: the two field formatters, \<^const>\<open>formatValue\<close> of
    \<open>constants.ts\<close> (a string or \<open>RangeError\<close>, used by the overlay's rows
    \<^const>\<open>row_text\<close> and bubble previews \<^const>\<open>bubble_preview\<close>) and
    \<^const>\<open>formatValueCard\<close> of \<open>Carousel.tsx\<close> (a \<^typ>\<open>card_node\<close>), the
    property access \<^const>\<open>book_field\<close>, the content of each centre-card row
    \<^const>\<open>card_row_content\<close>, and the string built-ins they call (\<open>String\<close>,
    \<open>Math.floor\<close>, \<open>repeat\<close>, \<open>split\<close>, \<open>trim\<close>; \<open>trim\<close> through
    \<^const>\<open>strip_prefixes\<close>, a loop with an explicit termination proof). Strings are
    UTF-8 byte strings; the engine's number/string conversions are a parameter.
  \<^item> \<open>RowHover\<close>: \<open>ReorderableItem.tsx\<close>: the row's hover and drag hooks
    (record \<^typ>\<open>row_state\<close>), its listeners \<^const>\<open>row_handler\<close>, the effect
    \<^const>\<open>row_effect\<close>, the step \<^const>\<open>row_step\<close> and reachability
    \<^const>\<open>row_reach\<close>, with the mouseleave timeouts of \<open>onDragEnd\<close> counted (the
    native \<open>mouseleave\<close> they dispatch reaches no React listener, so firing one
    changes nothing but the count).
  \<^item> \<open>OverlayView\<close>: what the overlay renders from its state
    (\<^const>\<open>overlay_render\<close>): desktop bubbles (\<^const>\<open>desktop_bubbles\<close>,
    \<^const>\<open>bubble_render\<close> of \<open>DraggableBubble.tsx\<close>), mobile chips, the touch
    label, rows and drop zone of \<open>PreviewContainer.tsx\<close>
    (\<^const>\<open>preview_rows\<close>, \<^const>\<open>drop_zone\<close>), the counter and the Save
    button. It composes \<open>Assignment\<close>, \<open>Layout\<close> and \<open>Format\<close>.
  \<^item> \<open>Dispatch\<close>: the event wiring of the rendered overlay. The elements with listeners
    of one render (\<^const>\<open>ui_targets\<close>: bubbles or chips, rows with their remove
    buttons, the drop zone, the container, the reorder group) and one definition per
    element kind for which handler its listeners call with which arguments
    (\<^const>\<open>bubble_listener\<close> of \<open>DraggableBubble.tsx\<close>, \<^const>\<open>chip_listener\<close>
    of \<open>index.tsx\<close>, \<^const>\<open>slot_listener\<close> and \<^const>\<open>remove_listener\<close> of
    \<open>ReorderableItem.tsx\<close>, \<^const>\<open>container_listener\<close> and
    \<^const>\<open>group_listener\<close> of \<open>PreviewContainer.tsx\<close>). It ties the view of
    \<open>OverlayView\<close> to the events of \<open>Assignment\<close>.
  \<^item> \<open>OverlayContent\<close>: the text content of the overlay for the edited book
    (\<^const>\<open>overlay_content\<close>): the preview container's cover image and border
    (\<^const>\<open>container_render\<close> of \<open>PreviewContainer.tsx\<close>), the \<open>label: value\<close>
    line of every row (\<open>ReorderableItem.tsx\<close>) and the value preview of every bubble
    (\<open>DraggableBubble.tsx\<close>), formatted by \<^const>\<open>formatValue\<close>; a formatter error
    raised by any component aborts the render (\<^const>\<open>render_all\<close>).
  \<^item> \<open>PageDispatch\<close>: the event wiring of the whole page: the controls a user
    can reach in a state (\<^const>\<open>page_targets\<close>: the covers, the window and the
    carousel's Edit and arrow buttons always, since the overlay covers them for the
    pointer but traps no keyboard focus; the swipe area while no overlay is mounted; the
    overlay's Close and Save buttons and its drag-and-drop surface while one is) and one
    listener per control (\<^const>\<open>edit_button_listener\<close>,
    \<^const>\<open>prev_button_listener\<close>, \<^const>\<open>next_button_listener\<close>,
    \<^const>\<open>cover_listener\<close> of \<open>Carousel.tsx\<close>; \<^const>\<open>close_button_listener\<close>,
    \<^const>\<open>save_button_listener\<close> of \<open>index.tsx\<close>). It justifies the admission
    predicate \<^const>\<open>app_enabled\<close> of \<open>AppModel\<close>.
  \<^item> \<open>CarouselView\<close>: the carousel's cards (\<^const>\<open>carousel_cards\<close>,
    \<^const>\<open>card_render\<close>): key, stacking, the side a card enters from and leaves to
    (by \<open>direction\<close>, none under reduced motion), the skeleton and cover opacity by load
    state, and the centre card's formatted rows. Its lemmas show that exactly one card is
    the centre card showing the current book, that moving forward brings cards in from the
    right and backward from the left, and that a loaded title hides the skeleton.

  \<^bold>\<open>What is proved.\<close>
  \<^item> Assignment (C1 to C4, C6, C7): the configuration invariant (distinct, at most five, known
    identifiers) in every reachable session, through the refinement of
    \<^const>\<open>cfg_step\<close> by \<^const>\<open>edit_step\<close>; the tail eviction of a slot drop on a
    full configuration; that the spec's dragging-from-list phase is unreachable (both drag
    sources leave \<open>fromContainer\<close> false); every terminal drag
    event returns to idle; container and touch drops refuse a sixth field.
  \<^item> Swipe (C8, C10, C11): a swipe of exactly the threshold fires nothing (the code
    compares strictly); the decision direction by direction (a diagonal tie fires
    nothing); one gesture fires at most one event and resets the detector.
  \<^item> This theory (C9): the Save button guards against a second save. The invariant
    \<^const>\<open>save_inv\<close> of \<open>AppModel\<close> (the instances of the pending timers,
    \<^const>\<open>pending_instance\<close>, are distinct, and the mounted instance with a save in
    flight is saving) holds in every reachable state, so the rendered Save button of
    \<open>OverlayView\<close> is disabled and shows \<open>Saving...\<close> or \<open>Saved!\<close> while its
    save is in flight.
  \<^item> Carousel (C12, C14 to C16): both navigation handlers wrap around (and keep the
    index in range, a lemma used by AppModel); the window's indices and exactly when it
    repeats a book; the centre card equals the lookup-table specification (so price and review
    count are never shown alone).
  \<^item> OverlayContent (C18): in every reachable session the overlay's render raises
    \<open>RangeError\<close> exactly when the book's rating is negative and the rating row is
    assigned or, on the desktop, the rating bubble is dragged with the preview on.
  \<^item> AppModel (C5, C17, C19 to C23, C33): the arrow keys still reach the carousel while
    the overlay is open, so the overlay (its book \<^const>\<open>edit_book\<close> is
    \<open>books[currentIndex]\<close>) switches to the next book with its unsaved configuration;
    every save completes (from every reachable state
    the pending timers can fire until none is left, closing the overlay); the event loop
    \<^const>\<open>drain_timers\<close> that fires the timers terminates from every reachable state
    (a \<open>while_option\<close> loop, proved to return \<open>Some\<close> by the well-founded measure
    \<^const>\<open>timers_weight\<close>, two units per unresumed save and one per uncommitted
    one), and no run of timer events in any order is longer than that measure; a safety invariant
    of every reachable state (no undefined
    field rendered, the carousel's configuration valid, the overlay mounted exactly in
    edit mode, the index in range); the save round trip through the catalogue; a save
    still applies when the overlay is closed after Save; whatever enabled events follow a
    Save click, the clicked instance's pending timers carry the configuration on screen
    at the click, and its commit sets exactly those fields; only a save changes the
    displayed fields.
  \<^item> Layout (C24 to C27): positions exactly for the unassigned fields; the slot of each
    field is its rank among them in catalogue order; all bubbles on the circle and
    pairwise distinct; consecutive bubbles (the last and the first included) a rotation
    by \<open>2\<pi>/n\<close> apart.
  \<^item> PageDispatch (C13): the page delivers exactly the admitted events: every event a
    reachable control passes on is admitted by \<^const>\<open>app_enabled\<close>, every admitted
    click, save, close and navigation is delivered by some control (a disabled Save
    button fires nothing); with no focus trap, the carousel's buttons stay reachable by
    the keyboard while the overlay is mounted, and only the swipe gesture is not.
  \<^item> Dispatch (C28): the event model's admission predicate \<^const>\<open>edit_enabled\<close> is
    justified by the view: in every reachable session every event a rendered element
    delivers is admitted, and every admitted drag start, slot drop, removal, reorder
    and (on mobile) touch start is delivered by some rendered element.
  \<^item> Format (C29 to C32): the overlay's star rating (floor of the rating, and
    \<open>RangeError\<close> for a negative one, its only error); the tag chips are trimmed
    substrings of the tag string, and a blank string gives one empty chip.
  \<^item> RowHover (C34, C35): a dragged row is never shown hovered; from any state, the
    end of the drag, the pending \<open>mouseleave\<close> timeouts and the pointer leaving the
    row bring it to rest.
  \<^item> OverlayView (C36): in every reachable session the rendered circle shows exactly
    the unassigned fields at distinct points of the circle, one row per assigned field,
    at most one dragged bubble and at most one highlighted drop target.

  \<^bold>\<open>Parameters and bounds.\<close> The book list is not in the repository: its length
  \<open>n\<close> is a parameter of the carousel, and the theorems hold for every positive \<open>n\<close>.
  The viewport flag \<open>isMobile\<close> is a parameter wherever the code reads it. No loop of
  the program may run forever, so there is no fuel: every operation is a total function,
  runs of events are folds or reachability relations of any length, and which pending
  timer fires next is left open in \<^const>\<open>app_reach\<close>. The one loop of the model
  that is not structural, the event loop \<^const>\<open>drain_timers\<close>, is a
  \<open>while_option\<close> whose result is proved to be \<open>Some\<close>.

  \<^bold>\<open>Plan.\<close> Every component of the sources with state or logic is modelled. What
  remains is depth: the positions map between a render and its effect (the overlay is
  stated for the render after the effect has run), and properties of the rendered cards
  and rows under the composed system's runs.

  \<^bold>\<open>Not modelled.\<close> Animation and styling (framer-motion props, CSS classes, fixed
  transition parameters), \<open>BookCoverSkeleton.tsx\<close> (a static placeholder), \<open>App.tsx\<close>
  (a single mount), the body class \<open>modal-open\<close> set while the overlay is mounted (a
  style hook with no state of the program), the DOM side effects of the drag handlers
  (selection clearing, blur, and the synthetic \<open>mouseleave\<close> events, which reach no
  React listener), the interface \<open>InfoConfig\<close> (never
  used), and the data and hooks the sources import but the repository does not contain
  (\<open>data/books\<close>, \<open>hooks/useIsMobile\<close>, \<open>hooks/useReducedMotion\<close>): they enter as
  parameters. The library's reorder primitive \<^const>\<open>moveItem\<close> is modelled from its
  documented behaviour; the engine's \<open>Number.prototype.toString\<close> and string
  \<open>ToNumber\<close> are a parameter of the formatters, and object keys of
  \<open>Object.prototype\<close> read by \<open>book[id]\<close> are not modelled (every key used is a
  catalogue identifier).
\<close>

section \<open>Properties spanning the components\<close>

text \<open>
  C9. The Save button guards against a second save: in every reachable state no overlay
  instance has two saves in flight (the instances of the pending timers are distinct),
  and while the mounted overlay has a save in flight its rendered Save button is
  disabled and no longer reads \<open>Save Configuration\<close>.
\<close>

theorem save_in_flight_disables_button:
  assumes "app_reach n a"
  shows "distinct (map pending_instance (timers a))
    \<and> (case overlay a of
         Some (k, dt, st) \<Rightarrow>
           k \<in> set (map pending_instance (timers a)) \<longrightarrow>
             ov_saveDisabled (overlay_render m positions st)
             \<and> ov_saveLabel (overlay_render m positions st) \<noteq> ''Save Configuration''
       | None \<Rightarrow> True)"
  using app_reach_save_inv [OF assms]
  by (auto simp: save_inv_def overlay_render_def save_label_def split: option.split)

theorem save_in_flight_disables_button_witness:
  "distinct (map pending_instance (timers (app_run 3 [AEditClick, ASaveClick] app_init)))
   \<and> ov_saveDisabled (overlay_render False Map.empty
         ((init_edit (Some (activeInfoFields carousel_init)))\<lparr>isSaving := True\<rparr>))
   \<and> ov_saveLabel (overlay_render False Map.empty
         ((init_edit (Some (activeInfoFields carousel_init)))\<lparr>isSaving := True\<rparr>))
       \<noteq> ''Save Configuration''"
proof -
  have r: "app_reach 3 (app_run 3 [AEditClick, ASaveClick] app_init)"
    by (rule app_trace_reach [OF app_reach.start])
       (simp add: app_init_def saveClick_def init_edit_def)
  have ov: "overlay (app_run 3 [AEditClick, ASaveClick] app_init)
      = Some (0, None, (init_edit (Some (activeInfoFields carousel_init)))\<lparr>isSaving := True\<rparr>)"
    by (simp add: app_run_def app_init_def saveClick_def init_edit_def)
  have tm: "timers (app_run 3 [AEditClick, ASaveClick] app_init)
      = [SaveResume 0 (map info_id (activeInfoFields carousel_init))]"
    by (simp add: app_run_def app_init_def saveClick_def init_edit_def)
  show ?thesis
    using save_in_flight_disables_button [OF r, of False Map.empty] ov tm by simp
qed

end
